theory Spec2Isabelle
  imports Complex_Main
begin

section \<open>Data model: cells, frames, errors\<close>

text \<open>
  The programs work on pandas data frames. A frame is modelled as its number of rows
  together with its columns in order, each column a list of cells. A cell is a number,
  a missing value (NaN, NaT, None), a string, a timestamp or a sequence of numbers.
  Floating-point numbers are modelled as reals. A timestamp is the number of nanoseconds
  since the epoch, and a time interval a number of nanoseconds; pandas keeps both in 64-bit
  integers, the model in reals, and where pandas computes the mean of a column of intervals
  the model cuts it to a whole number as pandas does.
\<close>

datatype cell = Num real | NaN | Str string | DateTime real | Seq "real list"

datatype error = KeyError string | IndexError | TypeError | ValueError | NotModelled

record frame =
  nrows :: nat
  cols :: "(string \<times> cell list) list"

definition columns :: "frame \<Rightarrow> string list" where
  "columns df = map fst (cols df)"

definition get_column :: "frame \<Rightarrow> string \<Rightarrow> error + cell list" where
  \<comment> \<open>\<^verbatim>\<open>df[name]\<close>: KeyError when there is no such column\<close>
  "get_column df name =
     (case map_of (cols df) name of None \<Rightarrow> Inl (KeyError name) | Some c \<Rightarrow> Inr c)"

fun assign_alist :: "(string \<times> cell list) list \<Rightarrow> string \<Rightarrow> cell list \<Rightarrow> (string \<times> cell list) list" where
  "assign_alist [] name c = [(name, c)]"
| "assign_alist ((k, v) # kvs) name c =
     (if k = name then (k, c) # kvs else (k, v) # assign_alist kvs name c)"

definition assign :: "frame \<Rightarrow> string \<Rightarrow> cell list \<Rightarrow> frame" where
  \<comment> \<open>\<^verbatim>\<open>df[name] = values\<close>: an existing column is overwritten in place, a new one is
      appended as the last column\<close>
  "assign df name c = df\<lparr>cols := assign_alist (cols df) name c\<rparr>"

definition assign_scalar :: "frame \<Rightarrow> string \<Rightarrow> cell \<Rightarrow> frame" where
  \<comment> \<open>\<^verbatim>\<open>df[name] = v\<close> for a scalar \<open>v\<close>: the value in every row\<close>
  "assign_scalar df name v = assign df name (replicate (nrows df) v)"

definition drop_columns :: "frame \<Rightarrow> string list \<Rightarrow> frame" where
  \<comment> \<open>\<^verbatim>\<open>df.drop(columns=names)\<close>, at call sites where every name is a column of the frame\<close>
  "drop_columns df names = df\<lparr>cols := filter (\<lambda>(k, v). k \<notin> set names) (cols df)\<rparr>"

fun collect :: "(error + 'a) list \<Rightarrow> error + 'a list" where
  \<comment> \<open>an element-wise conversion stops at the first element that raises\<close>
  "collect [] = Inr []"
| "collect (Inl e # rs) = Inl e"
| "collect (Inr x # rs) = (case collect rs of Inl e \<Rightarrow> Inl e | Inr xs \<Rightarrow> Inr (x # xs))"

fun str_nat :: "nat \<Rightarrow> string" where
  \<comment> \<open>the decimal numeral that an f-string prints for a natural number\<close>
  "str_nat n = (if n < 10 then [''0123456789'' ! n]
                else str_nat (n div 10) @ [''0123456789'' ! (n mod 10)])"

declare str_nat.simps [simp del]

section \<open>Calendar features\<close>

text \<open>
  \<^verbatim>\<open>pd.to_datetime\<close> leaves timestamps and missing values as they are, reads a number as
  nanoseconds since the epoch and parses a string; the parser is a parameter
  (\<open>None\<close> when pandas raises on the string).
\<close>

fun to_datetime_cell :: "(string \<Rightarrow> real option) \<Rightarrow> cell \<Rightarrow> error + cell" where
  "to_datetime_cell parse_dt (DateTime t) = Inr (DateTime t)"
| "to_datetime_cell parse_dt NaN = Inr NaN"
| "to_datetime_cell parse_dt (Num r) = Inr (DateTime r)"
| "to_datetime_cell parse_dt (Str s) =
     (case parse_dt s of None \<Rightarrow> Inl ValueError | Some t \<Rightarrow> Inr (DateTime t))"
| "to_datetime_cell parse_dt (Seq xs) = Inl TypeError"

definition to_datetime :: "(string \<Rightarrow> real option) \<Rightarrow> cell list \<Rightarrow> error + cell list" where
  "to_datetime parse_dt c = collect (map (to_datetime_cell parse_dt) c)"

definition days_of :: "real \<Rightarrow> int" where
  "days_of t = \<lfloor>t / 86400000000000\<rfloor>"

definition hour_of :: "real \<Rightarrow> int" where
  "hour_of t = \<lfloor>t / 3600000000000\<rfloor> mod 24"

definition dayofweek_of :: "real \<Rightarrow> int" where
  \<comment> \<open>Monday is 0; 1 January 1970 was a Thursday\<close>
  "dayofweek_of t = (days_of t + 3) mod 7"

definition day_of_year_march :: "int \<Rightarrow> int" where
  \<comment> \<open>day of the year counted from 1 March, in the proleptic Gregorian calendar\<close>
  "day_of_year_march z =
     (let doe = (z + 719468) mod 146097;
          yoe = (doe - doe div 1460 + doe div 36524 - doe div 146096) div 365
      in doe - (365 * yoe + yoe div 4 - yoe div 100))"

definition day_of :: "real \<Rightarrow> int" where
  "day_of t =
     (let doy = day_of_year_march (days_of t); mp = (5 * doy + 2) div 153
      in doy - (153 * mp + 2) div 5 + 1)"

definition month_of :: "real \<Rightarrow> int" where
  "month_of t =
     (let doy = day_of_year_march (days_of t); mp = (5 * doy + 2) div 153
      in if mp < 10 then mp + 3 else mp - 9)"

fun dt_field :: "(real \<Rightarrow> int) \<Rightarrow> cell \<Rightarrow> cell" where
  \<comment> \<open>\<^verbatim>\<open>.dt.hour\<close> and its kin: missing for a missing timestamp\<close>
  "dt_field f (DateTime t) = Num (of_int (f t))"
| "dt_field f c = NaN"

fun is_weekend :: "cell \<Rightarrow> cell" where
  \<comment> \<open>\<^verbatim>\<open>lambda x: 1 if x >= 5 else 0\<close>; a comparison with NaN is false\<close>
  "is_weekend (Num d) = Num (if d \<ge> 5 then 1 else 0)"
| "is_weekend c = Num 0"

definition get_day_part :: "real \<Rightarrow> string" where
  "get_day_part hour =
     (if 5 \<le> hour \<and> hour < 12 then ''morning''
      else if 12 \<le> hour \<and> hour < 17 then ''afternoon''
      else if 17 \<le> hour \<and> hour < 22 then ''evening''
      else ''night'')"

fun day_part_cell :: "cell \<Rightarrow> cell" where
  \<comment> \<open>\<^verbatim>\<open>get_day_part\<close> applied to a cell of the hour column: every comparison with NaN is
      false, so a missing hour falls through to the last branch\<close>
  "day_part_cell (Num h) = Str (get_day_part h)"
| "day_part_cell c = Str ''night''"

definition one_hot :: "string \<Rightarrow> cell \<Rightarrow> cell" where
  \<comment> \<open>\<^verbatim>\<open>(df_new['day_part'] == part).astype(int)\<close>\<close>
  "one_hot part c = Num (if c = Str part then 1 else 0)"

fun cyclic :: "(real \<Rightarrow> real) \<Rightarrow> real \<Rightarrow> cell \<Rightarrow> cell" where
  \<comment> \<open>\<^verbatim>\<open>np.sin(2 * np.pi * x / period)\<close>, and the same with \<^verbatim>\<open>np.cos\<close>\<close>
  "cyclic f period (Num x) = Num (f (2 * pi * x / period))"
| "cyclic f period c = NaN"

definition day_parts :: "string list" where
  "day_parts = [''morning'', ''afternoon'', ''evening'', ''night'']"

definition base_time_features :: "frame \<Rightarrow> string \<Rightarrow> cell list \<Rightarrow> frame" where
  \<comment> \<open>the part that both variants of \<^verbatim>\<open>create_time_features\<close> share: the datetime column,
      hour, day of week, day of month, month, weekend flag and the day-part column\<close>
  "base_time_features df time_col ts =
     (let df1 = assign df time_col ts;
          hours = map (dt_field hour_of) ts;
          dows = map (dt_field dayofweek_of) ts;
          df2 = assign df1 ''hour_of_day'' hours;
          df3 = assign df2 ''day_of_week'' dows;
          df4 = assign df3 ''day_of_month'' (map (dt_field day_of) ts);
          df5 = assign df4 ''month'' (map (dt_field month_of) ts);
          df6 = assign df5 ''is_weekend'' (map is_weekend dows)
      in assign df6 ''day_part'' (map day_part_cell hours))"

definition cyclic_features :: "frame \<Rightarrow> cell list \<Rightarrow> frame" where
  "cyclic_features df ts =
     (let hours = map (dt_field hour_of) ts;
          dows = map (dt_field dayofweek_of) ts;
          df1 = assign df ''hour_sin'' (map (cyclic sin 24) hours);
          df2 = assign df1 ''hour_cos'' (map (cyclic cos 24) hours);
          df3 = assign df2 ''day_sin'' (map (cyclic sin 7) dows)
      in assign df3 ''day_cos'' (map (cyclic cos 7) dows))"

definition create_time_features ::
  "(string \<Rightarrow> real option) \<Rightarrow> frame \<Rightarrow> string \<Rightarrow> error + frame" where
  \<comment> \<open>\<^verbatim>\<open>rf_predict.create_time_features\<close>: the four indicator columns are written one by
      one, for every name of \<open>day_parts\<close>\<close>
  "create_time_features parse_dt df time_col =
     (if time_col \<notin> set (columns df) then Inr df
      else case get_column df time_col of Inl e \<Rightarrow> Inl e | Inr tc \<Rightarrow>
        (case to_datetime parse_dt tc of Inl e \<Rightarrow> Inl e | Inr ts \<Rightarrow>
          (let df1 = base_time_features df time_col ts;
               dp = map day_part_cell (map (dt_field hour_of) ts);
               df2 = fold (\<lambda>part d. assign d (''day_part_'' @ part) (map (one_hot part) dp))
                          day_parts df1;
               df3 = drop_columns df2 [''day_part'']
           in Inr (cyclic_features df3 ts))))"

definition get_dummies :: "frame \<Rightarrow> cell list \<Rightarrow> frame" where
  \<comment> \<open>\<^verbatim>\<open>pd.get_dummies(df, columns=['day_part'], prefix='day_part')\<close>: the column is
      replaced by one indicator column for each value that occurs in it, in sorted order,
      appended after the other columns\<close>
  "get_dummies df dp =
     (drop_columns df [''day_part''])
       \<lparr>cols := cols (drop_columns df [''day_part'']) @
          map (\<lambda>part. (''day_part_'' @ part, map (one_hot part) dp))
              (filter (\<lambda>part. Str part \<in> set dp)
                 [''afternoon'', ''evening'', ''morning'', ''night''])\<rparr>"

definition create_time_features_v2 ::
  "(string \<Rightarrow> real option) \<Rightarrow> frame \<Rightarrow> string \<Rightarrow> error + frame" where
  \<comment> \<open>\<^verbatim>\<open>v2/prediction/future_predict.create_time_features\<close> (and the copy in
      \<^verbatim>\<open>v2/prediction/predict.py\<close>): the indicators come from \<^verbatim>\<open>pd.get_dummies\<close>\<close>
  "create_time_features_v2 parse_dt df time_col =
     (if time_col \<notin> set (columns df) then Inr df
      else case get_column df time_col of Inl e \<Rightarrow> Inl e | Inr tc \<Rightarrow>
        (case to_datetime parse_dt tc of Inl e \<Rightarrow> Inl e | Inr ts \<Rightarrow>
          (let df1 = base_time_features df time_col ts;
               dp = map day_part_cell (map (dt_field hour_of) ts);
               df2 = get_dummies df1 dp
           in Inr (cyclic_features df2 ts))))"

section \<open>Lag and rolling features\<close>

definition shift :: "nat \<Rightarrow> cell list \<Rightarrow> cell list" where
  \<comment> \<open>\<^verbatim>\<open>series.shift(lag)\<close>: the first \<open>lag\<close> rows are missing\<close>
  "shift lag c = take (length c) (replicate lag NaN @ c)"

fun lag_loop :: "frame \<Rightarrow> string \<Rightarrow> nat list \<Rightarrow> error + frame" where
  "lag_loop df target [] = Inr df"
| "lag_loop df target (lag # lags) =
     (case get_column df target of Inl e \<Rightarrow> Inl e
      | Inr c \<Rightarrow> lag_loop (assign df (target @ ''_lag_'' @ str_nat lag) (shift lag c)) target lags)"

fun create_lag_features :: "frame \<Rightarrow> string list \<Rightarrow> nat list \<Rightarrow> error + frame" where
  "create_lag_features df [] lag_periods = Inr df"
| "create_lag_features df (target # targets) lag_periods =
     (case lag_loop df target lag_periods of Inl e \<Rightarrow> Inl e
      | Inr df' \<Rightarrow> create_lag_features df' targets lag_periods)"

definition default_lags :: "nat list" where
  "default_lags = [1, 3, 6, 12, 24]"

fun float_cell :: "cell \<Rightarrow> error + real option" where
  \<comment> \<open>the numeric content of a cell; \<open>None\<close> is NaN; a cell that is not numeric raises\<close>
  "float_cell (Num r) = Inr (Some r)"
| "float_cell NaN = Inr None"
| "float_cell c = Inl TypeError"

definition floats :: "cell list \<Rightarrow> error + real option list" where
  "floats c = collect (map float_cell c)"

definition window_at :: "nat \<Rightarrow> nat \<Rightarrow> 'a list \<Rightarrow> 'a list" where
  \<comment> \<open>the rows \<open>max 0 (i + 1 - w), \<dots>, i\<close> of a trailing window of size \<open>w\<close> at row \<open>i\<close>\<close>
  "window_at w i xs = take (min w (i + 1)) (drop (i + 1 - w) xs)"

definition observed :: "real option list \<Rightarrow> real list" where
  \<comment> \<open>the values of a window that are not missing\<close>
  "observed ws = List.map_filter (\<lambda>x. x) ws"

definition mean :: "real list \<Rightarrow> real" where
  "mean v = sum_list v / real (length v)"

definition sample_std :: "real list \<Rightarrow> real" where
  \<comment> \<open>pandas' \<^verbatim>\<open>std\<close>: one degree of freedom is taken off (\<^verbatim>\<open>ddof=1\<close>)\<close>
  "sample_std v = sqrt (sum_list (map (\<lambda>x. (x - mean v)\<^sup>2) v) / (real (length v) - 1))"

text \<open>
  With \<^verbatim>\<open>min_periods=1\<close> a statistic is computed as soon as the window holds one
  observation. The standard deviation needs, in addition, more observations than degrees
  of freedom taken off, so it is missing for a window with a single observation.
\<close>

definition roll_mean :: "real list \<Rightarrow> cell" where
  "roll_mean v = (if 1 \<le> length v then Num (mean v) else NaN)"

definition roll_std :: "real list \<Rightarrow> cell" where
  "roll_std v = (if 1 \<le> length v \<and> 1 < length v then Num (sample_std v) else NaN)"

definition roll_min :: "real list \<Rightarrow> cell" where
  "roll_min v = (if 1 \<le> length v then Num (Min (set v)) else NaN)"

definition roll_max :: "real list \<Rightarrow> cell" where
  "roll_max v = (if 1 \<le> length v then Num (Max (set v)) else NaN)"

definition rolling :: "(real list \<Rightarrow> cell) \<Rightarrow> nat \<Rightarrow> real option list \<Rightarrow> cell list" where
  \<comment> \<open>\<^verbatim>\<open>series.rolling(window=w, min_periods=1)\<close> followed by a statistic\<close>
  "rolling stat w xs = map (\<lambda>i. stat (observed (window_at w i xs))) [0..<length xs]"

fun rolling_loop :: "frame \<Rightarrow> string \<Rightarrow> nat list \<Rightarrow> error + frame" where
  "rolling_loop df target [] = Inr df"
| "rolling_loop df target (w # ws) =
     (case get_column df target of Inl e \<Rightarrow> Inl e | Inr c \<Rightarrow>
       (case floats c of Inl e \<Rightarrow> Inl e | Inr xs \<Rightarrow>
         (let df1 = assign df (target @ ''_rolling_mean_'' @ str_nat w) (rolling roll_mean w xs);
              df2 = assign df1 (target @ ''_rolling_std_'' @ str_nat w) (rolling roll_std w xs);
              df3 = assign df2 (target @ ''_rolling_min_'' @ str_nat w) (rolling roll_min w xs);
              df4 = assign df3 (target @ ''_rolling_max_'' @ str_nat w) (rolling roll_max w xs)
          in rolling_loop df4 target ws)))"

fun create_rolling_features :: "frame \<Rightarrow> string list \<Rightarrow> nat list \<Rightarrow> error + frame" where
  "create_rolling_features df [] windows = Inr df"
| "create_rolling_features df (target # targets) windows =
     (case rolling_loop df target windows of Inl e \<Rightarrow> Inl e
      | Inr df' \<Rightarrow> create_rolling_features df' targets windows)"

definition default_windows :: "nat list" where
  "default_windows = [3, 6, 12, 24]"

section \<open>Feature reconciliation and numeric coercion\<close>

definition select :: "frame \<Rightarrow> string list \<Rightarrow> error + frame" where
  \<comment> \<open>\<^verbatim>\<open>df[names]\<close>: the named columns in the order of \<open>names\<close>\<close>
  "select df names =
     (case collect (map (\<lambda>n. case get_column df n of Inl e \<Rightarrow> Inl e | Inr c \<Rightarrow> Inr (n, c)) names)
      of Inl e \<Rightarrow> Inl e | Inr kvs \<Rightarrow> Inr (df\<lparr>cols := kvs\<rparr>))"

fun fillna0_cell :: "cell \<Rightarrow> cell" where
  "fillna0_cell NaN = Num 0"
| "fillna0_cell c = c"

definition fillna0 :: "frame \<Rightarrow> frame" where
  \<comment> \<open>\<^verbatim>\<open>X.fillna(0)\<close>\<close>
  "fillna0 X = X\<lparr>cols := map (\<lambda>(k, c). (k, map fillna0_cell c)) (cols X)\<rparr>"

definition startswith :: "string \<Rightarrow> string \<Rightarrow> bool" where
  "startswith s pre = (take (length pre) s = pre)"

definition endswith :: "string \<Rightarrow> string \<Rightarrow> bool" where
  "endswith s suf = (length suf \<le> length s \<and> drop (length s - length suf) s = suf)"

text \<open>
  The type of a column is read off its cells: a column of numbers and missing values is
  numeric, a column of timestamps (and missing timestamps) is a datetime column, any
  other column has the object type.
\<close>

fun is_number :: "cell \<Rightarrow> bool" where
  "is_number (Num r) = True"
| "is_number NaN = True"
| "is_number c = False"

fun is_timestamp :: "cell \<Rightarrow> bool" where
  "is_timestamp (DateTime t) = True"
| "is_timestamp NaN = True"
| "is_timestamp c = False"

definition is_number_col :: "cell list \<Rightarrow> bool" where
  "is_number_col c = list_all is_number c"

definition is_datetime_col :: "cell list \<Rightarrow> bool" where
  "is_datetime_col c = (\<not> is_number_col c \<and> list_all is_timestamp c)"

fun to_numeric_cell :: "(string \<Rightarrow> real option) \<Rightarrow> cell \<Rightarrow> real option" where
  \<comment> \<open>\<^verbatim>\<open>pd.to_numeric(_, errors='coerce')\<close> on one value of an object column; \<open>None\<close> is
      NaN. The parser of numeric strings is a parameter.\<close>
  "to_numeric_cell parse_num (Num r) = Some r"
| "to_numeric_cell parse_num NaN = None"
| "to_numeric_cell parse_num (Str s) = parse_num s"
| "to_numeric_cell parse_num (DateTime t) = None"
| "to_numeric_cell parse_num (Seq xs) = None"

fun epoch_seconds :: "cell \<Rightarrow> cell" where
  \<comment> \<open>\<^verbatim>\<open>X[col].astype(np.int64) / 10**9\<close> on one timestamp\<close>
  "epoch_seconds (DateTime t) = Num (t / 10 ^ 9)"
| "epoch_seconds c = c"

definition coerce_column :: "(string \<Rightarrow> real option) \<Rightarrow> cell list \<Rightarrow> cell list option" where
  \<comment> \<open>the body of the loop over the non-numeric columns; \<open>None\<close> when the column is
      dropped: the conversion of a datetime column raises on a missing timestamp, and the
      handler drops the column. \<^verbatim>\<open>pd.to_numeric\<close> with \<^verbatim>\<open>errors='coerce'\<close> does not raise on
      the cells of the model.\<close>
  "coerce_column parse_num c =
     (if is_datetime_col c then
        (if NaN \<in> set c then None else Some (map epoch_seconds c))
      else Some (map (\<lambda>x. fillna0_cell
                   (case to_numeric_cell parse_num x of None \<Rightarrow> NaN | Some r \<Rightarrow> Num r)) c))"

definition coerce_non_numeric :: "(string \<Rightarrow> real option) \<Rightarrow> frame \<Rightarrow> frame" where
  \<comment> \<open>"Ensure all data is numeric before scaling" of \<^verbatim>\<open>rf_predict.py\<close>\<close>
  "coerce_non_numeric parse_num X =
     X\<lparr>cols := List.map_filter
        (\<lambda>(k, c). if is_number_col c then Some (k, c)
                  else map_option (\<lambda>c'. (k, c')) (coerce_column parse_num c))
        (cols X)\<rparr>"

definition nth_cell :: "cell list \<Rightarrow> nat \<Rightarrow> cell" where
  "nth_cell c i = (if i < length c then c ! i else NaN)"

fun number_of :: "cell \<Rightarrow> real option" where
  "number_of (Num r) = Some r"
| "number_of c = None"

definition to_matrix :: "frame \<Rightarrow> real option list list" where
  \<comment> \<open>the rows of a numeric frame, as the scaler receives them\<close>
  "to_matrix X = map (\<lambda>i. map (\<lambda>(k, c). number_of (nth_cell c i)) (cols X)) [0..<nrows X]"

text \<open>
  The fitted normalizer and the regressor are opaque: the normalizer may carry the list
  of feature names it was fitted on and maps a matrix to a matrix, the regressor maps a
  matrix to one prediction for each row; both may raise.
\<close>

record scaler =
  feature_names_in :: "string list option"
  transform :: "real option list list \<Rightarrow> error + real option list list"

type_synonym model = "real option list list \<Rightarrow> error + real list"

definition scale_and_predict :: "model \<Rightarrow> scaler \<Rightarrow> frame \<Rightarrow> error + real list" where
  "scale_and_predict m sc X =
     (case transform sc (to_matrix X) of Inl e \<Rightarrow> Inl e | Inr X_scaled \<Rightarrow> m X_scaled)"

definition add_missing :: "frame \<Rightarrow> string list \<Rightarrow> cell \<Rightarrow> frame" where
  \<comment> \<open>\<^verbatim>\<open>for feat in missing: df[feat] = v\<close>, over the expected names that are not columns\<close>
  "add_missing df expected v =
     fold (\<lambda>feat d. assign_scalar d feat v)
          (filter (\<lambda>feat. feat \<notin> set (columns df)) expected) df"

definition reconcile :: "frame \<Rightarrow> string list \<Rightarrow> error + frame" where
  \<comment> \<open>\<^verbatim>\<open>make_predictions\<close>, the branch for a scaler with feature names: the missing
      columns are added as NaN, the expected columns are selected, NaN becomes 0\<close>
  "reconcile df_copy expected_features =
     (case select (add_missing df_copy expected_features NaN) expected_features of
        Inl e \<Rightarrow> Inl e | Inr X \<Rightarrow> Inr (fillna0 X))"

definition feature_matrix ::
  "(string \<Rightarrow> real option) \<Rightarrow> scaler \<Rightarrow> frame \<Rightarrow> string list \<Rightarrow> error + frame" where
  \<comment> \<open>the frame \<open>X\<close> that \<^verbatim>\<open>make_predictions\<close> hands to \<^verbatim>\<open>scaler.transform\<close>\<close>
  "feature_matrix parse_num sc df_copy target_vars =
     (case feature_names_in sc of
        Some expected_features \<Rightarrow>
          (case reconcile df_copy expected_features of
             Inl e \<Rightarrow> Inl e | Inr X \<Rightarrow> Inr (coerce_non_numeric parse_num X))
      | None \<Rightarrow>
          Inr (coerce_non_numeric parse_num
                 (drop_columns df_copy
                    (filter (\<lambda>col. col \<in> set target_vars \<or> startswith col ''time_'')
                       (columns df_copy)))))"

definition make_predictions ::
  "(string \<Rightarrow> real option) \<Rightarrow> (string \<Rightarrow> real option) \<Rightarrow> model \<Rightarrow> scaler \<Rightarrow> frame \<Rightarrow> string
     \<Rightarrow> string list \<Rightarrow> error + frame \<times> real list" where
  "make_predictions parse_dt parse_num m sc df target_var target_vars =
     (case (if ''time_dt'' \<in> set (columns df) then create_time_features parse_dt df ''time_dt''
            else Inr df) of Inl e \<Rightarrow> Inl e | Inr df1 \<Rightarrow>
      (case create_lag_features df1 [target_var] default_lags of Inl e \<Rightarrow> Inl e | Inr df2 \<Rightarrow>
       (case create_rolling_features df2 [target_var] default_windows of Inl e \<Rightarrow> Inl e | Inr df_copy \<Rightarrow>
        (case feature_matrix parse_num sc df_copy target_vars of Inl e \<Rightarrow> Inl e | Inr X \<Rightarrow>
         (case scale_and_predict m sc X of Inl e \<Rightarrow> Inl e | Inr predictions \<Rightarrow>
           (if length predictions \<noteq> nrows df then Inl ValueError
            else Inr (assign df (target_var @ ''_predicted'') (map Num predictions),
                      predictions)))))))"

definition reconcile_xgb :: "frame \<Rightarrow> string list \<Rightarrow> error + frame" where
  \<comment> \<open>\<^verbatim>\<open>predict_with_xgb\<close>: the columns that are not expected are dropped, the missing ones
      are added with 0, the expected columns are selected\<close>
  "reconcile_xgb X expected_features =
     (let extra_cols = filter (\<lambda>col. col \<notin> set expected_features) (columns X);
          X_subset = drop_columns X extra_cols
      in select (add_missing X_subset expected_features (Num 0)) expected_features)"

definition predict_with_xgb ::
  "model option \<Rightarrow> scaler option \<Rightarrow> frame \<Rightarrow> string list \<Rightarrow> real list option" where
  \<comment> \<open>every exception is caught and answered with \<^verbatim>\<open>None\<close>\<close>
  "predict_with_xgb xgb_model sc_opt df feature_cols =
     (case xgb_model of None \<Rightarrow> None | Some m \<Rightarrow>
      (case sc_opt of None \<Rightarrow> None | Some sc \<Rightarrow>
       (case select df feature_cols of Inl e \<Rightarrow> None | Inr X \<Rightarrow>
        (let expected_features =
               (case feature_names_in sc of Some F \<Rightarrow> F | None \<Rightarrow> feature_cols)
         in case reconcile_xgb X expected_features of Inl e \<Rightarrow> None | Inr X_subset \<Rightarrow>
            (case scale_and_predict m sc X_subset of Inl e \<Rightarrow> None | Inr y_pred \<Rightarrow> Some y_pred)))))"

fun feature_value_v2 :: "cell \<Rightarrow> real" where
  \<comment> \<open>\<^verbatim>\<open>v2/prediction/future_predict.predict_future_values\<close>, the conversion of one value of
      the current row: a sequence gives its first element, a string 0, a missing value 0,
      anything else goes through \<^verbatim>\<open>float\<close>, which raises on a timestamp; the handler
      stores 0\<close>
  "feature_value_v2 (Seq []) = 0"
| "feature_value_v2 (Seq (x # xs)) = x"
| "feature_value_v2 (Str s) = 0"
| "feature_value_v2 NaN = 0"
| "feature_value_v2 (Num r) = r"
| "feature_value_v2 (DateTime t) = 0"

definition feature_array_v2 :: "frame \<Rightarrow> string list \<Rightarrow> real list" where
  \<comment> \<open>the feature array of the current (last) row; a feature that is not a column is 0\<close>
  "feature_array_v2 current_row expected_features =
     map (\<lambda>feature. case map_of (cols current_row) feature of
                       Some c \<Rightarrow> feature_value_v2 (nth_cell c 0)
                     | None \<Rightarrow> 0) expected_features"

section \<open>Future time points\<close>

fun timestamp_of :: "cell \<Rightarrow> real option" where
  "timestamp_of (DateTime t) = Some t"
| "timestamp_of c = None"

fun time_diff :: "cell \<times> cell \<Rightarrow> real option" where
  "time_diff (DateTime a, DateTime b) = Some (b - a)"
| "time_diff p = None"

definition time_diffs :: "cell list \<Rightarrow> real list" where
  \<comment> \<open>\<^verbatim>\<open>df[time_col].diff().dropna()\<close>: each row minus the row before it\<close>
  "time_diffs ts = List.map_filter time_diff (zip ts (tl ts))"

definition whole_ns :: "real \<Rightarrow> real" where
  \<comment> \<open>the mean of a column of time intervals is computed in floating point and stored as
      an interval again, a whole number of nanoseconds: the fraction is cut off, towards
      zero\<close>
  "whole_ns x = (if x < 0 then of_int \<lceil>x\<rceil> else of_int \<lfloor>x\<rfloor>)"

definition avg_interval :: "cell list \<Rightarrow> real option" where
  \<comment> \<open>\<^verbatim>\<open>time_diffs.mean()\<close>, a \<^verbatim>\<open>Timedelta\<close>; missing when there is no difference to average\<close>
  "avg_interval ts =
     (if time_diffs ts = [] then None else Some (whole_ns (mean (time_diffs ts))))"

definition last_time :: "cell list \<Rightarrow> real option" where
  \<comment> \<open>\<^verbatim>\<open>df[time_col].max()\<close>\<close>
  "last_time ts =
     (let v = List.map_filter timestamp_of ts in if v = [] then None else Some (Max (set v)))"

definition future_time :: "real option \<Rightarrow> real option \<Rightarrow> nat \<Rightarrow> cell" where
  \<comment> \<open>\<^verbatim>\<open>last_time + (i+1) * avg_interval\<close>: a timestamp plus a multiple of the interval\<close>
  "future_time lt av i =
     (case (lt, av) of (Some l, Some a) \<Rightarrow> DateTime (l + (real i + 1) * a) | _ \<Rightarrow> NaN)"

definition create_future_timepoints ::
  "(string \<Rightarrow> real option) \<Rightarrow> frame \<Rightarrow> nat \<Rightarrow> string \<Rightarrow> error + frame option" where
  \<comment> \<open>the same function in \<^verbatim>\<open>rf_predict.py\<close> and \<^verbatim>\<open>v2/prediction/future_predict.py\<close>.
      \<open>Inr None\<close> is the returned \<^verbatim>\<open>None\<close>. The function also writes the converted time column
      back into \<open>df\<close>; its callers hand it a column that is converted already.\<close>
  "create_future_timepoints parse_dt df future_periods time_col =
     (if time_col \<notin> set (columns df) \<or> nrows df \<le> 1 then Inr None
      else case get_column df time_col of Inl e \<Rightarrow> Inl e | Inr tc \<Rightarrow>
        (case to_datetime parse_dt tc of Inl e \<Rightarrow> Inl e | Inr ts \<Rightarrow>
           Inr (Some \<lparr>nrows = future_periods,
                      cols = [(time_col,
                               map (future_time (last_time ts) (avg_interval ts))
                                   [0..<future_periods])]\<rparr>)))"

section \<open>The recursive forecaster of \<^verbatim>\<open>rf_predict.py\<close>\<close>

definition argsort :: "nat \<Rightarrow> cell list \<Rightarrow> nat list" where
  \<comment> \<open>the row numbers \<open>0, \<dots>, n - 1\<close> in the order of their timestamps, rows without a
      timestamp last. The model sorts stably.\<close>
  "argsort n ts =
     sort_key (\<lambda>i. the (timestamp_of (nth_cell ts i)))
        (filter (\<lambda>i. timestamp_of (nth_cell ts i) \<noteq> None) [0..<n])
     @ filter (\<lambda>i. timestamp_of (nth_cell ts i) = None) [0..<n]"

definition sort_values :: "frame \<Rightarrow> cell list \<Rightarrow> frame" where
  \<comment> \<open>\<^verbatim>\<open>df.sort_values(time_col).reset_index(drop=True)\<close>, \<open>ts\<close> being the time column\<close>
  "sort_values df ts =
     df\<lparr>cols := map (\<lambda>(k, c). (k, map (nth_cell c) (argsort (nrows df) ts))) (cols df)\<rparr>"

definition last_row :: "frame \<Rightarrow> frame" where
  \<comment> \<open>\<^verbatim>\<open>df.iloc[-1:]\<close>\<close>
  "last_row df =
     \<lparr>nrows = min 1 (nrows df),
      cols = map (\<lambda>(k, c). (k, map (nth_cell c) [nrows df - 1..<nrows df])) (cols df)\<rparr>"

fun number_cell :: "cell \<Rightarrow> error + real" where
  \<comment> \<open>the historical target is modelled for numbers only: text raises in the arithmetic,
      and a missing value would make predictions NaN, which a real number cannot be\<close>
  "number_cell (Num r) = Inr r"
| "number_cell NaN = Inl NotModelled"
| "number_cell c = Inl TypeError"

definition numbers :: "cell list \<Rightarrow> error + real list" where
  "numbers c = collect (map number_cell c)"

definition diff_dropna :: "real list \<Rightarrow> real list" where
  \<comment> \<open>\<^verbatim>\<open>series.diff().dropna()\<close>\<close>
  "diff_dropna xs = map (\<lambda>(a, b). b - a) (zip xs (tl xs))"

definition group_means :: "cell list \<Rightarrow> real list \<Rightarrow> (real \<times> real) list" where
  \<comment> \<open>\<^verbatim>\<open>target.groupby(key).mean()\<close>: one entry for each key that occurs; rows with a missing
      key are left out\<close>
  "group_means keys xs =
     map (\<lambda>k. (k, mean (map snd (filter (\<lambda>(c, x). c = Num k) (zip keys xs)))))
         (sort (remdups (List.map_filter number_of keys)))"

definition normalized :: "(real \<times> real) list \<Rightarrow> error + (real \<times> real) list" where
  \<comment> \<open>\<^verbatim>\<open>pattern / pattern.mean()\<close>; a zero mean gives infinities in floating point, which
      the model leaves out\<close>
  "normalized pattern =
     (if mean (map snd pattern) = 0 then Inl NotModelled
      else Inr (map (\<lambda>(k, v). (k, v / mean (map snd pattern))) pattern))"

definition pattern_of :: "frame \<Rightarrow> string \<Rightarrow> real list \<Rightarrow> error + (real \<times> real) list" where
  "pattern_of df key xs =
     (case get_column df key of Inl e \<Rightarrow> Inl e | Inr keys \<Rightarrow>
        (if list_all is_number keys then normalized (group_means keys xs) else Inl NotModelled))"

fun pattern_get :: "(real \<times> real) list \<Rightarrow> cell \<Rightarrow> real" where
  \<comment> \<open>\<^verbatim>\<open>pattern.get(key, 1)\<close>\<close>
  "pattern_get pattern (Num h) = (case map_of pattern h of Some f \<Rightarrow> f | None \<Rightarrow> 1)"
| "pattern_get pattern c = 1"

text \<open>
  What stays fixed during a run: the parsers, the model and the scaler, the source of
  randomness, the sorted history of the target, the statistics of the warm-up and the
  expected feature names. \<^verbatim>\<open>np.random.normal(0, s)\<close> is \<open>s\<close> times a standard normal draw;
  the draws are read from a sequence, \<open>noise n\<close> being draw number \<open>n\<close>.
\<close>

record forecast_run =
  parse_dt :: "string \<Rightarrow> real option"
  parse_num :: "string \<Rightarrow> real option"
  predict :: model
  scaler_of :: scaler
  noise :: "nat \<Rightarrow> real"
  target_var :: string
  hist :: "real list"
  avg_diff :: real
  std_diff :: real
  daily_pattern_norm :: "(real \<times> real) list option"
  weekly_pattern_norm :: "(real \<times> real) list option"

definition lag_source :: "real list \<Rightarrow> real list \<Rightarrow> nat \<Rightarrow> nat \<Rightarrow> error + real \<times> real" where
  \<comment> \<open>the value a lag feature starts from and the factor of its noise; \<open>h\<close> is the target
      column of the sorted history, \<^verbatim>\<open>working_df.iloc[idx]\<close> raises when \<open>idx\<close> reaches
      before the first row\<close>
  "lag_source h all_predictions i lag =
     (if lag > length all_predictions then
        (if lag = 1 \<and> i > 0 then
           (if all_predictions = [] then Inl IndexError else Inr (last all_predictions, 0.5))
         else if int i - int lag < 0 then
           (if lag - i \<le> length h then Inr (h ! (length h - (lag - i)), 0.3) else Inl IndexError)
         else (if all_predictions = [] then Inl IndexError else Inr (hd all_predictions, 0.3)))
      else Inr (all_predictions ! (length all_predictions - lag), 0.3))"

fun update_lags ::
  "forecast_run \<Rightarrow> real list \<Rightarrow> nat \<Rightarrow> nat list \<Rightarrow> frame \<times> nat \<Rightarrow> error + frame \<times> nat" where
  \<comment> \<open>\<^verbatim>\<open>for lag in range(1, 25)\<close>; the second component counts the draws made so far\<close>
  "update_lags r all_predictions i [] (fd, k) = Inr (fd, k)"
| "update_lags r all_predictions i (lag # lags) (fd, k) =
     (case lag_source (hist r) all_predictions i lag of Inl e \<Rightarrow> Inl e
      | Inr (v, f) \<Rightarrow>
          update_lags r all_predictions i lags
            (assign_scalar fd (target_var r @ ''_lag_'' @ str_nat lag)
               (Num (v + std_diff r * f * noise r k)), Suc k))"

definition window_value :: "real list \<Rightarrow> real list \<Rightarrow> nat \<Rightarrow> error + real" where
  \<comment> \<open>the \<open>j\<close>-th value of \<^verbatim>\<open>values_to_avg\<close>: from the predictions, newest first, then from
      the history\<close>
  "window_value h all_predictions j =
     (if j < length all_predictions then Inr (all_predictions ! (length all_predictions - j - 1))
      else if int (length all_predictions) - int j - 1 < 0
              \<and> j + 1 - length all_predictions < length h
        then Inr (h ! (length h - (j + 1 - length all_predictions)))
      else if all_predictions \<noteq> [] then Inr (hd all_predictions)
      else if h = [] then Inl IndexError else Inr (last h))"

definition np_std :: "real list \<Rightarrow> real" where
  \<comment> \<open>\<^verbatim>\<open>np.std\<close>: the population standard deviation\<close>
  "np_std v = sqrt (sum_list (map (\<lambda>x. (x - mean v)\<^sup>2) v) / real (length v))"

fun update_rolling ::
  "forecast_run \<Rightarrow> real list \<Rightarrow> nat list \<Rightarrow> frame \<times> nat \<Rightarrow> error + frame \<times> nat" where
  \<comment> \<open>\<^verbatim>\<open>for window in [3, 6, 12, 24]\<close>: three draws for each window\<close>
  "update_rolling r all_predictions [] (fd, k) = Inr (fd, k)"
| "update_rolling r all_predictions (w # ws) (fd, k) =
     (case collect (map (window_value (hist r) all_predictions) [0..<w]) of Inl e \<Rightarrow> Inl e
      | Inr values_to_avg \<Rightarrow>
         (let t = target_var r;
              fd1 = assign_scalar fd (t @ ''_rolling_mean_'' @ str_nat w)
                      (Num (mean values_to_avg + std_diff r * 0.2 * noise r k));
              fd2 = assign_scalar fd1 (t @ ''_rolling_std_'' @ str_nat w)
                      (Num (max (if length values_to_avg > 1 then np_std values_to_avg
                                 else std_diff r) 0.00001));
              fd3 = assign_scalar fd2 (t @ ''_rolling_min_'' @ str_nat w)
                      (Num (Min (set values_to_avg) - std_diff r * 0.1 * noise r (k + 1)));
              fd4 = assign_scalar fd3 (t @ ''_rolling_max_'' @ str_nat w)
                      (Num (Max (set values_to_avg) + std_diff r * 0.1 * noise r (k + 2)))
          in update_rolling r all_predictions ws (fd4, k + 3)))"

definition step_features :: "forecast_run \<Rightarrow> frame \<Rightarrow> error + frame \<times> frame" where
  \<comment> \<open>the feature frame \<open>X\<close> of one step, with the row \<^verbatim>\<open>future_data\<close> as the step leaves it:
      an expected feature that is not a column is added to the row with 0. An empty list
      of names counts as no list.\<close>
  "step_features r fd =
     (case feature_names_in (scaler_of r) of
        Some (f # fs) \<Rightarrow>
          (let fd' = add_missing fd (f # fs) (Num 0)
           in case select fd' (f # fs) of Inl e \<Rightarrow> Inl e
              | Inr X \<Rightarrow> Inr (coerce_non_numeric (parse_num r) X, fd'))
      | _ \<Rightarrow>
          Inr (coerce_non_numeric (parse_num r)
                 (drop_columns fd
                    (filter (\<lambda>col. startswith col ''time_'' \<or> col = target_var r) (columns fd))),
               fd))"

definition raw_prediction ::
  "forecast_run \<Rightarrow> nat \<Rightarrow> cell \<Rightarrow> real list \<times> frame \<times> nat \<Rightarrow> error + real \<times> frame \<times> nat" where
  \<comment> \<open>the first half of the loop body: the row is moved to the new time point, its calendar,
      lag and rolling features are rewritten, the features are reconciled and scaled and
      the model is asked\<close>
  "raw_prediction r i future_t st =
     (case st of (all_predictions, future_data, k) \<Rightarrow>
      (case create_time_features (parse_dt r) (assign_scalar future_data ''time_dt'' future_t)
              ''time_dt'' of Inl e \<Rightarrow> Inl e | Inr fd1 \<Rightarrow>
       (case update_lags r all_predictions i [1..<25] (fd1, k) of Inl e \<Rightarrow> Inl e | Inr (fd2, k2) \<Rightarrow>
        (case update_rolling r all_predictions [3, 6, 12, 24] (fd2, k2) of Inl e \<Rightarrow> Inl e
         | Inr (fd3, k3) \<Rightarrow>
          (case step_features r fd3 of Inl e \<Rightarrow> Inl e | Inr (X, fd4) \<Rightarrow>
           (case scale_and_predict (predict r) (scaler_of r) X of Inl e \<Rightarrow> Inl e
            | Inr [] \<Rightarrow> Inl IndexError
            | Inr (pred # rest) \<Rightarrow> Inr (pred, fd4, k3)))))))"

definition apply_patterns :: "forecast_run \<Rightarrow> frame \<Rightarrow> real \<Rightarrow> real" where
  \<comment> \<open>the adjustments by the daily and the weekly pattern, each only if its table exists and
      the row has the key column\<close>
  "apply_patterns r fd pred =
     (let p1 = (case (daily_pattern_norm r, map_of (cols fd) ''hour_of_day'') of
                  (Some pat, Some c) \<Rightarrow> pred * (1 + (pattern_get pat (nth_cell c 0) - 1) * 0.4)
                | _ \<Rightarrow> pred)
      in case (weekly_pattern_norm r, map_of (cols fd) ''day_of_week'') of
           (Some pat, Some c) \<Rightarrow> p1 * (1 + (pattern_get pat (nth_cell c 0) - 1) * 0.3)
         | _ \<Rightarrow> p1)"

definition trend_adjustment :: "nat \<Rightarrow> real \<Rightarrow> real" where
  \<comment> \<open>\<^verbatim>\<open>trend_adjustment = i * avg_diff * 0.3\<close>, \<open>i\<close> being the index that \<^verbatim>\<open>enumerate\<close> gives\<close>
  "trend_adjustment i d = real i * d * 0.3"

definition min_val :: "forecast_run \<Rightarrow> real" where
  "min_val r = Min (set (hist r)) * 0.8"

definition max_val :: "forecast_run \<Rightarrow> real" where
  "max_val r = Max (set (hist r)) * 1.2"

definition clamp :: "real \<Rightarrow> real \<Rightarrow> real \<Rightarrow> real" where
  \<comment> \<open>\<^verbatim>\<open>max(min_val, min(max_val, pred))\<close>\<close>
  "clamp lo hi pred = max lo (min hi pred)"

definition forecast_step ::
  "forecast_run \<Rightarrow> nat \<Rightarrow> cell \<Rightarrow> real list \<times> frame \<times> nat \<Rightarrow> error + real \<times> frame \<times> nat" where
  \<comment> \<open>one pass through the loop body: the prediction it appends, the row and the number of
      draws it leaves\<close>
  "forecast_step r i future_t st =
     (case raw_prediction r i future_t st of Inl e \<Rightarrow> Inl e
      | Inr (raw, fd, k) \<Rightarrow>
         (let pred = clamp (min_val r) (max_val r)
                       (apply_patterns r fd raw + trend_adjustment i (avg_diff r)
                        + std_diff r * 0.7 * noise r k)
          in Inr (pred, assign_scalar fd (target_var r) (Num pred), Suc k)))"

fun forecast_loop ::
  "forecast_run \<Rightarrow> nat \<Rightarrow> cell list \<Rightarrow> real list \<times> frame \<times> nat \<Rightarrow> error + real list \<times> frame \<times> nat" where
  \<comment> \<open>\<^verbatim>\<open>for i, future_time in enumerate(future_df[time_col])\<close>\<close>
  "forecast_loop r i [] st = Inr st"
| "forecast_loop r i (t # ts) (all_predictions, future_data, k) =
     (case forecast_step r i t (all_predictions, future_data, k) of Inl e \<Rightarrow> Inl e
      | Inr (pred, fd, k') \<Rightarrow> forecast_loop r (Suc i) ts (all_predictions @ [pred], fd, k'))"

definition warmup ::
  "(string \<Rightarrow> real option) \<Rightarrow> (string \<Rightarrow> real option) \<Rightarrow> model \<Rightarrow> scaler \<Rightarrow> (nat \<Rightarrow> real) \<Rightarrow> frame
     \<Rightarrow> string \<Rightarrow> error + forecast_run" where
  \<comment> \<open>"Analyze historical data for patterns": the statistics of a history of more than 24
      rows, and the defaults of a shorter one. The weekly table needs 168 rows.\<close>
  "warmup pdt pnum m sc z working_df tv =
     (case get_column working_df tv of Inl e \<Rightarrow> Inl e | Inr c \<Rightarrow>
      (case numbers c of Inl e \<Rightarrow> Inl e | Inr h \<Rightarrow>
       (let r0 = \<lparr>parse_dt = pdt, parse_num = pnum, predict = m, scaler_of = sc, noise = z,
                  target_var = tv, hist = h, avg_diff = 0, std_diff = 0.01,
                  daily_pattern_norm = None, weekly_pattern_norm = None\<rparr>
        in if nrows working_df > 24 then
             (case pattern_of working_df ''hour_of_day'' h of Inl e \<Rightarrow> Inl e | Inr daily \<Rightarrow>
              (case (if nrows working_df \<ge> 24 * 7
                     then map_sum id Some (pattern_of working_df ''day_of_week'' h)
                     else Inr None) of Inl e \<Rightarrow> Inl e
               | Inr weekly \<Rightarrow>
                   Inr (r0\<lparr>avg_diff := mean (diff_dropna h), std_diff := sample_std (diff_dropna h),
                           daily_pattern_norm := Some daily, weekly_pattern_norm := weekly\<rparr>)))
           else Inr r0)))"

definition predict_future_values ::
  "(string \<Rightarrow> real option) \<Rightarrow> (string \<Rightarrow> real option) \<Rightarrow> (nat \<Rightarrow> real) \<Rightarrow> model option
     \<Rightarrow> scaler option \<Rightarrow> frame \<Rightarrow> nat \<Rightarrow> string \<Rightarrow> error + (frame \<times> real list) option" where
  \<comment> \<open>\<^verbatim>\<open>rf_predict.predict_future_values\<close>; \<open>Inr None\<close> is the returned \<^verbatim>\<open>(None, None)\<close>\<close>
  "predict_future_values pdt pnum z model_opt scaler_opt historical_df future_periods tv =
     (case (model_opt, scaler_opt) of
        (Some m, Some sc) \<Rightarrow>
          (case (if ''time_dt'' \<in> set (columns historical_df) then
                   (case get_column historical_df ''time_dt'' of Inl e \<Rightarrow> Inl e | Inr tc \<Rightarrow>
                     (case to_datetime pdt tc of Inl e \<Rightarrow> Inl e
                      | Inr ts \<Rightarrow> Inr (sort_values (assign historical_df ''time_dt'' ts) ts)))
                 else Inr historical_df) of Inl e \<Rightarrow> Inl e
           | Inr working_df \<Rightarrow>
              (case create_future_timepoints pdt working_df future_periods ''time_dt'' of
                 Inl e \<Rightarrow> Inl e
               | Inr None \<Rightarrow> Inr None
               | Inr (Some future_df0) \<Rightarrow>
                  (case create_time_features pdt future_df0 ''time_dt'' of Inl e \<Rightarrow> Inl e
                   | Inr future_df \<Rightarrow>
                     (case warmup pdt pnum m sc z working_df tv of Inl e \<Rightarrow> Inl e | Inr r \<Rightarrow>
                      (case get_column future_df ''time_dt'' of Inl e \<Rightarrow> Inl e | Inr future_times \<Rightarrow>
                       (case forecast_loop r 0 future_times ([], last_row working_df, 0) of
                          Inl e \<Rightarrow> Inl e
                        | Inr (all_predictions, fd, k) \<Rightarrow>
                            Inr (Some (assign future_df tv (map Num all_predictions),
                                       all_predictions))))))))
      | _ \<Rightarrow> Inr None)"

section \<open>The recursive forecaster of \<^verbatim>\<open>v2/prediction/future_predict.py\<close>\<close>

definition row_at :: "frame \<Rightarrow> nat \<Rightarrow> cell list" where
  "row_at df i = map (\<lambda>(k, c). nth_cell c i) (cols df)"

definition take_rows :: "frame \<Rightarrow> nat list \<Rightarrow> frame" where
  \<comment> \<open>the rows with the given numbers, renumbered (\<^verbatim>\<open>reset_index(drop=True)\<close>)\<close>
  "take_rows df idx =
     df\<lparr>nrows := length idx, cols := map (\<lambda>(k, c). (k, map (nth_cell c) idx)) (cols df)\<rparr>"

fun is_seq :: "cell \<Rightarrow> bool" where
  "is_seq (Seq xs) = True"
| "is_seq c = False"

definition drop_duplicates :: "frame \<Rightarrow> error + frame" where
  \<comment> \<open>\<^verbatim>\<open>if df.duplicated().any(): df = df.drop_duplicates().reset_index(drop=True)\<close>: of rows
      that are equal in every column the first is kept; a row that holds a sequence cannot
      be hashed\<close>
  "drop_duplicates df =
     (if list_ex (\<lambda>(k, c). list_ex is_seq c) (cols df) then Inl TypeError
      else let keep = filter (\<lambda>i. row_at df i \<notin> set (map (row_at df) [0..<i])) [0..<nrows df]
           in Inr (if length keep < nrows df then take_rows df keep else df))"

definition append_time_row :: "frame \<Rightarrow> string \<Rightarrow> cell \<Rightarrow> frame" where
  \<comment> \<open>\<^verbatim>\<open>working_df.loc[len(working_df), time_col] = future_time\<close>, the time column being a
      column of the frame: a new last row, missing in every other column\<close>
  "append_time_row df time_col t =
     df\<lparr>nrows := nrows df + 1,
        cols := map (\<lambda>(k, c). (k, c @ [if k = time_col then t else NaN])) (cols df)\<rparr>"

definition set_cell :: "frame \<Rightarrow> nat \<Rightarrow> string \<Rightarrow> cell \<Rightarrow> frame" where
  \<comment> \<open>\<^verbatim>\<open>df.loc[idx, col] = v\<close> for a row and a column that exist\<close>
  "set_cell df idx col v =
     df\<lparr>cols := map (\<lambda>(k, c). (k, if k = col then c[idx := v] else c)) (cols df)\<rparr>"

definition copy_new_row :: "frame \<Rightarrow> nat \<Rightarrow> string \<Rightarrow> frame \<Rightarrow> frame" where
  \<comment> \<open>the calendar features of the new row are copied into the columns that the working
      frame already has\<close>
  "copy_new_row working_df idx time_col new_row =
     fold (\<lambda>(col, c) d. if col \<in> set (columns d) \<and> col \<noteq> time_col
                         then set_cell d idx col (nth_cell c 0) else d)
          (cols new_row) working_df"

definition v2_step ::
  "(string \<Rightarrow> real option) \<Rightarrow> model \<Rightarrow> scaler \<Rightarrow> string \<Rightarrow> string list \<Rightarrow> cell
     \<Rightarrow> real list \<times> frame \<Rightarrow> error + real list \<times> frame" where
  \<comment> \<open>one pass through the loop of \<^verbatim>\<open>predict_future_values\<close>: the model's answer is appended
      and written into the working frame as it is\<close>
  "v2_step pdt m sc tv expected_features future_t st =
     (case st of (future_predictions, working_df) \<Rightarrow>
      (case create_time_features_v2 pdt \<lparr>nrows = 1, cols = [(''time_dt'', [future_t])]\<rparr> ''time_dt''
       of Inl e \<Rightarrow> Inl e | Inr new_row \<Rightarrow>
       (let idx = nrows working_df;
            df1 = copy_new_row (append_time_row working_df ''time_dt'' future_t) idx ''time_dt'' new_row
        in case create_lag_features df1 [tv] default_lags of Inl e \<Rightarrow> Inl e | Inr df2 \<Rightarrow>
           (case create_rolling_features df2 [tv] default_windows of Inl e \<Rightarrow> Inl e | Inr df3 \<Rightarrow>
            (let feature_array = feature_array_v2 (last_row df3) expected_features
             in case transform sc [map Some feature_array] of Inl e \<Rightarrow> Inl e | Inr X_scaled \<Rightarrow>
                (case m X_scaled of Inl e \<Rightarrow> Inl e
                 | Inr [] \<Rightarrow> Inl IndexError
                 | Inr (pred # rest) \<Rightarrow>
                     Inr (future_predictions @ [pred], set_cell df3 idx tv (Num pred))))))))"

fun v2_loop ::
  "(string \<Rightarrow> real option) \<Rightarrow> model \<Rightarrow> scaler \<Rightarrow> string \<Rightarrow> string list \<Rightarrow> cell list
     \<Rightarrow> real list \<times> frame \<Rightarrow> error + real list \<times> frame" where
  "v2_loop pdt m sc tv expected_features [] st = Inr st"
| "v2_loop pdt m sc tv expected_features (t # ts) st =
     (case v2_step pdt m sc tv expected_features t st of Inl e \<Rightarrow> Inl e
      | Inr st' \<Rightarrow> v2_loop pdt m sc tv expected_features ts st')"

definition v2_predict_future_values ::
  "(string \<Rightarrow> real option) \<Rightarrow> model option \<Rightarrow> scaler option \<Rightarrow> frame \<Rightarrow> frame \<Rightarrow> string
     \<Rightarrow> error + frame option" where
  \<comment> \<open>\<^verbatim>\<open>v2/prediction/future_predict.predict_future_values\<close>; \<open>Inr None\<close> is the returned
      \<^verbatim>\<open>None\<close>\<close>
  "v2_predict_future_values pdt model_opt scaler_opt historical_df future_df tv =
     (case (model_opt, scaler_opt) of
        (Some m, Some sc) \<Rightarrow>
          (case get_column historical_df ''time_dt'' of Inl e \<Rightarrow> Inl e | Inr tc \<Rightarrow>
           (case to_datetime pdt tc of Inl e \<Rightarrow> Inl e | Inr ts \<Rightarrow>
            (case get_column future_df ''time_dt'' of Inl e \<Rightarrow> Inl e | Inr fc \<Rightarrow>
             (case to_datetime pdt fc of Inl e \<Rightarrow> Inl e | Inr future_times \<Rightarrow>
              (case drop_duplicates (assign historical_df ''time_dt'' ts) of
                 Inl e \<Rightarrow> Inl e | Inr df0 \<Rightarrow>
               (case get_column df0 ''time_dt'' of Inl e \<Rightarrow> Inl e | Inr ts0 \<Rightarrow>
                 (case create_time_features_v2 pdt (sort_values df0 ts0) ''time_dt'' of
                    Inl e \<Rightarrow> Inl e | Inr df1 \<Rightarrow>
                  (case create_lag_features df1 [tv] default_lags of Inl e \<Rightarrow> Inl e | Inr df2 \<Rightarrow>
                   (case create_rolling_features df2 [tv] default_windows of
                      Inl e \<Rightarrow> Inl e | Inr working_df \<Rightarrow>
                    (let expected_features =
                           (case feature_names_in sc of
                              Some F \<Rightarrow> F
                            | None \<Rightarrow> filter (\<lambda>col. col \<noteq> ''time_dt'' \<and> col \<noteq> tv
                                                 \<and> \<not> endswith col ''_predicted'')
                                        (columns working_df))
                     in case v2_loop pdt m sc tv expected_features future_times ([], working_df) of
                          Inl e \<Rightarrow> Inl e
                        | Inr (future_predictions, df) \<Rightarrow>
                            (if length future_predictions \<noteq> nrows future_df then Inl ValueError
                             else Inr (Some (assign (assign future_df ''time_dt'' future_times) tv
                                              (map Num future_predictions))))))))))))))
      | _ \<Rightarrow> Inr None)"

section \<open>Example histories\<close>

text \<open>
  Two families of histories on which the theorems are instantiated: records at a regular
  distance of \<open>step\<close> nanoseconds (3600000000000 is an hour), with the time column and the
  target column only; and one record a day, always at midnight, which also carries the
  hour column that the warm-up of a history of more than 24 rows groups by.
\<close>

definition regular_history :: "real \<Rightarrow> real list \<Rightarrow> frame" where
  "regular_history step ys =
     \<lparr>nrows = length ys,
      cols = [(''time_dt'', map DateTime (map (\<lambda>i. real i * step) [0..<length ys])),
              (''average_usage_cpu'', map Num ys)]\<rparr>"

definition daily_history :: "real list \<Rightarrow> frame" where
  "daily_history ys =
     \<lparr>nrows = length ys,
      cols = [(''time_dt'', map DateTime (map (\<lambda>i. real i * 86400000000000) [0..<length ys])),
              (''average_usage_cpu'', map Num ys),
              (''hour_of_day'', replicate (length ys) (Num 0))]\<rparr>"

definition constant_model :: "real \<Rightarrow> model" where
  \<comment> \<open>a stub regressor that predicts \<open>c\<close> for every row\<close>
  "constant_model c = (\<lambda>X. Inr (map (\<lambda>row. c) X))"

definition identity_scaler :: scaler where
  \<comment> \<open>a stub normalizer without feature names that leaves the matrix as it is\<close>
  "identity_scaler = \<lparr>feature_names_in = None, transform = Inr\<rparr>"

section \<open>Properties\<close>

subsection \<open>Frames\<close>

lemma map_of_assign_alist: "map_of (assign_alist kvs n c) = (map_of kvs)(n \<mapsto> c)"
  by (induction kvs) (auto simp: fun_eq_iff)

lemma keys_assign_alist:
  "map fst (assign_alist kvs n c) = (if n \<in> fst ` set kvs then map fst kvs else map fst kvs @ [n])"
  by (induction kvs) force+

lemma columns_assign:
  "columns (assign df n c) = (if n \<in> set (columns df) then columns df else columns df @ [n])"
  by (simp add: columns_def assign_def keys_assign_alist)

lemma set_columns_assign: "set (columns (assign df n c)) = insert n (set (columns df))"
  by (auto simp: columns_assign)

lemma nrows_assign: "nrows (assign df n c) = nrows df"
  by (simp add: assign_def)

lemma get_column_assign:
  "get_column (assign df n c) m = (if m = n then Inr c else get_column df m)"
  by (simp add: get_column_def assign_def map_of_assign_alist)

lemma get_column_absent: "n \<notin> set (columns df) \<Longrightarrow> get_column df n = Inl (KeyError n)"
proof -
  assume "n \<notin> set (columns df)"
  then have "map_of (cols df) n = None"
    by (simp add: columns_def map_of_eq_None_iff)
  then show ?thesis by (simp add: get_column_def)
qed

lemma get_column_present: "n \<in> set (columns df) \<Longrightarrow> \<exists>c. get_column df n = Inr c"
proof -
  assume "n \<in> set (columns df)"
  then have "map_of (cols df) n \<noteq> None"
    by (simp add: columns_def map_of_eq_None_iff)
  then show ?thesis by (auto simp: get_column_def)
qed

lemma get_column_Inr_columns: "get_column df n = Inr c \<Longrightarrow> n \<in> set (columns df)"
  by (metis get_column_absent sum.distinct(1))

lemma map_of_filter_keys:
  "map_of (filter (\<lambda>(k, v). k \<notin> S) kvs) n = (if n \<in> S then None else map_of kvs n)"
  by (induction kvs) auto

lemma get_column_drop:
  "get_column (drop_columns df names) n =
     (if n \<in> set names then Inl (KeyError n) else get_column df n)"
  by (simp add: get_column_def drop_columns_def map_of_filter_keys)

lemma nrows_drop: "nrows (drop_columns df names) = nrows df"
  by (simp add: drop_columns_def)

lemma set_columns_drop: "set (columns (drop_columns df names)) = set (columns df) - set names"
  by (auto simp: columns_def drop_columns_def)

subsection \<open>C4\<close>

text \<open>
  Claim C4, as the code has it: the calendar engineer (both variants) hands the frame back
  unchanged when the time column is absent. The lag and the rolling engineer have no such
  guard: when the target column is absent they raise a KeyError for it.
\<close>

theorem C4_missing_source_column: "(time_col \<notin> set (columns df) \<longrightarrow>
      create_time_features pdt df time_col = Inr df \<and> create_time_features_v2 pdt df time_col = Inr df)
   \<and> (target \<notin> set (columns df) \<longrightarrow>
      create_lag_features df [target] default_lags = Inl (KeyError target)
      \<and> create_rolling_features df [target] default_windows = Inl (KeyError target))"
  by (simp add: create_time_features_def create_time_features_v2_def default_lags_def
        default_windows_def get_column_absent)

theorem C4_missing_source_column_witness:
  "create_time_features (\<lambda>s. None) \<lparr>nrows = 1, cols = [(''x'', [Num 1])]\<rparr> ''time_dt''
     = Inr \<lparr>nrows = 1, cols = [(''x'', [Num 1])]\<rparr>
   \<and> create_time_features_v2 (\<lambda>s. None) \<lparr>nrows = 1, cols = [(''x'', [Num 1])]\<rparr> ''time_dt''
     = Inr \<lparr>nrows = 1, cols = [(''x'', [Num 1])]\<rparr>
   \<and> create_lag_features \<lparr>nrows = 1, cols = [(''x'', [Num 1])]\<rparr> [''cpu''] default_lags
     = Inl (KeyError ''cpu'')
   \<and> create_rolling_features \<lparr>nrows = 1, cols = [(''x'', [Num 1])]\<rparr> [''cpu''] default_windows
     = Inl (KeyError ''cpu'')"
  using C4_missing_source_column
    [of "''time_dt''" "\<lparr>nrows = 1, cols = [(''x'', [Num 1])]\<rparr>" "\<lambda>s. None" "''cpu''"]
  by (simp add: columns_def)

text \<open>
  The claim as stated fails for the lag and the rolling engineer: on a frame without the
  target column neither returns the frame.
\<close>

theorem C4_counterexample:
  "create_lag_features \<lparr>nrows = 1, cols = [(''time_dt'', [DateTime 0])]\<rparr> [''average_usage_cpu''] default_lags
     \<noteq> Inr \<lparr>nrows = 1, cols = [(''time_dt'', [DateTime 0])]\<rparr>
   \<and> create_rolling_features \<lparr>nrows = 1, cols = [(''time_dt'', [DateTime 0])]\<rparr> [''average_usage_cpu'']
        default_windows
     \<noteq> Inr \<lparr>nrows = 1, cols = [(''time_dt'', [DateTime 0])]\<rparr>"
  by (simp add: default_lags_def default_windows_def get_column_def)

subsection \<open>C5\<close>

lemma hour_of_range: "0 \<le> hour_of t \<and> hour_of t < 24"
  by (simp add: hour_of_def)

lemma get_day_part_ranges:
  "get_day_part h =
     (if 5 \<le> h \<and> h < 12 then ''morning'' else if 12 \<le> h \<and> h < 17 then ''afternoon''
      else if 17 \<le> h \<and> h < 22 then ''evening'' else ''night'')"
  by (simp add: get_day_part_def)

lemma day_part_in_day_parts: "\<exists>p \<in> set day_parts. day_part_cell c = Str p"
  by (cases c) (auto simp: day_parts_def get_day_part_def)

lemma one_hot_exactly_one:
  "length (filter (\<lambda>p. one_hot p (day_part_cell c) = Num 1) day_parts) = 1
   \<and> (\<forall>p \<in> set day_parts. one_hot p (day_part_cell c) = Num 1 \<or> one_hot p (day_part_cell c) = Num 0)"
  by (cases c) (auto simp: day_parts_def get_day_part_def one_hot_def)

lemma rf_indicators:
  assumes "time_col \<in> set (columns df)" and "create_time_features pdt df time_col = Inr df'"
    and "p \<in> set day_parts"
  shows "\<exists>tc ts. get_column df time_col = Inr tc \<and> to_datetime pdt tc = Inr ts \<and>
           get_column df' (''day_part_'' @ p)
             = Inr (map (\<lambda>t. one_hot p (day_part_cell (dt_field hour_of t))) ts)"
  using assms
  by (auto simp: create_time_features_def cyclic_features_def base_time_features_def Let_def
        day_parts_def get_column_assign get_column_drop split: sum.splits)

text \<open>
  Claim C5 holds for \<^verbatim>\<open>rf_predict.create_time_features\<close> (lemmas \<open>one_hot_exactly_one\<close>,
  \<open>get_day_part_ranges\<close> and \<open>rf_indicators\<close>). The v2 variant emits an indicator column only
  for the day parts that occur in the batch: for a single row at 09:00 it emits
  \<open>day_part_morning\<close> and none of the other three.
\<close>

theorem C5_v2_single_row_indicators:
  "map_sum id columns
     (create_time_features_v2 (\<lambda>s. None) \<lparr>nrows = 1, cols = [(''time_dt'', [DateTime 32400000000000])]\<rparr> ''time_dt'')
   = Inr [''time_dt'', ''hour_of_day'', ''day_of_week'', ''day_of_month'', ''month'', ''is_weekend'',
          ''day_part_morning'', ''hour_sin'', ''hour_cos'', ''day_sin'', ''day_cos'']"
  by (simp add: create_time_features_v2_def columns_def get_column_def to_datetime_def
      base_time_features_def get_dummies_def cyclic_features_def assign_def drop_columns_def
      hour_of_def one_hot_def get_day_part_def Let_def)

subsection \<open>C6\<close>

lemma observed_Some: "observed (map Some xs) = xs"
  by (induction xs) (auto simp: observed_def List.map_filter_def)

lemma window_at_map: "window_at w i (map f xs) = map f (window_at w i xs)"
  by (simp add: window_at_def take_map drop_map)

lemma length_window_at: "i < length xs \<Longrightarrow> length (window_at w i xs) = min w (i + 1)"
  by (auto simp: window_at_def)

lemma rolling_nth:
  "i < length xs \<Longrightarrow> rolling stat w (map Some xs) ! i = stat (window_at w i xs)"
  by (simp add: rolling_def window_at_map observed_Some)

lemma rolling_length: "length (rolling stat w xs) = length xs"
  by (simp add: rolling_def)

lemma floats_Num: "floats (map Num xs) = Inr (map Some xs)"
  by (induction xs) (auto simp: floats_def)

lemma str_nat_windows:
  "str_nat 3 = ''3''" "str_nat 6 = ''6''" "str_nat 12 = ''12''" "str_nat 24 = ''24''"
  by (simp_all add: str_nat.simps)

lemma rolling_features_default:
  assumes "get_column df target = Inr c" and "floats c = Inr xs" and "w \<in> set default_windows"
  shows "\<exists>df'. create_rolling_features df [target] default_windows = Inr df'
           \<and> get_column df' (target @ ''_rolling_mean_'' @ str_nat w) = Inr (rolling roll_mean w xs)
           \<and> get_column df' (target @ ''_rolling_std_'' @ str_nat w) = Inr (rolling roll_std w xs)
           \<and> get_column df' (target @ ''_rolling_min_'' @ str_nat w) = Inr (rolling roll_min w xs)
           \<and> get_column df' (target @ ''_rolling_max_'' @ str_nat w) = Inr (rolling roll_max w xs)"
  using assms
  by (auto simp: default_windows_def Let_def get_column_assign str_nat_windows)

lemma C6_example:
  "rolling roll_mean 3 (map Some [10, 20, 30, 40]) = [Num 10, Num 15, Num 20, Num 30]"
  by (simp add: rolling_def roll_mean_def observed_def window_at_def mean_def
        List.map_filter_def upt_rec)

text \<open>
  The claim of C6 that every early row has a defined statistic fails for the standard
  deviation: at row 0 the window holds one value, and the deviation is missing.
\<close>

theorem C6_counterexample:
  "rolling roll_std 3 (map Some [10, 20, 30, 40]) ! 0 = NaN"
  by (simp add: rolling_def roll_std_def observed_def window_at_def
        List.map_filter_def upt_rec)

text \<open>
  Claim C6, amended: for a numeric target column and a window \<open>w\<close> of the configured set, the
  statistics at row \<open>i\<close> are computed from the \<open>min w (i + 1)\<close> values that end at row \<open>i\<close>.
  Mean, minimum and maximum are defined at every row; the standard deviation is the sample
  deviation of those values and is missing at row 0.
\<close>

theorem C6_rolling_statistics:
  assumes "get_column df target = Inr (map Num xs)" and "w \<in> set default_windows"
    and "i < length xs"
  shows "\<exists>df' m s lo hi. create_rolling_features df [target] default_windows = Inr df'
           \<and> get_column df' (target @ ''_rolling_mean_'' @ str_nat w) = Inr m
           \<and> get_column df' (target @ ''_rolling_std_'' @ str_nat w) = Inr s
           \<and> get_column df' (target @ ''_rolling_min_'' @ str_nat w) = Inr lo
           \<and> get_column df' (target @ ''_rolling_max_'' @ str_nat w) = Inr hi
           \<and> length (window_at w i xs) = min w (i + 1)
           \<and> m ! i = Num (mean (window_at w i xs))
           \<and> lo ! i = Num (Min (set (window_at w i xs)))
           \<and> hi ! i = Num (Max (set (window_at w i xs)))
           \<and> s ! i = (if i = 0 then NaN else Num (sample_std (window_at w i xs)))"
proof -
  from rolling_features_default [OF assms(1) floats_Num assms(2)]
  obtain df' where df': "create_rolling_features df [target] default_windows = Inr df'"
    "get_column df' (target @ ''_rolling_mean_'' @ str_nat w) = Inr (rolling roll_mean w (map Some xs))"
    "get_column df' (target @ ''_rolling_std_'' @ str_nat w) = Inr (rolling roll_std w (map Some xs))"
    "get_column df' (target @ ''_rolling_min_'' @ str_nat w) = Inr (rolling roll_min w (map Some xs))"
    "get_column df' (target @ ''_rolling_max_'' @ str_nat w) = Inr (rolling roll_max w (map Some xs))"
    by blast
  have len: "length (window_at w i xs) = min w (i + 1)"
    using assms(3) by (rule length_window_at)
  have w: "3 \<le> w" using assms(2) by (auto simp: default_windows_def)
  have pos: "1 \<le> length (window_at w i xs)" using len w by simp
  have one: "1 < length (window_at w i xs) \<longleftrightarrow> i \<noteq> 0" using len w by auto
  show ?thesis
    using df' len pos one assms(3)
    by (simp add: rolling_nth roll_mean_def roll_std_def roll_min_def roll_max_def)
qed

theorem C6_rolling_statistics_witness:
  "\<exists>df' m s. create_rolling_features \<lparr>nrows = 4, cols = [(''cpu'', map Num [10, 20, 30, 40])]\<rparr>
                [''cpu''] default_windows = Inr df'
     \<and> get_column df' ''cpu_rolling_mean_3'' = Inr m
     \<and> m ! 0 = Num 10 \<and> m ! 1 = Num 15 \<and> m ! 2 = Num 20 \<and> m ! 3 = Num 30
     \<and> get_column df' ''cpu_rolling_std_3'' = Inr s
     \<and> s ! 0 = NaN \<and> s ! 2 = Num 10"
proof -
  let ?df = "\<lparr>nrows = 4, cols = [(''cpu'', map Num [10, 20, 30, 40])]\<rparr>"
  let ?xs = "[10, 20, 30, 40] :: real list"
  have g: "get_column ?df ''cpu'' = Inr (map Num ?xs)" by (simp add: get_column_def)
  have w: "3 \<in> set default_windows" by (simp add: default_windows_def)
  note st = C6_rolling_statistics [OF g w]
  from st [of 0] obtain df' m s where r:
    "create_rolling_features ?df [''cpu''] default_windows = Inr df'"
    "get_column df' (''cpu'' @ ''_rolling_mean_'' @ str_nat 3) = Inr m"
    "get_column df' (''cpu'' @ ''_rolling_std_'' @ str_nat 3) = Inr s"
    and r0: "m ! 0 = Num (mean (window_at 3 0 ?xs))" "s ! 0 = NaN"
    by auto
  have r1: "m ! 1 = Num (mean (window_at 3 1 ?xs))" using st [of 1] r by auto
  have r2: "m ! 2 = Num (mean (window_at 3 2 ?xs))" "s ! 2 = Num (sample_std (window_at 3 2 ?xs))"
    using st [of 2] r by auto
  have r3: "m ! 3 = Num (mean (window_at 3 3 ?xs))" using st [of 3] r by auto
  have v: "mean (window_at 3 0 ?xs) = 10" "mean (window_at 3 1 ?xs) = 15"
    "mean (window_at 3 2 ?xs) = 20" "mean (window_at 3 3 ?xs) = 30"
    "sample_std (window_at 3 2 ?xs) = 10"
    by (simp_all add: window_at_def mean_def sample_std_def)
  show ?thesis
    using r r0 r1 r2 r3 v by (simp add: str_nat_windows)
qed

subsection \<open>C8\<close>

lemma is_datetime_col_DateTime: "ts \<noteq> [] \<Longrightarrow> is_datetime_col (map DateTime ts)"
  by (cases ts) (auto simp: is_datetime_col_def is_number_col_def list_all_iff)

lemma coerce_datetime_column:
  "ts \<noteq> [] \<Longrightarrow> coerce_column pnum (map DateTime ts) = Some (map (\<lambda>t. Num (t / 10 ^ 9)) ts)"
  by (auto simp: coerce_column_def is_datetime_col_DateTime)

lemma coerce_object_column:
  assumes "\<not> is_datetime_col c" and "i < length c"
  shows "\<exists>c'. coerce_column pnum c = Some c' \<and> length c' = length c
           \<and> c' ! i = (case to_numeric_cell pnum (c ! i) of None \<Rightarrow> Num 0 | Some r \<Rightarrow> Num r)"
  using assms by (auto simp: coerce_column_def split: option.splits)

text \<open>
  Claim C8, amended. In \<^verbatim>\<open>rf_predict.py\<close> a datetime column becomes seconds since the epoch,
  and in any other non-numeric column a string becomes its parsed number, or 0 when it does
  not parse. In \<^verbatim>\<open>v2/prediction/future_predict.py\<close> every string and every timestamp becomes
  0, a missing value becomes 0, a sequence becomes its first element (0 when empty) and a
  number is kept.
\<close>

theorem C8_coercion:
  "(ts \<noteq> [] \<longrightarrow> coerce_column pnum (map DateTime ts) = Some (map (\<lambda>t. Num (t / 10 ^ 9)) ts))
   \<and> (\<not> is_datetime_col c \<and> i < length c \<and> c ! i = Str s \<longrightarrow>
        (\<exists>c'. coerce_column pnum c = Some c' \<and>
           c' ! i = (case pnum s of Some r \<Rightarrow> Num r | None \<Rightarrow> Num 0)))
   \<and> feature_value_v2 (Str s) = 0 \<and> feature_value_v2 (DateTime t) = 0
   \<and> feature_value_v2 NaN = 0 \<and> feature_value_v2 (Num r) = r
   \<and> feature_value_v2 (Seq []) = 0 \<and> feature_value_v2 (Seq (x # xs)) = x"
  using coerce_object_column [of c i pnum]
  by (auto simp: coerce_datetime_column split: option.splits)

theorem C8_coercion_witness:
  "coerce_column (\<lambda>s. if s = ''3.5'' then Some 3.5 else None) (map DateTime [86400000000000])
     = Some [Num 86400]
   \<and> coerce_column (\<lambda>s. if s = ''3.5'' then Some 3.5 else None) [Str ''3.5'', Str ''abc'']
     = Some [Num 3.5, Num 0]"
proof -
  let ?p = "\<lambda>s. if s = ''3.5'' then Some (3.5::real) else None"
  let ?c = "[Str ''3.5'', Str ''abc'']"
  have nd: "\<not> is_datetime_col ?c" by (simp add: is_datetime_col_def)
  from C8_coercion [of "[86400000000000]" ?p ?c 0 "''3.5''"] nd
  have a: "coerce_column ?p (map DateTime [86400000000000]) = Some [Num 86400]"
    and "\<exists>c'. coerce_column ?p ?c = Some c' \<and> c' ! 0 = Num 3.5"
    by simp_all
  moreover from C8_coercion [of "[86400000000000]" ?p ?c 1 "''abc''"] nd
  have "\<exists>c'. coerce_column ?p ?c = Some c' \<and> c' ! 1 = Num 0"
    by simp
  moreover have "length (the (coerce_column ?p ?c)) = 2"
    by (simp add: coerce_column_def nd)
  ultimately have "coerce_column ?p ?c = Some [Num 3.5, Num 0]"
    by (auto simp: length_Suc_conv numeral_2_eq_2)
  with a show ?thesis by simp
qed

text \<open>
  The claim as stated fails in the v2 forecaster: a numeric-like string is not parsed and a
  timestamp is not turned into seconds.
\<close>

theorem C8_counterexample:
  "feature_value_v2 (Str ''3.5'') \<noteq> 3.5 \<and> feature_value_v2 (DateTime 86400000000000) \<noteq> 86400"
  by simp

subsection \<open>C3\<close>

lemma nrows_assign_scalar: "nrows (assign_scalar df n v) = nrows df"
  by (simp add: assign_scalar_def nrows_assign)

lemma get_column_assign_scalar:
  "get_column (assign_scalar df n v) m =
     (if m = n then Inr (replicate (nrows df) v) else get_column df m)"
  by (simp add: assign_scalar_def get_column_assign)

lemma fold_assign_scalar:
  "nrows (fold (\<lambda>f d. assign_scalar d f v) ms df) = nrows df
   \<and> get_column (fold (\<lambda>f d. assign_scalar d f v) ms df) n =
       (if n \<in> set ms then Inr (replicate (nrows df) v) else get_column df n)"
  by (induction ms arbitrary: df) (auto simp: nrows_assign_scalar get_column_assign_scalar)

lemma nrows_add_missing: "nrows (add_missing df F v) = nrows df"
  by (simp add: add_missing_def fold_assign_scalar)

lemma get_column_add_missing:
  "get_column (add_missing df F v) n =
     (if n \<in> set F \<and> n \<notin> set (columns df) then Inr (replicate (nrows df) v)
      else get_column df n)"
  by (simp add: add_missing_def fold_assign_scalar)

lemma columns_add_missing: "f \<in> set F \<Longrightarrow> f \<in> set (columns (add_missing df F v))"
proof (cases "f \<in> set (columns df)")
  case True
  then obtain c where "get_column df f = Inr c" using get_column_present by blast
  with True have "get_column (add_missing df F v) f = Inr c"
    by (simp add: get_column_add_missing)
  then show ?thesis by (rule get_column_Inr_columns)
next
  case False
  assume "f \<in> set F"
  with False have "get_column (add_missing df F v) f = Inr (replicate (nrows df) v)"
    by (simp add: get_column_add_missing)
  then show ?thesis by (rule get_column_Inr_columns)
qed

lemma collect_map_Inr:
  "(\<And>x. x \<in> set xs \<Longrightarrow> f x = Inr (g x)) \<Longrightarrow> collect (map f xs) = Inr (map g xs)"
  by (induction xs) auto

lemma select_ok:
  assumes "\<forall>n \<in> set names. n \<in> set (columns df)"
  shows "\<exists>X. select df names = Inr X \<and> columns X = names \<and> nrows X = nrows df
           \<and> (\<forall>n \<in> set names. get_column X n = get_column df n)"
proof -
  let ?g = "\<lambda>n. (n, the (map_of (cols df) n))"
  have present: "get_column df n = Inr (the (map_of (cols df) n))" if "n \<in> set names" for n
    using that assms get_column_present [of n df] by (auto simp: get_column_def split: option.splits)
  have "collect (map (\<lambda>n. case get_column df n of Inl e \<Rightarrow> Inl e | Inr c \<Rightarrow> Inr (n, c)) names)
          = Inr (map ?g names)"
    by (rule collect_map_Inr) (simp add: present)
  then have sel: "select df names = Inr (df\<lparr>cols := map ?g names\<rparr>)"
    by (simp add: select_def)
  have "map_of (map ?g names) n = Some (the (map_of (cols df) n))" if "n \<in> set names" for n
    using that by (simp add: map_of_map_restrict)
  then have "\<forall>n \<in> set names. get_column (df\<lparr>cols := map ?g names\<rparr>) n = get_column df n"
    by (simp add: present) (simp add: get_column_def)
  with sel show ?thesis by (simp add: columns_def comp_def)
qed

lemma get_column_fillna0:
  "get_column (fillna0 X) n = map_sum id (map fillna0_cell) (get_column X n)"
  by (simp add: get_column_def fillna0_def map_of_map split: option.splits)

lemma columns_fillna0: "columns (fillna0 X) = columns X"
  by (simp add: columns_def fillna0_def comp_def case_prod_unfold)

lemma fillna0_cell_nth:
  "i < length c \<Longrightarrow>
     (c ! i = Num r \<longrightarrow> map fillna0_cell c ! i = Num r)
     \<and> (c ! i = NaN \<longrightarrow> map fillna0_cell c ! i = Num 0)
     \<and> map fillna0_cell c ! i \<noteq> NaN"
  by (cases "c ! i") auto

lemma reconcile_ok:
  "\<exists>X. reconcile df F = Inr X \<and> columns X = F \<and> nrows X = nrows df
     \<and> (\<forall>f \<in> set F. get_column X f =
           (if f \<in> set (columns df) then map_sum id (map fillna0_cell) (get_column df f)
            else Inr (replicate (nrows df) (Num 0))))"
proof -
  from select_ok [of F "add_missing df F NaN"]
  obtain X where X: "select (add_missing df F NaN) F = Inr X" "columns X = F"
    "nrows X = nrows df" "\<forall>f \<in> set F. get_column X f = get_column (add_missing df F NaN) f"
    by (auto simp: columns_add_missing nrows_add_missing)
  have "reconcile df F = Inr (fillna0 X)" using X(1) by (simp add: reconcile_def)
  moreover have "nrows (fillna0 X) = nrows df" using X(3) by (simp add: fillna0_def)
  ultimately show ?thesis
    using X(2,4) by (auto simp: columns_fillna0 get_column_fillna0 get_column_add_missing)
qed

lemma fillna0_no_NaN: "(k, c) \<in> set (cols (fillna0 X)) \<Longrightarrow> NaN \<notin> set c"
proof -
  have nn: "fillna0_cell x \<noteq> NaN" for x by (cases x) auto
  assume "(k, c) \<in> set (cols (fillna0 X))"
  then obtain c0 where "c = map fillna0_cell c0" by (auto simp: fillna0_def)
  then show ?thesis using nn by (auto simp: image_iff) metis
qed

lemma reconcile_no_NaN:
  "reconcile df F = Inr X \<Longrightarrow> (k, c) \<in> set (cols X) \<Longrightarrow> NaN \<notin> set c"
  by (auto simp: reconcile_def split: sum.splits dest: fillna0_no_NaN)

lemma coerce_column_keeps:
  assumes "NaN \<notin> set c"
  shows "\<exists>c'. (if is_number_col c then Some c else coerce_column p c) = Some c'
           \<and> length c' = length c
           \<and> (\<forall>i < length c. \<forall>r. c ! i = Num r \<longrightarrow> c' ! i = Num r)"
proof (cases "is_number_col c")
  case True
  then show ?thesis by simp
next
  case False
  show ?thesis
  proof (cases "is_datetime_col c")
    case True
    with False assms show ?thesis by (simp add: coerce_column_def)
  next
    case dt: False
    with False show ?thesis by (simp add: coerce_column_def)
  qed
qed

lemma coerce_alist_keeps:
  assumes "\<forall>(k, c) \<in> set kvs. NaN \<notin> set c"
  shows "map fst (List.map_filter
            (\<lambda>(k, c). if is_number_col c then Some (k, c)
                      else map_option (\<lambda>c'. (k, c')) (coerce_column p c)) kvs) = map fst kvs
         \<and> (\<forall>n c. map_of kvs n = Some c \<longrightarrow>
              (\<exists>c'. map_of (List.map_filter
                        (\<lambda>(k, c). if is_number_col c then Some (k, c)
                                  else map_option (\<lambda>c'. (k, c')) (coerce_column p c)) kvs) n = Some c'
                 \<and> length c' = length c
                 \<and> (\<forall>i < length c. \<forall>r. c ! i = Num r \<longrightarrow> c' ! i = Num r)))"
  using assms
proof (induction kvs)
  case Nil
  then show ?case by (simp add: List.map_filter_simps)
next
  case (Cons kv kvs)
  obtain k c where kv: "kv = (k, c)" by (cases kv)
  from Cons.prems kv have "NaN \<notin> set c" by simp
  from coerce_column_keeps [OF this, of p]
  obtain c' where c': "(if is_number_col c then Some c else coerce_column p c) = Some c'"
    "length c' = length c" "\<forall>i < length c. \<forall>r. c ! i = Num r \<longrightarrow> c' ! i = Num r"
    by blast
  have step: "(if is_number_col c then Some (k, c) else map_option (\<lambda>c'. (k, c')) (coerce_column p c))
                = Some (k, c')"
    using c'(1) by (auto split: if_splits)
  from Cons.prems have "\<forall>(k, c) \<in> set kvs. NaN \<notin> set c" by simp
  from Cons.IH [OF this] show ?case
    using c'(2,3) by (simp add: kv List.map_filter_simps step)
qed

lemma coerce_non_numeric_keeps:
  assumes "\<forall>(k, c) \<in> set (cols X). NaN \<notin> set c"
  shows "columns (coerce_non_numeric p X) = columns X \<and> nrows (coerce_non_numeric p X) = nrows X
         \<and> (\<forall>n c. get_column X n = Inr c \<longrightarrow>
              (\<exists>c'. get_column (coerce_non_numeric p X) n = Inr c' \<and> length c' = length c
                 \<and> (\<forall>i < length c. \<forall>r. c ! i = Num r \<longrightarrow> c' ! i = Num r)))"
proof -
  let ?F = "\<lambda>(k, c). if is_number_col c then Some (k, c)
                      else map_option (\<lambda>c'. (k, c')) (coerce_column p c)"
  have cs: "cols (coerce_non_numeric p X) = List.map_filter ?F (cols X)"
    by (simp add: coerce_non_numeric_def)
  have nr: "nrows (coerce_non_numeric p X) = nrows X"
    by (simp add: coerce_non_numeric_def)
  note k = coerce_alist_keeps [OF assms, of p]
  have k1: "map fst (List.map_filter ?F (cols X)) = map fst (cols X)"
    using k by (rule conjunct1)
  have k2: "\<exists>c'. map_of (List.map_filter ?F (cols X)) n = Some c' \<and> length c' = length c
                 \<and> (\<forall>i < length c. \<forall>r. c ! i = Num r \<longrightarrow> c' ! i = Num r)"
    if "map_of (cols X) n = Some c" for n c
    using k [THEN conjunct2, rule_format, OF that] .
  have "\<exists>c'. get_column (coerce_non_numeric p X) n = Inr c' \<and> length c' = length c
                 \<and> (\<forall>i < length c. \<forall>r. c ! i = Num r \<longrightarrow> c' ! i = Num r)"
    if "get_column X n = Inr c" for n c
  proof -
    from that have "map_of (cols X) n = Some c"
      by (auto simp: get_column_def split: option.splits)
    from k2 [OF this] obtain c' where c': "map_of (List.map_filter ?F (cols X)) n = Some c'"
      "length c' = length c" "\<forall>i < length c. \<forall>r. c ! i = Num r \<longrightarrow> c' ! i = Num r"
      by blast
    have "get_column (coerce_non_numeric p X) n = Inr c'"
      unfolding get_column_def cs c'(1) by simp
    with c'(2,3) show ?thesis by blast
  qed
  moreover have "columns (coerce_non_numeric p X) = columns X"
    unfolding columns_def cs by (rule k1)
  ultimately show ?thesis using nr by blast
qed

lemma feature_matrix_ok:
  assumes "feature_names_in sc = Some F"
  shows "\<exists>X. feature_matrix pnum sc df tvs = Inr X \<and> columns X = F \<and> nrows X = nrows df
           \<and> (\<forall>f \<in> set F. f \<notin> set (columns df) \<longrightarrow>
                 get_column X f = Inr (replicate (nrows df) (Num 0)))
           \<and> (\<forall>f \<in> set F. \<forall>c. get_column df f = Inr c \<longrightarrow>
                 (\<exists>c'. get_column X f = Inr c' \<and> length c' = length c
                    \<and> (\<forall>i < length c. (\<forall>r. c ! i = Num r \<longrightarrow> c' ! i = Num r)
                                       \<and> (c ! i = NaN \<longrightarrow> c' ! i = Num 0))))"
proof -
  from reconcile_ok [of df F]
  obtain X0 where X0: "reconcile df F = Inr X0" "columns X0 = F" "nrows X0 = nrows df"
    and col: "\<And>f. f \<in> set F \<Longrightarrow> get_column X0 f =
           (if f \<in> set (columns df) then map_sum id (map fillna0_cell) (get_column df f)
            else Inr (replicate (nrows df) (Num 0)))"
    by blast
  have "\<forall>(k, c) \<in> set (cols X0). NaN \<notin> set c"
    using reconcile_no_NaN [OF X0(1)] by blast
  note keep = coerce_non_numeric_keeps [OF this, of pnum]
  let ?X = "coerce_non_numeric pnum X0"
  have keep3: "\<exists>c'. get_column ?X n = Inr c' \<and> length c' = length c
                 \<and> (\<forall>i < length c. \<forall>r. c ! i = Num r \<longrightarrow> c' ! i = Num r)"
    if "get_column X0 n = Inr c" for n c
    using keep that by blast
  have fm: "feature_matrix pnum sc df tvs = Inr ?X"
    using assms X0(1) by (simp add: feature_matrix_def)
  have absent: "get_column ?X f = Inr (replicate (nrows df) (Num 0))"
    if "f \<in> set F" "f \<notin> set (columns df)" for f
  proof -
    from col [OF that(1)] that(2)
    have "get_column X0 f = Inr (replicate (nrows df) (Num 0))" by simp
    from keep3 [OF this] obtain c' where c': "get_column ?X f = Inr c'"
      "length c' = nrows df" "\<forall>i < nrows df. c' ! i = Num 0"
      by auto
    then have "c' = replicate (nrows df) (Num 0)"
      by (simp add: list_eq_iff_nth_eq)
    with c'(1) show ?thesis by simp
  qed
  have present: "\<exists>c'. get_column ?X f = Inr c' \<and> length c' = length c
                    \<and> (\<forall>i < length c. (\<forall>r. c ! i = Num r \<longrightarrow> c' ! i = Num r)
                                       \<and> (c ! i = NaN \<longrightarrow> c' ! i = Num 0))"
    if "f \<in> set F" "get_column df f = Inr c" for f c
  proof -
    from that(2) have "f \<in> set (columns df)" by (rule get_column_Inr_columns)
    with col [OF that(1)] that(2)
    have "get_column X0 f = Inr (map fillna0_cell c)" by simp
    from keep3 [OF this] obtain c' where c': "get_column ?X f = Inr c'"
      "length c' = length c"
      "\<forall>i < length c. \<forall>r. map fillna0_cell c ! i = Num r \<longrightarrow> c' ! i = Num r"
      by auto
    have "(\<forall>r. c ! i = Num r \<longrightarrow> c' ! i = Num r) \<and> (c ! i = NaN \<longrightarrow> c' ! i = Num 0)"
      if "i < length c" for i
      using fillna0_cell_nth [OF that] c'(3) that by (cases "c ! i") auto
    with c'(1,2) show ?thesis by blast
  qed
  from fm keep X0(2,3) absent present show ?thesis by auto
qed

lemma reconcile_xgb_ok:
  "\<exists>X'. reconcile_xgb X F = Inr X' \<and> columns X' = F \<and> nrows X' = nrows X
     \<and> (\<forall>f \<in> set F. f \<notin> set (columns X) \<longrightarrow>
           get_column X' f = Inr (replicate (nrows X) (Num 0)))
     \<and> (\<forall>f \<in> set F. f \<in> set (columns X) \<longrightarrow> get_column X' f = get_column X f)"
proof -
  let ?extra = "filter (\<lambda>col. col \<notin> set F) (columns X)"
  let ?S = "drop_columns X ?extra"
  have S: "f \<in> set F \<Longrightarrow> get_column ?S f = get_column X f"
    "f \<in> set F \<Longrightarrow> f \<in> set (columns ?S) \<longleftrightarrow> f \<in> set (columns X)" for f
    by (auto simp: get_column_drop set_columns_drop)
  from select_ok [of F "add_missing ?S F (Num 0)"]
  obtain X' where X': "select (add_missing ?S F (Num 0)) F = Inr X'" "columns X' = F"
    "nrows X' = nrows X"
    "\<forall>f \<in> set F. get_column X' f = get_column (add_missing ?S F (Num 0)) f"
    by (auto simp: columns_add_missing nrows_add_missing nrows_drop)
  have "reconcile_xgb X F = Inr X'"
    using X'(1) by (simp add: reconcile_xgb_def)
  with X'(2,3,4) show ?thesis
    by (auto simp: get_column_add_missing S nrows_drop)
qed

text \<open>
  Claim C3, amended. The matrix that \<^verbatim>\<open>make_predictions\<close> hands to the scaler and the matrix
  that \<^verbatim>\<open>predict_with_xgb\<close> builds have exactly the columns of \<open>F\<close> in the order of \<open>F\<close>; a name
  of \<open>F\<close> that is not a column of the input is a column of zeros; columns that are not in
  \<open>F\<close> do not appear. In \<^verbatim>\<open>predict_with_xgb\<close> a column of the input is kept as it is. In
  \<^verbatim>\<open>make_predictions\<close> its numbers are kept, and its missing values become 0.
\<close>

theorem C3_reconciled_matrix:
  "(feature_names_in sc = Some F \<longrightarrow>
     (\<exists>X. feature_matrix pnum sc df tvs = Inr X \<and> columns X = F \<and> nrows X = nrows df
        \<and> (\<forall>f \<in> set F. f \<notin> set (columns df) \<longrightarrow>
              get_column X f = Inr (replicate (nrows df) (Num 0)))
        \<and> (\<forall>f \<in> set F. \<forall>c. get_column df f = Inr c \<longrightarrow>
              (\<exists>c'. get_column X f = Inr c' \<and> length c' = length c
                 \<and> (\<forall>i < length c. (\<forall>r. c ! i = Num r \<longrightarrow> c' ! i = Num r)
                                    \<and> (c ! i = NaN \<longrightarrow> c' ! i = Num 0))))))
   \<and> (\<exists>X'. reconcile_xgb df F = Inr X' \<and> columns X' = F \<and> nrows X' = nrows df
        \<and> (\<forall>f \<in> set F. f \<notin> set (columns df) \<longrightarrow>
              get_column X' f = Inr (replicate (nrows df) (Num 0)))
        \<and> (\<forall>f \<in> set F. f \<in> set (columns df) \<longrightarrow> get_column X' f = get_column df f))"
  using feature_matrix_ok [of sc F pnum df tvs] reconcile_xgb_ok [of df F] by blast

theorem C3_reconciled_matrix_witness:
  "\<exists>X. feature_matrix (\<lambda>s. None) \<lparr>feature_names_in = Some [''b'', ''c'', ''a''], transform = Inr\<rparr>
          \<lparr>nrows = 1, cols = [(''a'', [Num 1]), (''b'', [Num 2]), (''x'', [Num 9])]\<rparr> [] = Inr X
        \<and> columns X = [''b'', ''c'', ''a'']
        \<and> get_column X ''c'' = Inr [Num 0]
        \<and> (\<exists>c'. get_column X ''b'' = Inr c' \<and> c' ! 0 = Num 2)
        \<and> (\<exists>c'. get_column X ''a'' = Inr c' \<and> c' ! 0 = Num 1)"
proof -
  let ?sc = "\<lparr>feature_names_in = Some [''b'', ''c'', ''a''], transform = Inr\<rparr>"
  let ?F = "[''b'', ''c'', ''a'']"
  let ?df = "\<lparr>nrows = 1, cols = [(''a'', [Num 1]), (''b'', [Num 2]), (''x'', [Num 9])]\<rparr>"
  have fn: "feature_names_in ?sc = Some ?F" by simp
  from C3_reconciled_matrix [of ?sc ?F "\<lambda>s. None" ?df "[]", THEN conjunct1, THEN mp, OF fn]
  obtain X where X: "feature_matrix (\<lambda>s. None) ?sc ?df [] = Inr X" "columns X = ?F"
    and absent: "\<forall>f \<in> set ?F. f \<notin> set (columns ?df) \<longrightarrow>
              get_column X f = Inr (replicate (nrows ?df) (Num 0))"
    and present: "\<forall>f \<in> set ?F. \<forall>c. get_column ?df f = Inr c \<longrightarrow>
              (\<exists>c'. get_column X f = Inr c' \<and> length c' = length c
                 \<and> (\<forall>i < length c. (\<forall>r. c ! i = Num r \<longrightarrow> c' ! i = Num r)
                                    \<and> (c ! i = NaN \<longrightarrow> c' ! i = Num 0)))"
    by blast
  have c: "get_column X ''c'' = Inr [Num 0]"
    using absent by (simp add: columns_def)
  have gb: "get_column ?df ''b'' = Inr [Num 2]" and ga: "get_column ?df ''a'' = Inr [Num 1]"
    by (simp_all add: get_column_def)
  have b: "\<exists>c'. get_column X ''b'' = Inr c' \<and> c' ! 0 = Num 2"
    using present [rule_format, of "''b''", OF _ gb] by auto
  have a: "\<exists>c'. get_column X ''a'' = Inr c' \<and> c' ! 0 = Num 1"
    using present [rule_format, of "''a''", OF _ ga] by auto
  from X c b a show ?thesis by blast
qed

text \<open>
  The claim as stated fails in \<^verbatim>\<open>make_predictions\<close>: a missing value of a column that is
  present is not kept, it is replaced by 0.
\<close>

theorem C3_counterexample:
  "feature_matrix (\<lambda>s. None) \<lparr>feature_names_in = Some [''a''], transform = Inr\<rparr>
      \<lparr>nrows = 2, cols = [(''a'', [Num 1, NaN])]\<rparr> []
     = Inr \<lparr>nrows = 2, cols = [(''a'', [Num 1, Num 0])]\<rparr>"
  by (simp add: feature_matrix_def reconcile_def select_def add_missing_def columns_def
        get_column_def fillna0_def coerce_non_numeric_def is_number_col_def List.map_filter_simps)

subsection \<open>C10\<close>

text \<open>
  Claim C10, amended. When \<^verbatim>\<open>make_predictions\<close> succeeds, the returned frame is the input with
  the predictions assigned to the column \<open>target_predicted\<close>: the row count and every other
  column are unchanged. The column is new, and last, when the input has no column of that
  name; otherwise the input's column of that name is overwritten.
\<close>

theorem C10_frame_effect:
  assumes "make_predictions pdt pnum m sc df tv tvs = Inr (df', preds)"
  shows "df' = assign df (tv @ ''_predicted'') (map Num preds)
         \<and> length preds = nrows df \<and> nrows df' = nrows df
         \<and> get_column df' (tv @ ''_predicted'') = Inr (map Num preds)
         \<and> (\<forall>n. n \<noteq> tv @ ''_predicted'' \<longrightarrow> get_column df' n = get_column df n)
         \<and> columns df' = (if tv @ ''_predicted'' \<in> set (columns df) then columns df
                          else columns df @ [tv @ ''_predicted''])"
proof -
  from assms have "df' = assign df (tv @ ''_predicted'') (map Num preds)"
    and "length preds = nrows df"
    unfolding make_predictions_def by (auto split: sum.splits if_splits)
  then show ?thesis
    by (simp add: nrows_assign get_column_assign columns_assign)
qed

lemma lag_loop_ok:
  "get_column df t = Inr c \<Longrightarrow>
     \<exists>df'. lag_loop df t lags = Inr df' \<and> nrows df' = nrows df \<and> get_column df' t = Inr c"
proof (induction lags arbitrary: df)
  case Nil
  then show ?case by simp
next
  case (Cons lag lags)
  let ?d = "assign df (t @ ''_lag_'' @ str_nat lag) (shift lag c)"
  have "get_column ?d t = Inr c" using Cons.prems by (simp add: get_column_assign)
  from Cons.IH [OF this] show ?case using Cons.prems by (simp add: nrows_assign)
qed

lemma create_lag_features_ok:
  "get_column df t = Inr c \<Longrightarrow>
     \<exists>df'. create_lag_features df [t] lags = Inr df' \<and> nrows df' = nrows df
           \<and> get_column df' t = Inr c"
  using lag_loop_ok [of df t c lags] by auto

lemma rolling_loop_ok:
  "get_column df t = Inr c \<Longrightarrow> floats c = Inr xs \<Longrightarrow>
     \<exists>df'. rolling_loop df t ws = Inr df' \<and> nrows df' = nrows df \<and> get_column df' t = Inr c"
proof (induction ws arbitrary: df)
  case Nil
  then show ?case by simp
next
  case (Cons w ws)
  let ?d1 = "assign df (t @ ''_rolling_mean_'' @ str_nat w) (rolling roll_mean w xs)"
  let ?d2 = "assign ?d1 (t @ ''_rolling_std_'' @ str_nat w) (rolling roll_std w xs)"
  let ?d3 = "assign ?d2 (t @ ''_rolling_min_'' @ str_nat w) (rolling roll_min w xs)"
  let ?d4 = "assign ?d3 (t @ ''_rolling_max_'' @ str_nat w) (rolling roll_max w xs)"
  have "get_column ?d4 t = Inr c" using Cons.prems by (simp add: get_column_assign)
  from Cons.IH [OF this Cons.prems(2)] show ?case
    using Cons.prems by (simp add: nrows_assign Let_def)
qed

lemma create_rolling_features_ok:
  "get_column df t = Inr c \<Longrightarrow> floats c = Inr xs \<Longrightarrow>
     \<exists>df'. create_rolling_features df [t] ws = Inr df' \<and> nrows df' = nrows df
           \<and> get_column df' t = Inr c"
  using rolling_loop_ok [of df t c xs ws] by auto

lemma length_to_matrix: "length (to_matrix X) = nrows X"
  by (simp add: to_matrix_def)

lemma nrows_coerce_non_numeric: "nrows (coerce_non_numeric p X) = nrows X"
  by (simp add: coerce_non_numeric_def)

lemma make_predictions_success:
  assumes "''time_dt'' \<notin> set (columns df)" and "get_column df tv = Inr c"
    and "floats c = Inr xs" and "feature_names_in sc = None" and "transform sc = Inr"
  shows "make_predictions pdt pnum (\<lambda>X. Inr (map (\<lambda>row. v) X)) sc df tv tvs
           = Inr (assign df (tv @ ''_predicted'') (replicate (nrows df) (Num v)),
                  replicate (nrows df) v)"
proof -
  from create_lag_features_ok [OF assms(2)]
  obtain df2 where df2: "create_lag_features df [tv] default_lags = Inr df2"
    "nrows df2 = nrows df" "get_column df2 tv = Inr c" by blast
  from create_rolling_features_ok [OF df2(3) assms(3)]
  obtain df3 where df3: "create_rolling_features df2 [tv] default_windows = Inr df3"
    "nrows df3 = nrows df" using df2(2) by auto
  let ?X = "coerce_non_numeric pnum
              (drop_columns df3 (filter (\<lambda>col. col \<in> set tvs \<or> startswith col ''time_'') (columns df3)))"
  have fm: "feature_matrix pnum sc df3 tvs = Inr ?X"
    using assms(4) by (simp add: feature_matrix_def)
  have nX: "nrows ?X = nrows df"
    using df3(2) by (simp add: nrows_coerce_non_numeric nrows_drop)
  have sp: "scale_and_predict (\<lambda>X. Inr (map (\<lambda>row. v) X)) sc ?X = Inr (replicate (nrows df) v)"
    using assms(5) nX by (simp add: scale_and_predict_def map_replicate_const length_to_matrix)
  show ?thesis
    unfolding make_predictions_def using assms(1) df2(1) df3(1) fm sp by simp
qed

theorem C10_frame_effect_witness:
  "make_predictions (\<lambda>s. None) (\<lambda>s. None) (\<lambda>X. Inr (map (\<lambda>row. 7) X))
      \<lparr>feature_names_in = None, transform = Inr\<rparr>
      \<lparr>nrows = 2, cols = [(''cpu'', [Num 1, Num 3]), (''mem'', [Num 5, Num 6])]\<rparr> ''cpu'' [''cpu'']
    = Inr (\<lparr>nrows = 2, cols = [(''cpu'', [Num 1, Num 3]), (''mem'', [Num 5, Num 6]),
                                  (''cpu_predicted'', [Num 7, Num 7])]\<rparr>, [7, 7])"
proof -
  let ?sc = "\<lparr>feature_names_in = None, transform = Inr\<rparr>"
  let ?df = "\<lparr>nrows = 2, cols = [(''cpu'', [Num 1, Num 3]), (''mem'', [Num 5, Num 6])]\<rparr>"
  have run: "make_predictions (\<lambda>s. None) (\<lambda>s. None) (\<lambda>X. Inr (map (\<lambda>row. 7) X)) ?sc ?df ''cpu'' [''cpu'']
    = Inr (assign ?df (''cpu'' @ ''_predicted'') (replicate (nrows ?df) (Num 7)),
           replicate (nrows ?df) 7)"
    by (rule make_predictions_success [where c = "[Num 1, Num 3]" and xs = "[Some 1, Some 3]"])
       (simp_all add: columns_def get_column_def floats_def)
  from C10_frame_effect [OF run] show ?thesis
    using run by (simp add: assign_def numeral_2_eq_2)
qed

text \<open>
  The claim as stated fails for an input that already has a column \<open>target_predicted\<close>:
  no column is added, and the values of an existing column change.
\<close>

theorem C10_counterexample:
  "make_predictions (\<lambda>s. None) (\<lambda>s. None) (\<lambda>X. Inr (map (\<lambda>row. 7) X))
      \<lparr>feature_names_in = None, transform = Inr\<rparr>
      \<lparr>nrows = 1, cols = [(''cpu'', [Num 1]), (''cpu_predicted'', [Num 5])]\<rparr> ''cpu'' [''cpu'']
   = Inr (\<lparr>nrows = 1, cols = [(''cpu'', [Num 1]), (''cpu_predicted'', [Num 7])]\<rparr>, [7])"
proof -
  let ?sc = "\<lparr>feature_names_in = None, transform = Inr\<rparr>"
  let ?df = "\<lparr>nrows = 1, cols = [(''cpu'', [Num 1]), (''cpu_predicted'', [Num 5])]\<rparr>"
  have "make_predictions (\<lambda>s. None) (\<lambda>s. None) (\<lambda>X. Inr (map (\<lambda>row. 7) X)) ?sc ?df ''cpu'' [''cpu'']
    = Inr (assign ?df (''cpu'' @ ''_predicted'') (replicate (nrows ?df) (Num 7)),
           replicate (nrows ?df) 7)"
    by (rule make_predictions_success [where c = "[Num 1]" and xs = "[Some 1]"])
       (simp_all add: columns_def get_column_def floats_def)
  then show ?thesis by (simp add: assign_def)
qed

subsection \<open>Future time points\<close>

lemma to_datetime_DateTime: "to_datetime pdt (map DateTime xs) = Inr (map DateTime xs)"
  by (induction xs) (auto simp: to_datetime_def)

lemma time_diffs_DateTime: "time_diffs (map DateTime xs) = diff_dropna xs"
proof (induction xs rule: induct_list012)
  case 1
  then show ?case by (simp add: time_diffs_def diff_dropna_def List.map_filter_simps)
next
  case (2 x)
  then show ?case by (simp add: time_diffs_def diff_dropna_def List.map_filter_simps)
next
  case (3 x y zs)
  then show ?case by (simp add: time_diffs_def diff_dropna_def List.map_filter_simps)
qed

lemma length_diffs: "length (diff_dropna xs) = length xs - 1"
  by (simp add: diff_dropna_def)

lemma sum_list_diffs: "xs \<noteq> [] \<Longrightarrow> sum_list (diff_dropna xs) = last xs - hd xs"
proof (induction xs rule: induct_list012)
  case 1
  then show ?case by simp
next
  case (2 x)
  then show ?case by (simp add: diff_dropna_def)
next
  case (3 x y zs)
  then show ?case by (simp add: diff_dropna_def)
qed

lemma mean_diffs:
  "2 \<le> length xs \<Longrightarrow> mean (diff_dropna xs) = (last xs - hd xs) / (real (length xs) - 1)"
proof -
  assume l: "2 \<le> length xs"
  then have "xs \<noteq> []" by auto
  then show ?thesis using l by (simp add: mean_def length_diffs sum_list_diffs of_nat_diff)
qed

lemma avg_interval_DateTime:
  "2 \<le> length xs \<Longrightarrow> avg_interval (map DateTime xs) = Some (whole_ns (mean (diff_dropna xs)))"
proof -
  assume "2 \<le> length xs"
  then have "length (diff_dropna xs) \<noteq> 0" by (simp add: length_diffs)
  then have "diff_dropna xs \<noteq> []" by auto
  then show ?thesis by (simp add: avg_interval_def time_diffs_DateTime)
qed

lemma map_filter_timestamp: "List.map_filter timestamp_of (map DateTime xs) = xs"
  by (induction xs) (auto simp: List.map_filter_simps)

lemma last_time_DateTime: "xs \<noteq> [] \<Longrightarrow> last_time (map DateTime xs) = Some (Max (set xs))"
  by (simp add: last_time_def map_filter_timestamp)

lemma Max_sorted: "sorted xs \<Longrightarrow> xs \<noteq> [] \<Longrightarrow> Max (set xs) = last xs"
  for xs :: "real list"
proof (induction xs rule: induct_list012)
  case 1
  then show ?case by simp
next
  case (2 x)
  then show ?case by simp
next
  case (3 x y zs)
  then have "Max (set (y # zs)) = last (y # zs)" by simp
  moreover have "x \<le> last (y # zs)" using "3.prems" by (auto simp: last_in_set)
  ultimately show ?case by (simp add: max_def)
qed

lemma create_future_timepoints_DateTime:
  assumes "get_column df time_col = Inr (map DateTime xs)" and "2 \<le> nrows df"
    and "length xs = nrows df"
  shows "create_future_timepoints pdt df n time_col =
           Inr (Some \<lparr>nrows = n,
                      cols = [(time_col,
                               map (\<lambda>k. DateTime (Max (set xs)
                                                    + (real k + 1) * whole_ns (mean (diff_dropna xs))))
                                   [0..<n])]\<rparr>)"
proof -
  have c: "time_col \<in> set (columns df)" using assms(1) by (rule get_column_Inr_columns)
  have ne: "xs \<noteq> []" and l: "2 \<le> length xs" using assms(2,3) by auto
  show ?thesis
    using assms c
    by (simp add: create_future_timepoints_def to_datetime_DateTime last_time_DateTime [OF ne]
          avg_interval_DateTime [OF l] future_time_def)
qed

lemma create_future_timepoints_None_iff:
  "create_future_timepoints pdt df n time_col = Inr None
     \<longleftrightarrow> time_col \<notin> set (columns df) \<or> nrows df \<le> 1"
  by (auto simp: create_future_timepoints_def split: sum.splits)

subsection \<open>One step of the forecaster\<close>

lemma create_time_features_ok:
  assumes "get_column df ''time_dt'' = Inr c" and "to_datetime pdt c = Inr ts"
  shows "\<exists>df'. create_time_features pdt df ''time_dt'' = Inr df' \<and> nrows df' = nrows df
           \<and> get_column df' ''time_dt'' = Inr ts"
proof -
  have "''time_dt'' \<in> set (columns df)" using assms(1) by (rule get_column_Inr_columns)
  then show ?thesis
    using assms
    by (simp add: create_time_features_def base_time_features_def cyclic_features_def
          day_parts_def Let_def nrows_assign nrows_drop get_column_assign get_column_drop)
qed

lemma lag_source_ok:
  assumes "1 \<le> lag" and "lag \<le> 24" and "24 \<le> length h" and "length preds = i"
  shows "\<exists>p. lag_source h preds i lag = Inr p"
proof (cases "lag > length preds")
  case True
  with assms have "\<not> (lag = 1 \<and> i > 0)" and "int i - int lag < 0" and "lag - i \<le> length h"
    by auto
  with True have "lag_source h preds i lag = Inr (h ! (length h - (lag - i)), 0.3)"
    by (simp add: lag_source_def)
  then show ?thesis by blast
next
  case False
  then have "lag_source h preds i lag = Inr (preds ! (length preds - lag), 0.3)"
    by (simp add: lag_source_def)
  then show ?thesis by blast
qed

lemma update_lags_ok:
  assumes "\<forall>lag \<in> set lags. 1 \<le> lag \<and> lag \<le> 24" and "24 \<le> length (hist r)"
    and "length preds = i"
  shows "\<exists>fd'. update_lags r preds i lags (fd, k) = Inr (fd', k + length lags)
           \<and> nrows fd' = nrows fd"
  using assms(1)
proof (induction lags arbitrary: fd k)
  case Nil
  then show ?case by simp
next
  case (Cons lag lags)
  then have "1 \<le> lag" "lag \<le> 24" by simp_all
  from lag_source_ok [OF this assms(2,3)]
  obtain v f where src: "lag_source (hist r) preds i lag = Inr (v, f)" by fastforce
  let ?fd = "assign_scalar fd (target_var r @ ''_lag_'' @ str_nat lag)
               (Num (v + std_diff r * f * noise r k))"
  from Cons.prems have "\<forall>lag \<in> set lags. 1 \<le> lag \<and> lag \<le> 24" by simp
  from Cons.IH [OF this, of ?fd "Suc k"] show ?case
    using src by (simp add: nrows_assign_scalar)
qed

lemma window_value_ok: "h \<noteq> [] \<Longrightarrow> \<exists>v. window_value h preds j = Inr v"
  by (simp add: window_value_def)

lemma collect_total:
  "(\<And>x. x \<in> set xs \<Longrightarrow> \<exists>y. f x = Inr y) \<Longrightarrow> \<exists>ys. collect (map f xs) = Inr ys"
proof (induction xs)
  case Nil
  then show ?case by simp
next
  case (Cons x xs)
  then obtain y where "f x = Inr y" by auto
  moreover from Cons obtain ys where "collect (map f xs) = Inr ys" by auto
  ultimately show ?case by simp
qed

lemma update_rolling_ok:
  assumes "hist r \<noteq> []"
  shows "\<exists>fd'. update_rolling r preds ws (fd, k) = Inr (fd', k + 3 * length ws)
           \<and> nrows fd' = nrows fd"
proof (induction ws arbitrary: fd k)
  case Nil
  then show ?case by simp
next
  case (Cons w ws)
  from collect_total [of "[0..<w]" "window_value (hist r) preds"] window_value_ok [OF assms]
  obtain vs where vs: "collect (map (window_value (hist r) preds) [0..<w]) = Inr vs"
    by blast
  let ?t = "target_var r"
  let ?fd1 = "assign_scalar fd (?t @ ''_rolling_mean_'' @ str_nat w)
                (Num (mean vs + std_diff r * 0.2 * noise r k))"
  let ?fd2 = "assign_scalar ?fd1 (?t @ ''_rolling_std_'' @ str_nat w)
                (Num (max (if length vs > 1 then np_std vs else std_diff r) 0.00001))"
  let ?fd3 = "assign_scalar ?fd2 (?t @ ''_rolling_min_'' @ str_nat w)
                (Num (Min (set vs) - std_diff r * 0.1 * noise r (k + 1)))"
  let ?fd4 = "assign_scalar ?fd3 (?t @ ''_rolling_max_'' @ str_nat w)
                (Num (Max (set vs) + std_diff r * 0.1 * noise r (k + 2)))"
  from Cons.IH [of ?fd4 "k + 3"]
  obtain fd' where a: "update_rolling r preds ws (?fd4, k + 3) = Inr (fd', k + 3 + 3 * length ws)"
    "nrows fd' = nrows ?fd4" by blast
  have e: "update_rolling r preds (w # ws) (fd, k) = update_rolling r preds ws (?fd4, k + 3)"
    using vs by (simp add: Let_def)
  have n: "nrows ?fd4 = nrows fd" by (simp add: nrows_assign_scalar)
  show ?case unfolding e using a n by simp
qed

lemma step_features_ok:
  "\<exists>X fd'. step_features r fd = Inr (X, fd') \<and> nrows X = nrows fd \<and> nrows fd' = nrows fd"
proof (cases "feature_names_in (scaler_of r)")
  case None
  then show ?thesis
    by (simp add: step_features_def nrows_coerce_non_numeric nrows_drop)
next
  case (Some F)
  show ?thesis
  proof (cases F)
    case Nil
    with Some show ?thesis
      by (simp add: step_features_def nrows_coerce_non_numeric nrows_drop)
  next
    case (Cons f fs)
    from select_ok [of F "add_missing fd F (Num 0)"]
    obtain X where X: "select (add_missing fd F (Num 0)) F = Inr X" "nrows X = nrows fd"
      by (auto simp: columns_add_missing nrows_add_missing)
    with Some Cons show ?thesis
      by (simp add: step_features_def Let_def nrows_coerce_non_numeric nrows_add_missing)
  qed
qed

lemma raw_prediction_ok:
  assumes "nrows fd = 1" and "24 \<le> length (hist r)" and "length preds = i"
    and "predict r = (\<lambda>X. Inr (map (\<lambda>row. c) X))" and "transform (scaler_of r) = Inr"
  shows "\<exists>fd'. raw_prediction r i (DateTime x) (preds, fd, k) = Inr (c, fd', k + 36)
           \<and> nrows fd' = 1"
proof -
  let ?fd0 = "assign_scalar fd ''time_dt'' (DateTime x)"
  have "get_column ?fd0 ''time_dt'' = Inr (map DateTime [x])"
    using assms(1) by (simp add: get_column_assign_scalar)
  from create_time_features_ok [OF this to_datetime_DateTime, of "parse_dt r"]
  obtain fd1 where fd1: "create_time_features (parse_dt r) ?fd0 ''time_dt'' = Inr fd1"
    "nrows fd1 = 1" using assms(1) by (auto simp: nrows_assign_scalar)
  have "\<forall>lag \<in> set [1..<25]. 1 \<le> lag \<and> lag \<le> 24" by auto
  from update_lags_ok [OF this assms(2,3), of fd1 k]
  obtain fd2 where fd2: "update_lags r preds i [1..<25] (fd1, k) = Inr (fd2, k + 24)"
    "nrows fd2 = 1" using fd1(2) by auto
  have "hist r \<noteq> []" using assms(2) by auto
  from update_rolling_ok [OF this, of preds "[3, 6, 12, 24]" fd2 "k + 24"]
  obtain fd3 where fd3: "update_rolling r preds [3, 6, 12, 24] (fd2, k + 24) = Inr (fd3, k + 36)"
    "nrows fd3 = 1" using fd2(2) by auto
  from step_features_ok [of r fd3]
  obtain X fd4 where X: "step_features r fd3 = Inr (X, fd4)" "nrows X = 1" "nrows fd4 = 1"
    using fd3(2) by auto
  have "to_matrix X = [map (\<lambda>(k, c). number_of (nth_cell c 0)) (cols X)]"
    using X(2) by (simp add: to_matrix_def)
  then have "scale_and_predict (predict r) (scaler_of r) X = Inr [c]"
    using assms(4,5) by (simp add: scale_and_predict_def)
  with fd1 fd2 fd3 X show ?thesis
    by (simp add: raw_prediction_def)
qed

lemma forecast_step_ok:
  assumes "nrows fd = 1" and "24 \<le> length (hist r)" and "length preds = i"
    and "predict r = (\<lambda>X. Inr (map (\<lambda>row. c) X))" and "transform (scaler_of r) = Inr"
  shows "\<exists>fd' fd''. forecast_step r i (DateTime x) (preds, fd, k)
             = Inr (clamp (min_val r) (max_val r)
                      (apply_patterns r fd'' c + trend_adjustment i (avg_diff r)
                       + std_diff r * 0.7 * noise r (k + 36)), fd', k + 37)
           \<and> nrows fd' = 1"
proof -
  from raw_prediction_ok [OF assms, of x k]
  obtain fd1 where "raw_prediction r i (DateTime x) (preds, fd, k) = Inr (c, fd1, k + 36)"
    "nrows fd1 = 1" by blast
  then show ?thesis
    by (auto simp: forecast_step_def Let_def nrows_assign_scalar)
qed

subsection \<open>The loop\<close>

lemma forecast_loop_ok:
  assumes "24 \<le> length (hist r)" and "predict r = (\<lambda>X. Inr (map (\<lambda>row. c) X))"
    and "transform (scaler_of r) = Inr" and "\<forall>fd p. apply_patterns r fd p = p"
  shows "nrows fd = 1 \<Longrightarrow> length preds = i \<Longrightarrow>
     \<exists>fd'. forecast_loop r i (map DateTime xs) (preds, fd, k)
       = Inr (preds @ map (\<lambda>j. clamp (min_val r) (max_val r)
                               (c + trend_adjustment (i + j) (avg_diff r)
                                + std_diff r * 0.7 * noise r (k + 37 * j + 36)))
                          [0..<length xs],
              fd', k + 37 * length xs)"
proof (induction xs arbitrary: i preds fd k)
  case Nil
  then show ?case by simp
next
  case (Cons x xs)
  let ?f = "\<lambda>i k j. clamp (min_val r) (max_val r)
              (c + trend_adjustment (i + j) (avg_diff r)
               + std_diff r * 0.7 * noise r (k + 37 * j + 36))"
  from forecast_step_ok [OF Cons.prems(1) assms(1) Cons.prems(2) assms(2,3), of x k] assms(4)
  obtain fd1 where st: "forecast_step r i (DateTime x) (preds, fd, k) = Inr (?f i k 0, fd1, k + 37)"
    and n1: "nrows fd1 = 1" by auto
  have "length (preds @ [?f i k 0]) = Suc i" using Cons.prems(2) by simp
  from Cons.IH [OF n1 this, of "k + 37"]
  obtain fd' where lp: "forecast_loop r (Suc i) (map DateTime xs) (preds @ [?f i k 0], fd1, k + 37)
       = Inr ((preds @ [?f i k 0]) @ map (?f (Suc i) (k + 37)) [0..<length xs],
              fd', k + 37 + 37 * length xs)"
    by blast
  have "?f (Suc i) (k + 37) j = ?f i k (Suc j)" for j
    by (simp add: algebra_simps)
  then have "map (?f i k) [0..<length (x # xs)] = ?f i k 0 # map (?f (Suc i) (k + 37)) [0..<length xs]"
    by (simp add: map_upt_Suc del: upt_Suc)
  with st lp show ?case by simp
qed

lemma clamp_bounds: "lo \<le> clamp lo hi p \<and> (lo \<le> hi \<longrightarrow> clamp lo hi p \<le> hi)"
  by (simp add: clamp_def)

lemma forecast_step_bounds:
  assumes "forecast_step r i t st = Inr (p, fd', k')"
  shows "min_val r \<le> p \<and> (min_val r \<le> max_val r \<longrightarrow> p \<le> max_val r)"
  using assms clamp_bounds [of "min_val r" "max_val r"]
  by (auto simp: forecast_step_def Let_def split: sum.splits prod.splits)

lemma forecast_loop_bounds:
  assumes "forecast_loop r i ts (preds, fd, k) = Inr (preds', fd', k')"
    and "\<forall>p \<in> set preds. min_val r \<le> p \<and> (min_val r \<le> max_val r \<longrightarrow> p \<le> max_val r)"
  shows "(\<forall>p \<in> set preds'. min_val r \<le> p \<and> (min_val r \<le> max_val r \<longrightarrow> p \<le> max_val r))
         \<and> length preds' = length preds + length ts"
  using assms
proof (induction ts arbitrary: i preds fd k)
  case Nil
  then show ?case by simp
next
  case (Cons t ts)
  from Cons.prems(1) obtain p fd1 k1 where
    st: "forecast_step r i t (preds, fd, k) = Inr (p, fd1, k1)"
    and lp: "forecast_loop r (Suc i) ts (preds @ [p], fd1, k1) = Inr (preds', fd', k')"
    by (auto split: sum.splits)
  from forecast_step_bounds [OF st] Cons.prems(2)
  have "\<forall>q \<in> set (preds @ [p]). min_val r \<le> q \<and> (min_val r \<le> max_val r \<longrightarrow> q \<le> max_val r)"
    by auto
  from Cons.IH [OF lp this] show ?case by simp
qed

subsection \<open>The run\<close>

lemma numbers_map_Num: "numbers (map Num h) = Inr h"
  by (induction h) (auto simp: numbers_def)

lemma numbers_Inr: "numbers c = Inr h \<Longrightarrow> c = map Num h"
proof (induction c arbitrary: h)
  case Nil
  then show ?case by (simp add: numbers_def)
next
  case (Cons x c)
  from Cons.prems obtain v where x: "x = Num v"
    by (cases x) (auto simp: numbers_def)
  with Cons.prems obtain h' where h': "numbers c = Inr h'" "h = v # h'"
    by (auto simp: numbers_def split: sum.splits)
  from Cons.IH [OF h'(1)] x h'(2) show ?case by simp
qed

lemma numbers_Inr_iff: "numbers c = Inr h \<longleftrightarrow> c = map Num h"
  using numbers_Inr numbers_map_Num by blast

lemma warmup_fields:
  assumes "warmup pdt pnum m sc z wdf tv = Inr r"
  shows "predict r = m \<and> scaler_of r = sc \<and> noise r = z \<and> target_var r = tv
         \<and> get_column wdf tv = Inr (map Num (hist r))"
proof -
  from assms obtain c h where c: "get_column wdf tv = Inr c" and h: "numbers c = Inr h"
    by (auto simp: warmup_def split: sum.splits)
  from h have cm: "c = map Num h" by (simp add: numbers_Inr_iff)
  from assms c h have "predict r = m \<and> scaler_of r = sc \<and> noise r = z \<and> target_var r = tv
         \<and> hist r = h"
    by (auto simp: warmup_def Let_def split: sum.splits if_splits)
  with c cm show ?thesis by simp
qed

lemma warmup_short:
  assumes "nrows wdf \<le> 24" and "get_column wdf tv = Inr (map Num ys)"
  shows "warmup pdt pnum m sc z wdf tv
           = Inr \<lparr>parse_dt = pdt, parse_num = pnum, predict = m, scaler_of = sc, noise = z,
                  target_var = tv, hist = ys, avg_diff = 0, std_diff = 0.01,
                  daily_pattern_norm = None, weekly_pattern_norm = None\<rparr>"
proof -
  have "numbers (map Num ys) = Inr ys" by (simp add: numbers_Inr_iff)
  with assms show ?thesis by (simp add: warmup_def)
qed

lemma run_inv:
  assumes "predict_future_values pdt pnum z mo so df n tv = Inr (Some (out, preds))"
  shows "\<exists>m sc tc ts fdf0 fdf r ft fd k.
           mo = Some m \<and> so = Some sc
           \<and> get_column df ''time_dt'' = Inr tc \<and> to_datetime pdt tc = Inr ts
           \<and> create_future_timepoints pdt (sort_values (assign df ''time_dt'' ts) ts) n ''time_dt''
               = Inr (Some fdf0)
           \<and> create_time_features pdt fdf0 ''time_dt'' = Inr fdf
           \<and> warmup pdt pnum m sc z (sort_values (assign df ''time_dt'' ts) ts) tv = Inr r
           \<and> get_column fdf ''time_dt'' = Inr ft
           \<and> forecast_loop r 0 ft ([], last_row (sort_values (assign df ''time_dt'' ts) ts), 0)
               = Inr (preds, fd, k)
           \<and> out = assign fdf tv (map Num preds)"
proof -
  from assms obtain m sc where ms: "mo = Some m" "so = Some sc"
    by (cases mo; cases so) (auto simp: predict_future_values_def)
  show ?thesis
  proof (cases "''time_dt'' \<in> set (columns df)")
    case False
    then have "create_future_timepoints pdt df n ''time_dt'' = Inr None"
      by (simp add: create_future_timepoints_def)
    with assms ms False show ?thesis
      by (simp add: predict_future_values_def)
  next
    case True
    with assms ms obtain tc ts where t: "get_column df ''time_dt'' = Inr tc"
      "to_datetime pdt tc = Inr ts"
      by (auto simp: predict_future_values_def split: sum.splits)
    let ?w = "sort_values (assign df ''time_dt'' ts) ts"
    from assms ms True t obtain fdf0 where f0:
      "create_future_timepoints pdt ?w n ''time_dt'' = Inr (Some fdf0)"
      by (auto simp: predict_future_values_def split: sum.splits option.splits)
    from assms ms True t f0 obtain fdf where f1: "create_time_features pdt fdf0 ''time_dt'' = Inr fdf"
      by (auto simp: predict_future_values_def split: sum.splits)
    from assms ms True t f0 f1 obtain r where r: "warmup pdt pnum m sc z ?w tv = Inr r"
      by (auto simp: predict_future_values_def split: sum.splits)
    from assms ms True t f0 f1 r obtain ft where ft: "get_column fdf ''time_dt'' = Inr ft"
      by (auto simp: predict_future_values_def split: sum.splits)
    from assms ms True t f0 f1 r ft obtain fd k where
      "forecast_loop r 0 ft ([], last_row ?w, 0) = Inr (preds, fd, k)"
      "out = assign fdf tv (map Num preds)"
      by (auto simp: predict_future_values_def split: sum.splits)
    with ms t f0 f1 r ft show ?thesis by blast
  qed
qed

lemma set_argsort: "set (argsort n ts) = {0..<n}"
  by (auto simp: argsort_def)

lemma nrows_sort_values: "nrows (sort_values df ts) = nrows df"
  by (simp add: sort_values_def)

lemma columns_sort_values: "columns (sort_values df ts) = columns df"
  by (simp add: sort_values_def columns_def comp_def case_prod_unfold)

lemma get_column_sort_values:
  "get_column (sort_values df ts) n
     = map_sum id (\<lambda>c. map (nth_cell c) (argsort (nrows df) ts)) (get_column df n)"
  by (simp add: get_column_def sort_values_def map_of_map split: option.splits)

lemma argsort_sorted:
  assumes "sorted xs" and "length xs = n"
  shows "argsort n (map DateTime xs) = [0..<n]"
proof -
  have ts: "timestamp_of (nth_cell (map DateTime xs) i) = Some (xs ! i)" if "i < n" for i
    using that assms(2) by (simp add: nth_cell_def)
  have f1: "filter (\<lambda>i. timestamp_of (nth_cell (map DateTime xs) i) \<noteq> None) [0..<n] = [0..<n]"
    using ts by (simp add: filter_id_conv)
  have f2: "filter (\<lambda>i. timestamp_of (nth_cell (map DateTime xs) i) = None) [0..<n] = []"
    using ts by (simp add: filter_empty_conv)
  have "map (\<lambda>i. the (timestamp_of (nth_cell (map DateTime xs) i))) [0..<n] = map (\<lambda>i. xs ! i) [0..<n]"
    using ts by simp
  also have "\<dots> = xs" using assms(2) map_nth [of xs] by auto
  finally have "sorted (map (\<lambda>i. the (timestamp_of (nth_cell (map DateTime xs) i))) [0..<n])"
    using assms(1) by simp
  then have "sort_key (\<lambda>i. the (timestamp_of (nth_cell (map DateTime xs) i))) [0..<n] = [0..<n]"
    by (rule sort_key_id_if_sorted)
  with f1 f2 show ?thesis by (simp add: argsort_def)
qed

lemma map_nth_cell_upt: "length c = n \<Longrightarrow> map (nth_cell c) [0..<n] = c"
proof -
  assume l: "length c = n"
  then have "map (nth_cell c) [0..<n] = map (\<lambda>i. c ! i) [0..<length c]"
    by (simp add: nth_cell_def)
  then show ?thesis by (simp add: map_nth)
qed

lemma to_datetime_Num: "to_datetime pdt (map Num ys) = Inr (map DateTime ys)"
  by (induction ys) (auto simp: to_datetime_def)

lemma hist_of_run:
  assumes tc: "get_column df ''time_dt'' = Inr tc" and ts: "to_datetime pdt tc = Inr ts"
    and w: "warmup pdt pnum m sc z (sort_values (assign df ''time_dt'' ts) ts) tv = Inr r"
    and y: "get_column df tv = Inr (map Num ys)" and len: "length ys = nrows df"
    and pos: "0 < nrows df"
  shows "set (hist r) = set ys"
proof -
  let ?perm = "argsort (nrows df) ts"
  have mem: "i < length ys" if "i \<in> set ?perm" for i
    using that len by (simp add: set_argsort nrows_assign)
  from warmup_fields [OF w]
  have h: "get_column (sort_values (assign df ''time_dt'' ts) ts) tv = Inr (map Num (hist r))"
    by simp
  show ?thesis
  proof (cases "tv = ''time_dt''")
    case True
    with tc y ts have "ts = map DateTime ys" by (simp add: to_datetime_Num)
    with h True have "map (nth_cell (map DateTime ys)) ?perm = map Num (hist r)"
      by (simp add: get_column_sort_values get_column_assign nrows_assign)
    moreover have "0 \<in> set ?perm" using pos by (simp add: set_argsort)
    ultimately obtain v where "nth_cell (map DateTime ys) 0 = Num v"
      by (metis (no_types, lifting) imageE image_eqI list.set_map)
    with pos len show ?thesis by (simp add: nth_cell_def)
  next
    case False
    with h y have "map (nth_cell (map Num ys)) ?perm = map Num (hist r)"
      by (simp add: get_column_sort_values get_column_assign nrows_assign)
    moreover have "map (nth_cell (map Num ys)) ?perm = map Num (map (\<lambda>i. ys ! i) ?perm)"
      using mem by (simp add: nth_cell_def)
    ultimately have "map Num (map (\<lambda>i. ys ! i) ?perm) = map Num (hist r)"
      by simp
    then have "map (\<lambda>i. ys ! i) ?perm = hist r"
      by (rule map_injective) (simp add: inj_def)
    then have "hist r = map (\<lambda>i. ys ! i) ?perm" by simp
    then have "set (hist r) = (\<lambda>i. ys ! i) ` {0..<length ys}"
      using len by (simp add: set_argsort nrows_assign)
    also have "\<dots> = set ys" by (auto simp: set_conv_nth)
    finally show ?thesis .
  qed
qed

lemma Min_le_Max_list: "ys \<noteq> [] \<Longrightarrow> Min (set ys) \<le> Max (set ys)"
  for ys :: "real list"
  by (meson List.finite_set Max_ge Min_in set_empty)

text \<open>
  Claim C1, amended. Every prediction that \<^verbatim>\<open>rf_predict.predict_future_values\<close> emits is at
  least 0.8 times the minimum of the historical target, and at most 1.2 times its maximum
  whenever that floor does not exceed that ceiling, in particular whenever the historical
  target is non-negative.
\<close>

theorem C1_clamped_predictions:
  assumes "predict_future_values pdt pnum z mo so df n tv = Inr (Some (out, preds))"
    and "get_column df tv = Inr (map Num ys)" and "length ys = nrows df"
    and "p \<in> set preds"
  shows "0.8 * Min (set ys) \<le> p
         \<and> (0.8 * Min (set ys) \<le> 1.2 * Max (set ys) \<longrightarrow> p \<le> 1.2 * Max (set ys))
         \<and> ((\<forall>y \<in> set ys. 0 \<le> y) \<longrightarrow> p \<le> 1.2 * Max (set ys))"
proof -
  from run_inv [OF assms(1)] obtain m sc tc ts fdf0 r ft fd k where
    tc: "get_column df ''time_dt'' = Inr tc" "to_datetime pdt tc = Inr ts"
    and f0: "create_future_timepoints pdt (sort_values (assign df ''time_dt'' ts) ts) n ''time_dt''
               = Inr (Some fdf0)"
    and w: "warmup pdt pnum m sc z (sort_values (assign df ''time_dt'' ts) ts) tv = Inr r"
    and lp: "forecast_loop r 0 ft ([], last_row (sort_values (assign df ''time_dt'' ts) ts), 0)
               = Inr (preds, fd, k)"
    by blast
  from f0 have "\<not> nrows (sort_values (assign df ''time_dt'' ts) ts) \<le> 1"
    by (auto simp: create_future_timepoints_def split: if_splits)
  then have pos: "0 < nrows df" by (simp add: nrows_sort_values nrows_assign)
  from hist_of_run [OF tc w assms(2,3) pos] have h: "set (hist r) = set ys" .
  from forecast_loop_bounds [OF lp] assms(4)
  have b: "min_val r \<le> p" "min_val r \<le> max_val r \<longrightarrow> p \<le> max_val r"
    by auto
  have ne: "ys \<noteq> []" using pos assms(3) by auto
  have mm: "Min (set ys) \<le> Max (set ys)" using ne by (rule Min_le_Max_list)
  have nonneg: "0.8 * Min (set ys) \<le> 1.2 * Max (set ys)" if "\<forall>y \<in> set ys. 0 \<le> y"
  proof -
    have "0 \<le> Min (set ys)" using that ne by simp
    with mm show ?thesis by simp
  qed
  from b h nonneg show ?thesis by (auto simp: min_val_def max_val_def)
qed

lemma assign_alist_same: "map_of kvs n = Some c \<Longrightarrow> assign_alist kvs n c = kvs"
  by (induction kvs) (auto split: if_splits)

lemma assign_same: "get_column df n = Inr c \<Longrightarrow> assign df n c = df"
  by (auto simp: get_column_def assign_def assign_alist_same split: option.splits)

lemma sort_values_sorted:
  assumes "\<forall>(k, c) \<in> set (cols df). length c = nrows df" and "sorted xs"
    and "length xs = nrows df"
  shows "sort_values df (map DateTime xs) = df"
proof -
  have "map (\<lambda>(k, c). (k, map (nth_cell c) [0..<nrows df])) (cols df) = cols df"
    using assms(1) by (intro map_idI) (auto simp: map_nth_cell_upt)
  then show ?thesis
    by (simp add: sort_values_def argsort_sorted [OF assms(2,3)])
qed

lemma apply_patterns_None:
  "daily_pattern_norm r = None \<Longrightarrow> weekly_pattern_norm r = None \<Longrightarrow> apply_patterns r fd p = p"
  by (simp add: apply_patterns_def)

lemma run_success:
  assumes wf: "\<forall>(k, c) \<in> set (cols df). length c = nrows df"
    and tcol: "get_column df ''time_dt'' = Inr (map DateTime xs)" and srt: "sorted xs"
    and big: "24 \<le> nrows df"
    and w: "warmup pdt pnum (constant_model c) sc z df tv = Inr r"
    and tr: "transform sc = Inr" and pat: "\<forall>fd p. apply_patterns r fd p = p"
  shows "\<exists>out. predict_future_values pdt pnum z (Some (constant_model c)) (Some sc) df n tv
           = Inr (Some (out, map (\<lambda>j. clamp (min_val r) (max_val r)
                                     (c + trend_adjustment j (avg_diff r)
                                      + std_diff r * 0.7 * z (37 * j + 36))) [0..<n]))
         \<and> nrows out = n
         \<and> (tv \<noteq> ''time_dt'' \<longrightarrow>
              get_column out ''time_dt''
                = Inr (map (\<lambda>k. DateTime (last xs + (real k + 1) * whole_ns (mean (diff_dropna xs))))
                         [0..<n]))"
proof -
  let ?m = "constant_model c"
  let ?ft = "map (\<lambda>k. last xs + (real k + 1) * whole_ns (mean (diff_dropna xs))) [0..<n]"
  have mem: "(''time_dt'', map DateTime xs) \<in> set (cols df)"
    using tcol by (auto simp: get_column_def split: option.splits dest: map_of_SomeD)
  with wf have len: "length xs = nrows df" by auto
  have ne: "xs \<noteq> []" using len big by auto
  have tin: "''time_dt'' \<in> set (columns df)" using tcol by (rule get_column_Inr_columns)
  have wdf: "sort_values (assign df ''time_dt'' (map DateTime xs)) (map DateTime xs) = df"
    by (simp add: assign_same [OF tcol] sort_values_sorted [OF wf srt len])
  have "2 \<le> nrows df" using big by simp
  from create_future_timepoints_DateTime [OF tcol this len, of pdt n]
  have f0: "create_future_timepoints pdt df n ''time_dt''
              = Inr (Some \<lparr>nrows = n, cols = [(''time_dt'', map DateTime ?ft)]\<rparr>)"
    by (simp add: Max_sorted [OF srt ne] comp_def)
  let ?f0 = "\<lparr>nrows = n, cols = [(''time_dt'', map DateTime ?ft)]\<rparr>"
  have "get_column ?f0 ''time_dt'' = Inr (map DateTime ?ft)" by (simp add: get_column_def)
  from create_time_features_ok [OF this to_datetime_DateTime, of pdt]
  obtain fdf where fdf: "create_time_features pdt ?f0 ''time_dt'' = Inr fdf" "nrows fdf = n"
    "get_column fdf ''time_dt'' = Inr (map DateTime ?ft)" by auto
  from warmup_fields [OF w] have r: "predict r = ?m" "scaler_of r = sc" "noise r = z"
    "get_column df tv = Inr (map Num (hist r))" by simp_all
  from r(4) have "(tv, map Num (hist r)) \<in> set (cols df)"
    by (auto simp: get_column_def split: option.splits dest: map_of_SomeD)
  with wf big have h24: "24 \<le> length (hist r)" by auto
  have lr: "nrows (last_row df) = 1" using big by (simp add: last_row_def)
  from forecast_loop_ok [OF h24 _ _ pat lr, of c "[]" 0 ?ft 0] r(1,2,3) tr
  obtain fd' where lp: "forecast_loop r 0 (map DateTime ?ft) ([], last_row df, 0)
       = Inr (map (\<lambda>j. clamp (min_val r) (max_val r)
                         (c + trend_adjustment j (avg_diff r)
                          + std_diff r * 0.7 * z (37 * j + 36))) [0..<n], fd', 37 * n)"
    by (auto simp: constant_model_def)
  let ?preds = "map (\<lambda>j. clamp (min_val r) (max_val r)
                         (c + trend_adjustment j (avg_diff r)
                          + std_diff r * 0.7 * z (37 * j + 36))) [0..<n]"
  have "predict_future_values pdt pnum z (Some ?m) (Some sc) df n tv
          = Inr (Some (assign fdf tv (map Num ?preds), ?preds))"
    unfolding predict_future_values_def
    using tin tcol wdf f0 fdf(1,3) w lp by (simp add: to_datetime_DateTime)
  then show ?thesis
    using fdf(2,3) by (auto simp: nrows_assign get_column_assign comp_def)
qed

subsection \<open>Runs on the example histories\<close>

lemma sorted_times: "0 \<le> c \<Longrightarrow> sorted (map (\<lambda>i. real i * c) [0..<n])"
  by (auto simp: sorted_iff_nth_mono mult_right_mono)

lemma last_times: "0 < n \<Longrightarrow> last (map (\<lambda>i. real i * c) [0..<n]) = real (n - 1) * c"
  by (simp add: last_map)

lemma mean_diffs_times:
  assumes "2 \<le> n"
  shows "mean (diff_dropna (map (\<lambda>i. real i * c) [0..<n])) = c"
proof -
  let ?xs = "map (\<lambda>i. real i * c) [0..<n]"
  have "2 \<le> length ?xs" using assms by simp
  from mean_diffs [OF this] have "mean (diff_dropna ?xs) = (last ?xs - hd ?xs) / (real n - 1)"
    by simp
  moreover have "last ?xs = real (n - 1) * c" using assms by (simp add: last_times)
  moreover have "hd ?xs = 0" using assms by (simp add: hd_map upt_conv_Cons)
  moreover have "real (n - 1) = real n - 1" using assms by (simp add: of_nat_diff)
  ultimately show ?thesis using assms by simp
qed

lemma short_run:
  assumes "length ys = 24" and "0 \<le> step"
  shows "\<exists>out. predict_future_values pdt pnum z (Some (constant_model c)) (Some identity_scaler)
                 (regular_history step ys) n ''average_usage_cpu''
           = Inr (Some (out, map (\<lambda>j. clamp (Min (set ys) * 0.8) (Max (set ys) * 1.2)
                                     (c + 0.01 * 0.7 * z (37 * j + 36))) [0..<n]))
         \<and> nrows out = n
         \<and> get_column out ''time_dt''
             = Inr (map (\<lambda>k. DateTime (23 * step + (real k + 1) * whole_ns step)) [0..<n])"
proof -
  let ?df = "regular_history step ys"
  let ?xs = "map (\<lambda>i. real i * step) [0..<length ys]"
  let ?r = "\<lparr>parse_dt = pdt, parse_num = pnum, predict = constant_model c,
             scaler_of = identity_scaler, noise = z, target_var = ''average_usage_cpu'',
             hist = ys, avg_diff = 0, std_diff = 0.01,
             daily_pattern_norm = None, weekly_pattern_norm = None\<rparr>"
  have wf: "\<forall>(k, c) \<in> set (cols ?df). length c = nrows ?df"
    by (simp add: regular_history_def)
  have tcol: "get_column ?df ''time_dt'' = Inr (map DateTime ?xs)"
    by (simp add: regular_history_def get_column_def)
  have ycol: "get_column ?df ''average_usage_cpu'' = Inr (map Num ys)"
    by (simp add: regular_history_def get_column_def)
  have srt: "sorted ?xs" using assms(2) by (rule sorted_times)
  have n24: "nrows ?df = 24" using assms by (simp add: regular_history_def)
  have w: "warmup pdt pnum (constant_model c) identity_scaler z ?df ''average_usage_cpu'' = Inr ?r"
    by (rule warmup_short) (simp_all add: n24 ycol)
  have pat: "\<forall>fd p. apply_patterns ?r fd p = p" by (simp add: apply_patterns_None)
  have big: "24 \<le> nrows ?df" by (simp add: n24)
  have tr: "transform identity_scaler = Inr" by (simp add: identity_scaler_def)
  have l: "last ?xs = 23 * step" using assms by (simp add: last_times)
  have m: "mean (diff_dropna ?xs) = step" using assms by (simp add: mean_diffs_times)
  from run_success [OF wf tcol srt big w tr pat, of n]
  show ?thesis
    by (simp add: min_val_def max_val_def trend_adjustment_def l m)
qed

text \<open>
  Claim C1: a witness. Twenty-four hourly records oscillating between 10 and 20, a model
  that always predicts 30: both forecasts are cut to the ceiling 24.
\<close>

theorem C1_clamped_predictions_witness:
  "\<exists>out. predict_future_values (\<lambda>s. None) (\<lambda>s. None) (\<lambda>k. 0) (Some (constant_model 30))
            (Some identity_scaler)
            (regular_history 3600000000000 [10, 20, 10, 20, 10, 20, 10, 20, 10, 20, 10, 20,
                             10, 20, 10, 20, 10, 20, 10, 20, 10, 20, 10, 20]) 2
            ''average_usage_cpu'' = Inr (Some (out, [24, 24]))
         \<and> 0.8 * 10 \<le> (24::real) \<and> (24::real) \<le> 1.2 * 20"
proof -
  let ?ys = "[10, 20, 10, 20, 10, 20, 10, 20, 10, 20, 10, 20,
              10, 20, 10, 20, 10, 20, 10, 20, 10, 20, 10, 20] :: real list"
  have len: "length ?ys = 24" by simp
  have st: "0 \<le> (3600000000000::real)" by simp
  from short_run [OF len st, of "\<lambda>s. None" "\<lambda>s. None" "\<lambda>k. 0" 30 2]
  obtain out where run: "predict_future_values (\<lambda>s. None) (\<lambda>s. None) (\<lambda>k. 0)
       (Some (constant_model 30)) (Some identity_scaler) (regular_history 3600000000000 ?ys) 2
       ''average_usage_cpu'' = Inr (Some (out, [24, 24]))"
    by (auto simp: clamp_def numeral_2_eq_2)
  have g: "get_column (regular_history 3600000000000 ?ys) ''average_usage_cpu'' = Inr (map Num ?ys)"
    by (simp add: regular_history_def get_column_def)
  have l: "length ?ys = nrows (regular_history 3600000000000 ?ys)" by (simp add: regular_history_def)
  from C1_clamped_predictions [OF run g l, of 24]
  have "0.8 * 10 \<le> (24::real) \<and> (24::real) \<le> 1.2 * 20" by simp
  with run show ?thesis by blast
qed

text \<open>
  The claim of C1 as stated fails for a history that is negative throughout: the floor
  0.8 times the minimum then lies above the ceiling 1.2 times the maximum, and the clamp
  returns the floor. For a target of \<open>-10\<close> in every record the emitted prediction is \<open>-8\<close>,
  above the ceiling \<open>-12\<close>.
\<close>

theorem C1_counterexample:
  "map_sum id (map_option snd)
     (predict_future_values (\<lambda>s. None) (\<lambda>s. None) (\<lambda>k. 0) (Some (constant_model (- 10)))
        (Some identity_scaler) (regular_history 3600000000000 (replicate 24 (- 10))) 1 ''average_usage_cpu'')
     = Inr (Some [- 8])
   \<and> \<not> (- 8 \<le> 1.2 * Max (set (replicate 24 (- 10 :: real))))"
proof -
  have len: "length (replicate 24 (- 10 :: real)) = 24" by simp
  have st: "0 \<le> (3600000000000::real)" by simp
  from short_run [OF len st, of "\<lambda>s. None" "\<lambda>s. None" "\<lambda>k. 0" "- 10" 1]
  obtain out where "predict_future_values (\<lambda>s. None) (\<lambda>s. None) (\<lambda>k. 0)
       (Some (constant_model (- 10))) (Some identity_scaler) (regular_history 3600000000000 (replicate 24 (- 10))) 1
       ''average_usage_cpu'' = Inr (Some (out, [- 8]))"
    by (auto simp: clamp_def)
  then show ?thesis by simp
qed

subsection \<open>C2\<close>

lemma collect_length: "collect rs = Inr xs \<Longrightarrow> length xs = length rs"
proof (induction rs arbitrary: xs)
  case Nil
  then show ?case by simp
next
  case (Cons r rs)
  then show ?case by (cases r) (auto split: sum.splits)
qed

lemma to_datetime_length: "to_datetime pdt c = Inr ts \<Longrightarrow> length ts = length c"
  by (auto simp: to_datetime_def dest: collect_length)

lemma future_times_length:
  assumes "create_future_timepoints pdt df n ''time_dt'' = Inr (Some fdf0)"
    and "create_time_features pdt fdf0 ''time_dt'' = Inr fdf"
    and "get_column fdf ''time_dt'' = Inr ft"
  shows "length ft = n \<and> nrows fdf = n"
proof -
  from assms(1) obtain c where c: "get_column fdf0 ''time_dt'' = Inr c" "length c = n"
    "nrows fdf0 = n"
    by (auto simp: create_future_timepoints_def get_column_def split: if_splits sum.splits)
  have "''time_dt'' \<in> set (columns fdf0)" using c(1) by (rule get_column_Inr_columns)
  with assms(2) c(1) obtain ts where ts: "to_datetime pdt c = Inr ts"
    by (auto simp: create_time_features_def split: sum.splits)
  from create_time_features_ok [OF c(1) ts] assms(2,3) c(3)
  have "ft = ts" "nrows fdf = n" by auto
  with to_datetime_length [OF ts] c(2) show ?thesis by simp
qed

lemma whole_ns_nonneg: "0 \<le> x \<Longrightarrow> whole_ns x = of_int \<lfloor>x\<rfloor>"
  by (simp add: whole_ns_def)

lemma whole_ns_pos_iff: "0 \<le> x \<Longrightarrow> 0 < whole_ns x \<longleftrightarrow> 1 \<le> x"
  by (simp add: whole_ns_nonneg zero_less_floor)

lemma avg_interval_cut: "avg_interval [DateTime 0, DateTime 1, DateTime 3] = Some 1"
  by (simp add: avg_interval_def time_diffs_def List.map_filter_simps mean_def whole_ns_def)

lemma sorted_hd_le_last: "sorted xs \<Longrightarrow> xs \<noteq> [] \<Longrightarrow> hd xs \<le> last xs" for xs :: "real list"
  by (cases xs) (auto simp: last_in_set)

lemma distinct_timestamps_spread:
  fixes zs :: "int list"
  shows "sorted_wrt (<) zs \<Longrightarrow> zs \<noteq> [] \<Longrightarrow> int (length zs) - 1 \<le> last zs - hd zs"
proof (induction zs rule: induct_list012)
  case 1
  then show ?case by simp
next
  case (2 x)
  then show ?case by simp
next
  case (3 x y zs)
  then have "int (length (y # zs)) - 1 \<le> last (y # zs) - y" by simp
  moreover have "x < y" using "3.prems" by simp
  ultimately show ?case by simp
qed

text \<open>
  Claim C2, amended. A completed run of \<^verbatim>\<open>rf_predict.predict_future_values\<close> over a history
  with time-ordered timestamps emits exactly \<open>n\<close> pairs of a timestamp and a value; the
  \<open>k\<close>-th timestamp is the last historical timestamp plus \<open>k\<close> times the average interval.
  The average interval is the mean of the consecutive differences, which is the distance
  from the first to the last timestamp divided by the number of records less one, cut down
  to whole nanoseconds. The timestamps are strictly increasing exactly when that mean is
  at least one nanosecond, that is when the last historical timestamp is later than the
  first by at least the number of records less one; otherwise they all coincide.
\<close>

theorem C2_future_timestamps:
  assumes run: "predict_future_values pdt pnum z mo so df n tv = Inr (Some (out, preds))"
    and tcol: "get_column df ''time_dt'' = Inr (map DateTime xs)"
    and len: "length xs = nrows df" and srt: "sorted xs" and tv: "tv \<noteq> ''time_dt''"
  shows "length preds = n \<and> nrows out = n \<and> get_column out tv = Inr (map Num preds)
         \<and> get_column out ''time_dt''
             = Inr (map (\<lambda>k. DateTime (last xs + (real k + 1) * whole_ns (mean (diff_dropna xs))))
                      [0..<n])
         \<and> mean (diff_dropna xs) = (last xs - hd xs) / (real (length xs) - 1)
         \<and> whole_ns (mean (diff_dropna xs)) = of_int \<lfloor>mean (diff_dropna xs)\<rfloor>
         \<and> (\<forall>j k. j < k \<longrightarrow>
               (last xs + (real j + 1) * whole_ns (mean (diff_dropna xs))
                  < last xs + (real k + 1) * whole_ns (mean (diff_dropna xs))
                \<longleftrightarrow> real (length xs) - 1 \<le> last xs - hd xs))"
proof -
  let ?ts = "map DateTime xs"
  let ?w = "sort_values (assign df ''time_dt'' ?ts) ?ts"
  let ?I = "whole_ns (mean (diff_dropna xs))"
  from run_inv [OF run] tcol obtain fdf0 fdf r ft fd k where
    f0: "create_future_timepoints pdt ?w n ''time_dt'' = Inr (Some fdf0)"
    and f1: "create_time_features pdt fdf0 ''time_dt'' = Inr fdf"
    and ft: "get_column fdf ''time_dt'' = Inr ft"
    and lp: "forecast_loop r 0 ft ([], last_row ?w, 0) = Inr (preds, fd, k)"
    and out: "out = assign fdf tv (map Num preds)"
    by (auto simp: to_datetime_DateTime)
  from f0 have "\<not> nrows ?w \<le> 1"
    by (auto simp: create_future_timepoints_def split: if_splits)
  then have two: "2 \<le> nrows df" by (simp add: nrows_sort_values nrows_assign)
  then have l2: "2 \<le> length xs" and ne: "xs \<noteq> []" using len by auto
  have wt: "get_column ?w ''time_dt'' = Inr ?ts"
    by (simp add: get_column_sort_values get_column_assign nrows_assign
          argsort_sorted [OF srt len] map_nth_cell_upt len)
  have "2 \<le> nrows ?w" "length xs = nrows ?w"
    using two len by (simp_all add: nrows_sort_values nrows_assign)
  from create_future_timepoints_DateTime [OF wt this, of pdt n] f0
  have fdf0: "fdf0 = \<lparr>nrows = n, cols = [(''time_dt'',
      map (\<lambda>k. DateTime (last xs + (real k + 1) * ?I)) [0..<n])]\<rparr>"
    by (simp add: Max_sorted [OF srt ne])
  let ?ft = "map (\<lambda>k. last xs + (real k + 1) * ?I) [0..<n]"
  have "get_column fdf0 ''time_dt'' = Inr (map DateTime ?ft)"
    by (simp add: fdf0 get_column_def comp_def)
  from create_time_features_ok [OF this to_datetime_DateTime, of pdt] f1 ft
  have ftv: "ft = map DateTime ?ft" by auto
  from future_times_length [OF f0 f1 ft] have n: "length ft = n" "nrows fdf = n" by simp_all
  from forecast_loop_bounds [OF lp] n(1) have lpreds: "length preds = n" by simp
  have md: "mean (diff_dropna xs) = (last xs - hd xs) / (real (length xs) - 1)"
    using l2 by (rule mean_diffs)
  have d: "0 < real (length xs) - 1" using l2 by simp
  have "hd xs \<le> last xs" using srt ne by (rule sorted_hd_le_last)
  then have m0: "0 \<le> mean (diff_dropna xs)" using d by (simp add: md)
  then have fl: "?I = of_int \<lfloor>mean (diff_dropna xs)\<rfloor>" by (rule whole_ns_nonneg)
  have one: "1 \<le> mean (diff_dropna xs) \<longleftrightarrow> real (length xs) - 1 \<le> last xs - hd xs"
    using d by (simp add: md pos_le_divide_eq)
  have incr: "last xs + (real j + 1) * ?I < last xs + (real k + 1) * ?I
                \<longleftrightarrow> real (length xs) - 1 \<le> last xs - hd xs" if "j < k" for j k
  proof -
    have "real j + 1 < real k + 1" using that by simp
    then have "(real j + 1) * ?I < (real k + 1) * ?I \<longleftrightarrow> 0 < ?I"
      by (simp add: mult_less_cancel_right whole_ns_nonneg [OF m0] not_less [symmetric])
    with whole_ns_pos_iff [OF m0] one show ?thesis by simp
  qed
  have tcol': "get_column out ''time_dt'' = Inr (map (\<lambda>k. DateTime (last xs + (real k + 1) * ?I)) [0..<n])"
    using out tv ft ftv by (simp add: get_column_assign comp_def)
  have c1: "get_column out tv = Inr (map Num preds)" using out by (simp add: get_column_assign)
  have c2: "nrows out = n" using out n by (simp add: nrows_assign)
  from lpreds c2 c1 tcol' md fl incr show ?thesis by blast
qed

theorem C2_future_timestamps_witness:
  "\<exists>out. predict_future_values (\<lambda>s. None) (\<lambda>s. None) (\<lambda>k. 0) (Some (constant_model 15))
            (Some identity_scaler)
            (regular_history 3600000000000
               [10, 20, 10, 20, 10, 20, 10, 20, 10, 20, 10, 20,
                10, 20, 10, 20, 10, 20, 10, 20, 10, 20, 10, 20]) 2
            ''average_usage_cpu'' = Inr (Some (out, [15, 15]))
         \<and> nrows out = 2
         \<and> get_column out ''time_dt'' = Inr [DateTime 86400000000000, DateTime 90000000000000]
         \<and> get_column out ''average_usage_cpu'' = Inr [Num 15, Num 15]"
proof -
  let ?ys = "[10, 20, 10, 20, 10, 20, 10, 20, 10, 20, 10, 20,
              10, 20, 10, 20, 10, 20, 10, 20, 10, 20, 10, 20] :: real list"
  let ?xs = "map (\<lambda>i. real i * 3600000000000) [0..<length ?ys]"
  let ?df = "regular_history 3600000000000 ?ys"
  have len: "length ?ys = 24" by simp
  have st: "0 \<le> (3600000000000::real)" by simp
  from short_run [OF len st, of "\<lambda>s. None" "\<lambda>s. None" "\<lambda>k. 0" 15 2]
  obtain out where run: "predict_future_values (\<lambda>s. None) (\<lambda>s. None) (\<lambda>k. 0)
       (Some (constant_model 15)) (Some identity_scaler) ?df 2
       ''average_usage_cpu'' = Inr (Some (out, [15, 15]))"
    by (auto simp: clamp_def numeral_2_eq_2)
  have tcol: "get_column ?df ''time_dt'' = Inr (map DateTime ?xs)"
    by (simp add: regular_history_def get_column_def)
  have l: "length ?xs = nrows ?df" by (simp add: regular_history_def)
  have srt: "sorted ?xs" by simp
  have tv: "''average_usage_cpu'' \<noteq> ''time_dt''" by simp
  have la: "last ?xs = 23 * 3600000000000" by simp
  have m: "whole_ns (mean (diff_dropna ?xs)) = 3600000000000"
    by (simp add: mean_def diff_dropna_def whole_ns_def)
  from C2_future_timestamps [OF run tcol l srt tv]
  have "nrows out = 2"
    "get_column out ''time_dt'' = Inr [DateTime 86400000000000, DateTime 90000000000000]"
    "get_column out ''average_usage_cpu'' = Inr [Num 15, Num 15]"
    unfolding la m by (simp_all add: numeral_2_eq_2)
  with run show ?thesis by blast
qed

text \<open>
  The claim of C2 as stated fails for records that all carry the same timestamp: they are
  in time order, their average interval is zero, and the future timestamps are all equal.
\<close>

theorem C2_counterexample:
  "map_sum id (map_option (\<lambda>(out, preds). get_column out ''time_dt''))
     (predict_future_values (\<lambda>s. None) (\<lambda>s. None) (\<lambda>k. 0) (Some (constant_model 15))
        (Some identity_scaler)
        (regular_history 0 [10, 20, 10, 20, 10, 20, 10, 20, 10, 20, 10, 20,
                            10, 20, 10, 20, 10, 20, 10, 20, 10, 20, 10, 20]) 2
        ''average_usage_cpu'')
     = Inr (Some (Inr [DateTime 0, DateTime 0]))"
proof -
  let ?ys = "[10, 20, 10, 20, 10, 20, 10, 20, 10, 20, 10, 20,
              10, 20, 10, 20, 10, 20, 10, 20, 10, 20, 10, 20] :: real list"
  have len: "length ?ys = 24" by simp
  have st: "0 \<le> (0::real)" by simp
  from short_run [OF len st, of "\<lambda>s. None" "\<lambda>s. None" "\<lambda>k. 0" 15 2]
  obtain out where "predict_future_values (\<lambda>s. None) (\<lambda>s. None) (\<lambda>k. 0)
       (Some (constant_model 15)) (Some identity_scaler) (regular_history 0 ?ys) 2
       ''average_usage_cpu'' = Inr (Some (out, [15, 15]))"
    "get_column out ''time_dt'' = Inr [DateTime 0, DateTime 0]"
    by (auto simp: clamp_def numeral_2_eq_2 whole_ns_def)
  then show ?thesis by simp
qed

subsection \<open>C9\<close>

lemma insufficient_history_no_output:
  "''time_dt'' \<notin> set (columns df) \<Longrightarrow>
     predict_future_values pdt pnum z (Some m) (Some sc) df n tv = Inr None"
  "get_column df ''time_dt'' = Inr tc \<Longrightarrow> to_datetime pdt tc = Inr ts \<Longrightarrow> nrows df \<le> 1 \<Longrightarrow>
     predict_future_values pdt pnum z (Some m) (Some sc) df n tv = Inr None"
proof -
  show "predict_future_values pdt pnum z (Some m) (Some sc) df n tv = Inr None"
    if "''time_dt'' \<notin> set (columns df)"
    using that by (simp add: predict_future_values_def create_future_timepoints_def)
  show "predict_future_values pdt pnum z (Some m) (Some sc) df n tv = Inr None"
    if "get_column df ''time_dt'' = Inr tc" "to_datetime pdt tc = Inr ts" "nrows df \<le> 1"
  proof -
    have "''time_dt'' \<in> set (columns df)" using that(1) by (rule get_column_Inr_columns)
    moreover have "create_future_timepoints pdt (sort_values (assign df ''time_dt'' ts) ts) n ''time_dt''
                     = Inr None"
      using that(3) by (simp add: create_future_timepoints_def nrows_sort_values nrows_assign)
    ultimately show ?thesis
      using that(1,2) by (simp add: predict_future_values_def)
  qed
qed

lemma update_lags_raises:
  assumes "\<forall>lag \<in> set lags. 1 \<le> lag" and "\<exists>lag \<in> set lags. length (hist r) < lag"
  shows "update_lags r [] 0 lags (fd, k) = Inl IndexError"
  using assms
proof (induction lags arbitrary: fd k)
  case Nil
  then show ?case by simp
next
  case (Cons lag lags)
  then have l: "1 \<le> lag" by simp
  show ?case
  proof (cases "length (hist r) < lag")
    case True
    with l have "lag_source (hist r) [] 0 lag = Inl IndexError"
      by (simp add: lag_source_def)
    then show ?thesis by simp
  next
    case False
    with l have src: "lag_source (hist r) [] 0 lag
                        = Inr (hist r ! (length (hist r) - lag), 0.3)"
      by (simp add: lag_source_def)
    from Cons.prems False have "\<forall>lag \<in> set lags. 1 \<le> lag"
      "\<exists>lag \<in> set lags. length (hist r) < lag" by auto
    from Cons.IH [OF this] src show ?thesis by simp
  qed
qed

lemma run_unfold:
  assumes wf: "\<forall>(k, c) \<in> set (cols df). length c = nrows df"
    and tcol: "get_column df ''time_dt'' = Inr (map DateTime xs)" and srt: "sorted xs"
    and two: "2 \<le> nrows df"
    and w: "warmup pdt pnum m sc z df tv = Inr r"
  shows "\<exists>fdf. nrows fdf = n
           \<and> get_column fdf ''time_dt''
               = Inr (map (\<lambda>k. DateTime (last xs + (real k + 1) * whole_ns (mean (diff_dropna xs)))) [0..<n])
           \<and> predict_future_values pdt pnum z (Some m) (Some sc) df n tv
               = (case forecast_loop r 0
                         (map (\<lambda>k. DateTime (last xs + (real k + 1) * whole_ns (mean (diff_dropna xs)))) [0..<n])
                         ([], last_row df, 0) of
                    Inl e \<Rightarrow> Inl e
                  | Inr (preds, fd, k) \<Rightarrow> Inr (Some (assign fdf tv (map Num preds), preds)))"
proof -
  let ?ft = "map (\<lambda>k. last xs + (real k + 1) * whole_ns (mean (diff_dropna xs))) [0..<n]"
  have mem: "(''time_dt'', map DateTime xs) \<in> set (cols df)"
    using tcol by (auto simp: get_column_def split: option.splits dest: map_of_SomeD)
  with wf have len: "length xs = nrows df" by auto
  have ne: "xs \<noteq> []" using len two by auto
  have tin: "''time_dt'' \<in> set (columns df)" using tcol by (rule get_column_Inr_columns)
  have wdf: "sort_values (assign df ''time_dt'' (map DateTime xs)) (map DateTime xs) = df"
    by (simp add: assign_same [OF tcol] sort_values_sorted [OF wf srt len])
  from create_future_timepoints_DateTime [OF tcol two len, of pdt n]
  have f0: "create_future_timepoints pdt df n ''time_dt''
              = Inr (Some \<lparr>nrows = n, cols = [(''time_dt'', map DateTime ?ft)]\<rparr>)"
    by (simp add: Max_sorted [OF srt ne] comp_def)
  let ?f0 = "\<lparr>nrows = n, cols = [(''time_dt'', map DateTime ?ft)]\<rparr>"
  have "get_column ?f0 ''time_dt'' = Inr (map DateTime ?ft)" by (simp add: get_column_def)
  from create_time_features_ok [OF this to_datetime_DateTime, of pdt]
  obtain fdf where fdf: "create_time_features pdt ?f0 ''time_dt'' = Inr fdf" "nrows fdf = n"
    "get_column fdf ''time_dt'' = Inr (map DateTime ?ft)" by auto
  have "predict_future_values pdt pnum z (Some m) (Some sc) df n tv
          = (case forecast_loop r 0 (map DateTime ?ft) ([], last_row df, 0) of
               Inl e \<Rightarrow> Inl e
             | Inr (preds, fd, k) \<Rightarrow> Inr (Some (assign fdf tv (map Num preds), preds)))"
    unfolding predict_future_values_def
    using tin tcol wdf f0 fdf(1,3) w by (simp add: to_datetime_DateTime)
  with fdf(2,3) show ?thesis by (auto simp: comp_def)
qed

lemma first_step_raises:
  assumes "length (hist r) < 24" and "nrows fd = 1"
  shows "forecast_loop r 0 (DateTime x # ts) ([], fd, k) = Inl IndexError"
proof -
  let ?fd0 = "assign_scalar fd ''time_dt'' (DateTime x)"
  have "get_column ?fd0 ''time_dt'' = Inr (map DateTime [x])"
    using assms(2) by (simp add: get_column_assign_scalar)
  from create_time_features_ok [OF this to_datetime_DateTime, of "parse_dt r"]
  obtain fd1 where fd1: "create_time_features (parse_dt r) ?fd0 ''time_dt'' = Inr fd1"
    by auto
  have "update_lags r [] 0 [1..<25] (fd1, k) = Inl IndexError"
  proof (rule update_lags_raises)
    show "\<forall>lag \<in> set [1..<25]. 1 \<le> lag" by auto
    have "24 \<in> set [1..<25]" by simp
    with assms(1) show "\<exists>lag \<in> set [1..<25]. length (hist r) < lag" by blast
  qed
  with fd1 show ?thesis
    by (simp add: forecast_step_def raw_prediction_def)
qed

lemma short_history_raises:
  assumes "2 \<le> length ys" and "length ys < 24" and "0 < n" and "0 \<le> step"
  shows "predict_future_values pdt pnum z (Some m) (Some sc) (regular_history step ys) n
           ''average_usage_cpu'' = Inl IndexError"
proof -
  let ?df = "regular_history step ys"
  let ?xs = "map (\<lambda>i. real i * step) [0..<length ys]"
  let ?r = "\<lparr>parse_dt = pdt, parse_num = pnum, predict = m, scaler_of = sc, noise = z,
             target_var = ''average_usage_cpu'', hist = ys, avg_diff = 0, std_diff = 0.01,
             daily_pattern_norm = None, weekly_pattern_norm = None\<rparr>"
  have wf: "\<forall>(k, c) \<in> set (cols ?df). length c = nrows ?df"
    by (simp add: regular_history_def)
  have tcol: "get_column ?df ''time_dt'' = Inr (map DateTime ?xs)"
    by (simp add: regular_history_def get_column_def)
  have ycol: "get_column ?df ''average_usage_cpu'' = Inr (map Num ys)"
    by (simp add: regular_history_def get_column_def)
  have srt: "sorted ?xs" using assms(4) by (rule sorted_times)
  have nr: "nrows ?df = length ys" by (simp add: regular_history_def)
  have two: "2 \<le> nrows ?df" using assms(1) nr by simp
  have w: "warmup pdt pnum m sc z ?df ''average_usage_cpu'' = Inr ?r"
    by (rule warmup_short) (use assms(2) nr ycol in simp_all)
  obtain t ts where ft: "map (\<lambda>k. DateTime (last ?xs + (real k + 1) * whole_ns (mean (diff_dropna ?xs)))) [0..<n]
                           = DateTime t # ts"
    using assms(3) by (cases n) (auto simp: upt_conv_Cons simp del: upt_Suc)
  have lr: "nrows (last_row ?df) = 1" using two by (simp add: last_row_def)
  have "forecast_loop ?r 0 (DateTime t # ts) ([], last_row ?df, 0) = Inl IndexError"
    by (rule first_step_raises) (use assms(2) lr in simp_all)
  with run_unfold [OF wf tcol srt two w, of n] ft show ?thesis by auto
qed

text \<open>
  Claim C9 fails on the code. Future-timepoint creation returns \<^verbatim>\<open>None\<close> exactly when the
  time column is absent or the history has fewer than 2 rows, and the run then returns
  without output (lemmas \<open>create_future_timepoints_None_iff\<close> and
  \<open>insufficient_history_no_output\<close>). But a run over a history of 2 to 23 rows fails as
  well, before it has produced anything (lemma \<open>short_history_raises\<close>): in the first
  iteration the lag features for lags up to 24 are read from the history by position, and
  the read before the first row raises an IndexError. Here for two hourly records.
\<close>

theorem C9_two_row_history_raises:
  "predict_future_values (\<lambda>s. None) (\<lambda>s. None) (\<lambda>k. 0) (Some (constant_model 15))
     (Some identity_scaler) (regular_history 3600000000000 [10, 20]) 1 ''average_usage_cpu''
   = Inl IndexError"
  by (rule short_history_raises) simp_all

subsection \<open>C7\<close>

lemma forecast_loop_prefix:
  "forecast_loop r i ts (preds, fd, k) = Inr (preds', fd', k') \<Longrightarrow>
     take (length preds) preds' = preds \<and> length preds' = length preds + length ts"
proof (induction ts arbitrary: i preds fd k)
  case Nil
  then show ?case by simp
next
  case (Cons t ts)
  from Cons.prems obtain p fd1 k1 where
    lp: "forecast_loop r (Suc i) ts (preds @ [p], fd1, k1) = Inr (preds', fd', k')"
    by (auto split: sum.splits)
  from Cons.IH [OF lp] have "take (Suc (length preds)) preds' = preds @ [p]"
    and l: "length preds' = Suc (length preds) + length ts" by simp_all
  then have "take (length preds) (take (Suc (length preds)) preds') = take (length preds) (preds @ [p])"
    by simp
  then have "take (length preds) preds' = preds" by (simp add: min_def)
  with l show ?case by simp
qed

lemma forecast_loop_append:
  "forecast_loop r i (ts1 @ ts2) st
     = (case forecast_loop r i ts1 st of Inl e \<Rightarrow> Inl e
        | Inr st' \<Rightarrow> forecast_loop r (i + length ts1) ts2 st')"
proof (induction ts1 arbitrary: i st)
  case Nil
  then show ?case by simp
next
  case (Cons t ts1)
  obtain preds fd k where st: "st = (preds, fd, k)" by (cases st)
  show ?case
    unfolding st using Cons.IH by (simp split: sum.splits)
qed

lemma forecast_loop_state:
  assumes lp: "forecast_loop r i ts (preds, fd, k) = Inr (preds', fd', k')" and j: "j < length ts"
  shows "\<exists>fdj kj raw fdr kr.
           forecast_loop r i (take j ts) (preds, fd, k)
             = Inr (take (length preds + j) preds', fdj, kj)
           \<and> raw_prediction r (i + j) (ts ! j) (take (length preds + j) preds', fdj, kj)
               = Inr (raw, fdr, kr)
           \<and> preds' ! (length preds + j)
               = clamp (min_val r) (max_val r)
                   (apply_patterns r fdr raw + trend_adjustment (i + j) (avg_diff r)
                    + std_diff r * 0.7 * noise r kr)"
proof -
  have lj: "length (take j ts) = j" using j by simp
  have "take j ts @ (ts ! j # drop (Suc j) ts) = ts" using j by (simp add: id_take_nth_drop [symmetric])
  with lp have "forecast_loop r i (take j ts @ (ts ! j # drop (Suc j) ts)) (preds, fd, k)
                  = Inr (preds', fd', k')" by simp
  then obtain st where a: "forecast_loop r i (take j ts) (preds, fd, k) = Inr st"
    and b: "forecast_loop r (i + j) (ts ! j # drop (Suc j) ts) st = Inr (preds', fd', k')"
    unfolding forecast_loop_append lj by (auto split: sum.splits)
  obtain pj fdj kj where st: "st = (pj, fdj, kj)" by (cases st)
  from forecast_loop_prefix [OF a [unfolded st]] lj have lpj: "length pj = length preds + j"
    by simp
  from b st obtain p fd1 k1 where
    step: "forecast_step r (i + j) (ts ! j) (pj, fdj, kj) = Inr (p, fd1, k1)"
    and rest: "forecast_loop r (Suc (i + j)) (drop (Suc j) ts) (pj @ [p], fd1, k1)
                 = Inr (preds', fd', k')"
    by (auto split: sum.splits)
  from forecast_loop_prefix [OF rest] have pre: "take (Suc (length pj)) preds' = pj @ [p]"
    by simp
  then have "take (length pj) (take (Suc (length pj)) preds') = take (length pj) (pj @ [p])"
    by simp
  then have t: "take (length pj) preds' = pj" by (simp add: min_def)
  from pre have "take (Suc (length pj)) preds' ! length pj = (pj @ [p]) ! length pj" by simp
  then have nth: "preds' ! length pj = p" by simp
  from step obtain raw fdr kr where
    raw: "raw_prediction r (i + j) (ts ! j) (pj, fdj, kj) = Inr (raw, fdr, kr)"
    and p: "p = clamp (min_val r) (max_val r)
               (apply_patterns r fdr raw + trend_adjustment (i + j) (avg_diff r)
                + std_diff r * 0.7 * noise r kr)"
    by (auto simp: forecast_step_def Let_def split: sum.splits)
  have A: "forecast_loop r i (take j ts) (preds, fd, k)
             = Inr (take (length preds + j) preds', fdj, kj)"
    using a st t lpj by simp
  have B: "raw_prediction r (i + j) (ts ! j) (take (length preds + j) preds', fdj, kj)
             = Inr (raw, fdr, kr)"
    using raw t lpj by simp
  have C: "preds' ! (length preds + j)
             = clamp (min_val r) (max_val r)
                 (apply_patterns r fdr raw + trend_adjustment (i + j) (avg_diff r)
                  + std_diff r * 0.7 * noise r kr)"
    using nth p lpj by simp
  from A B C show ?thesis by blast
qed

lemma warmup_avg_diff:
  assumes "warmup pdt pnum m sc z wdf tv = Inr r"
  shows "avg_diff r = (if 24 < nrows wdf then mean (diff_dropna (hist r)) else 0)"
  using assms
  by (auto simp: warmup_def Let_def split: sum.splits if_splits)

text \<open>
  Claim C7, amended. In iteration \<open>j + 1\<close> of a completed run (\<open>j = 0, \<dots>, n - 1\<close>) the
  trend term is \<open>j\<close> times the average difference times 0.3: the first iteration adds no
  trend. The average difference is the mean of the consecutive differences of the
  historical target, in time order, when the history has more than 24 rows, and 0
  otherwise. Everything in the statement is the run's own: \<open>r\<close> is what the warm-up computes
  from the sorted history with the model and the scaler of the run, the state
  \<open>(take j preds, fdj, kj)\<close> is the one that the first \<open>j\<close> iterations leave, and \<open>raw\<close> is
  what the model answers in that state. The emitted prediction is that answer after the
  pattern adjustments, plus the trend term, plus the noise term, clamped.
\<close>

theorem C7_trend_term:
  assumes run: "predict_future_values pdt pnum z mo so df n tv = Inr (Some (out, preds))"
    and j: "j < n"
  shows "\<exists>m sc tc ts r fdf0 fdf ft fdj kj raw fdr kr.
           mo = Some m \<and> so = Some sc
           \<and> get_column df ''time_dt'' = Inr tc \<and> to_datetime pdt tc = Inr ts
           \<and> warmup pdt pnum m sc z (sort_values (assign df ''time_dt'' ts) ts) tv = Inr r
           \<and> get_column (sort_values (assign df ''time_dt'' ts) ts) tv = Inr (map Num (hist r))
           \<and> avg_diff r = (if 24 < nrows df then mean (diff_dropna (hist r)) else 0)
           \<and> create_future_timepoints pdt (sort_values (assign df ''time_dt'' ts) ts) n ''time_dt''
               = Inr (Some fdf0)
           \<and> create_time_features pdt fdf0 ''time_dt'' = Inr fdf
           \<and> get_column fdf ''time_dt'' = Inr ft
           \<and> forecast_loop r 0 (take j ft)
                 ([], last_row (sort_values (assign df ''time_dt'' ts) ts), 0)
               = Inr (take j preds, fdj, kj)
           \<and> raw_prediction r j (ft ! j) (take j preds, fdj, kj) = Inr (raw, fdr, kr)
           \<and> preds ! j = clamp (min_val r) (max_val r)
                           (apply_patterns r fdr raw + real j * avg_diff r * 0.3
                            + std_diff r * 0.7 * z kr)"
proof -
  from run_inv [OF run] obtain m sc tc ts fdf0 fdf r ft fd k where
    ms: "mo = Some m" "so = Some sc"
    and tc: "get_column df ''time_dt'' = Inr tc" "to_datetime pdt tc = Inr ts"
    and f0: "create_future_timepoints pdt (sort_values (assign df ''time_dt'' ts) ts) n ''time_dt''
               = Inr (Some fdf0)"
    and f1: "create_time_features pdt fdf0 ''time_dt'' = Inr fdf"
    and w: "warmup pdt pnum m sc z (sort_values (assign df ''time_dt'' ts) ts) tv = Inr r"
    and ft: "get_column fdf ''time_dt'' = Inr ft"
    and lp: "forecast_loop r 0 ft ([], last_row (sort_values (assign df ''time_dt'' ts) ts), 0)
               = Inr (preds, fd, k)"
    by blast
  from future_times_length [OF f0 f1 ft] j have "j < length ft" by simp
  from forecast_loop_state [OF lp this] obtain fdj kj raw fdr kr where
    S: "forecast_loop r 0 (take j ft)
          ([], last_row (sort_values (assign df ''time_dt'' ts) ts), 0)
        = Inr (take j preds, fdj, kj)"
    and A: "raw_prediction r j (ft ! j) (take j preds, fdj, kj) = Inr (raw, fdr, kr)"
    and B0: "preds ! j = clamp (min_val r) (max_val r)
                   (apply_patterns r fdr raw + trend_adjustment j (avg_diff r)
                    + std_diff r * 0.7 * noise r kr)"
    by auto
  from warmup_fields [OF w] have nz: "noise r = z"
    and h: "get_column (sort_values (assign df ''time_dt'' ts) ts) tv = Inr (map Num (hist r))"
    by simp_all
  from B0 nz have B: "preds ! j = clamp (min_val r) (max_val r)
                           (apply_patterns r fdr raw + real j * avg_diff r * 0.3
                            + std_diff r * 0.7 * z kr)"
    by (simp add: trend_adjustment_def)
  from warmup_avg_diff [OF w]
  have a: "avg_diff r = (if 24 < nrows df then mean (diff_dropna (hist r)) else 0)"
    by (simp add: nrows_sort_values nrows_assign)
  from ms tc w h a f0 f1 ft S A B show ?thesis by blast
qed

lemma group_means_constant_key:
  assumes "0 < length ys"
  shows "group_means (replicate (length ys) (Num 0)) ys = [(0, mean ys)]"
proof -
  have mf: "List.map_filter number_of (replicate n (Num 0)) = replicate n 0" for n
    by (induction n) (simp_all add: List.map_filter_simps)
  have rd: "remdups (replicate (Suc n) (0::real)) = [0]" for n
    by (induction n) simp_all
  obtain n' where "length ys = Suc n'" using assms by (cases "length ys") auto
  then have k: "sort (remdups (List.map_filter number_of (replicate (length ys) (Num 0)))) = [0]"
    by (simp only: mf rd) simp
  have "filter (\<lambda>(c, x). c = Num 0) (zip (replicate (length ys) (Num 0)) ys)
          = zip (replicate (length ys) (Num 0)) ys"
    by (rule filter_True) (auto simp: set_zip)
  then have "map snd (filter (\<lambda>(c, x). c = Num 0) (zip (replicate (length ys) (Num 0)) ys)) = ys"
    by simp
  with k show ?thesis by (simp add: group_means_def)
qed

lemma warmup_daily:
  assumes "24 < length ys" and "length ys < 168" and "mean ys \<noteq> 0"
  shows "warmup pdt pnum m sc z (daily_history ys) ''average_usage_cpu''
           = Inr \<lparr>parse_dt = pdt, parse_num = pnum, predict = m, scaler_of = sc, noise = z,
                  target_var = ''average_usage_cpu'', hist = ys,
                  avg_diff = mean (diff_dropna ys), std_diff = sample_std (diff_dropna ys),
                  daily_pattern_norm = Some [(0, 1)], weekly_pattern_norm = None\<rparr>"
proof -
  let ?df = "daily_history ys"
  have y: "get_column ?df ''average_usage_cpu'' = Inr (map Num ys)"
    and h: "get_column ?df ''hour_of_day'' = Inr (replicate (length ys) (Num 0))"
    and n: "nrows ?df = length ys"
    by (simp_all add: daily_history_def get_column_def)
  have num: "numbers (map Num ys) = Inr ys" by (rule numbers_map_Num)
  have pos: "0 < length ys" using assms(1) by (cases ys) simp_all
  have "mean (map snd [(0::real, mean ys)]) = mean ys" by (simp add: mean_def)
  with group_means_constant_key [OF pos] assms(3)
  have "normalized (group_means (replicate (length ys) (Num 0)) ys) = Inr [(0, 1)]"
    by (simp add: normalized_def)
  then have "pattern_of ?df ''hour_of_day'' ys = Inr [(0, 1)]"
    by (simp add: pattern_of_def h list_all_iff)
  with y num n assms(1,2) show ?thesis by (simp add: warmup_def)
qed

lemma pattern_get_unit: "pattern_get [(0, 1)] c = 1"
  by (cases c) auto

lemma apply_patterns_unit:
  "daily_pattern_norm r = Some [(0, 1)] \<Longrightarrow> weekly_pattern_norm r = None \<Longrightarrow>
     apply_patterns r fd p = p"
  by (simp add: apply_patterns_def pattern_get_unit split: option.splits)

lemma daily_run:
  assumes "24 < length ys" and "length ys < 168" and "mean ys \<noteq> 0"
  shows "\<exists>out. predict_future_values pdt pnum z (Some (constant_model c)) (Some identity_scaler)
                 (daily_history ys) n ''average_usage_cpu''
           = Inr (Some (out, map (\<lambda>j. clamp (Min (set ys) * 0.8) (Max (set ys) * 1.2)
                                     (c + real j * mean (diff_dropna ys) * 0.3
                                      + sample_std (diff_dropna ys) * 0.7 * z (37 * j + 36)))
                                [0..<n]))"
proof -
  let ?df = "daily_history ys"
  let ?xs = "map (\<lambda>i. real i * 86400000000000) [0..<length ys]"
  let ?r = "\<lparr>parse_dt = pdt, parse_num = pnum, predict = constant_model c,
             scaler_of = identity_scaler, noise = z, target_var = ''average_usage_cpu'',
             hist = ys, avg_diff = mean (diff_dropna ys), std_diff = sample_std (diff_dropna ys),
             daily_pattern_norm = Some [(0, 1)], weekly_pattern_norm = None\<rparr>"
  have wf: "\<forall>(k, c) \<in> set (cols ?df). length c = nrows ?df"
    by (simp add: daily_history_def)
  have tcol: "get_column ?df ''time_dt'' = Inr (map DateTime ?xs)"
    by (simp add: daily_history_def get_column_def)
  have srt: "sorted ?xs" by (rule sorted_times) simp
  have big: "24 \<le> nrows ?df" using assms(1) by (simp add: daily_history_def)
  have w: "warmup pdt pnum (constant_model c) identity_scaler z ?df ''average_usage_cpu'' = Inr ?r"
    using assms by (rule warmup_daily)
  have pat: "\<forall>fd p. apply_patterns ?r fd p = p" by (simp add: apply_patterns_unit)
  have tr: "transform identity_scaler = Inr" by (simp add: identity_scaler_def)
  from run_success [OF wf tcol srt big w tr pat, of n]
  show ?thesis
    by (auto simp: min_val_def max_val_def trend_adjustment_def)
qed

lemma ramp_run:
  "\<exists>out. predict_future_values (\<lambda>s. None) (\<lambda>s. None) (\<lambda>k. 0) (Some (constant_model 10))
            (Some identity_scaler)
            (daily_history [0, 1, 2, 3, 4, 5, 6, 7, 8, 9, 10, 11, 12, 13, 14, 15, 16, 17, 18,
                            19, 20, 21, 22, 23, 24]) 3 ''average_usage_cpu''
          = Inr (Some (out, [10, 10.3, 10.6]))"
proof -
  let ?ys = "[0, 1, 2, 3, 4, 5, 6, 7, 8, 9, 10, 11, 12, 13, 14, 15, 16, 17, 18,
              19, 20, 21, 22, 23, 24] :: real list"
  have a: "24 < length ?ys" "length ?ys < 168" by simp_all
  have m: "mean ?ys = 12" by (simp add: mean_def)
  then have b: "mean ?ys \<noteq> 0" by simp
  have d: "mean (diff_dropna ?ys) = 1" by (simp add: mean_def diff_dropna_def)
  have lo: "Min (set ?ys) = 0" and hi: "Max (set ?ys) = 24" by simp_all
  have three: "[0..<3] = [0, 1, 2]" by (simp add: upt_rec)
  from daily_run [OF a b, of "\<lambda>s. None" "\<lambda>s. None" "\<lambda>k. 0" 10 3]
  show ?thesis
    unfolding d lo hi three by (simp add: clamp_def)
qed

lemma raw_prediction_constant:
  assumes "predict r = constant_model c" and "raw_prediction r i t st = Inr (raw, fd', k')"
  shows "raw = c"
proof -
  obtain preds fd k where st: "st = (preds, fd, k)" by (cases st)
  from assms(2) obtain X rest where "scale_and_predict (predict r) (scaler_of r) X = Inr (raw # rest)"
    unfolding st raw_prediction_def
    by (auto split: sum.splits list.splits)
  then show ?thesis
    using assms(1) by (auto simp: scale_and_predict_def constant_model_def split: sum.splits)
qed

theorem C7_trend_term_witness:
  "\<exists>out r fdr kr.
      predict_future_values (\<lambda>s. None) (\<lambda>s. None) (\<lambda>k. 0) (Some (constant_model 10))
        (Some identity_scaler)
        (daily_history [0, 1, 2, 3, 4, 5, 6, 7, 8, 9, 10, 11, 12, 13, 14, 15, 16, 17, 18,
                        19, 20, 21, 22, 23, 24]) 3 ''average_usage_cpu''
        = Inr (Some (out, [10, 10.3, 10.6]))
      \<and> hist r = [0, 1, 2, 3, 4, 5, 6, 7, 8, 9, 10, 11, 12, 13, 14, 15, 16, 17, 18,
                  19, 20, 21, 22, 23, 24]
      \<and> avg_diff r = 1
      \<and> [10, 10.3, 10.6] ! 1
          = clamp (min_val r) (max_val r)
              (apply_patterns r fdr 10 + real 1 * avg_diff r * 0.3 + std_diff r * 0.7 * 0)"
proof -
  let ?ys = "[0, 1, 2, 3, 4, 5, 6, 7, 8, 9, 10, 11, 12, 13, 14, 15, 16, 17, 18,
              19, 20, 21, 22, 23, 24] :: real list"
  let ?df = "daily_history ?ys"
  let ?xs = "map (\<lambda>i. real i * 86400000000000) [0..<length ?ys]"
  from ramp_run obtain out where
    run: "predict_future_values (\<lambda>s. None) (\<lambda>s. None) (\<lambda>k. 0) (Some (constant_model 10))
            (Some identity_scaler) ?df 3 ''average_usage_cpu''
          = Inr (Some (out, [10, 10.3, 10.6]))"
    by blast
  have j: "(1::nat) < 3" by simp
  from C7_trend_term [OF run j] obtain m sc tc ts r ft fdj kj raw fdr kr where
    ms: "Some (constant_model 10) = Some m"
    and tc: "get_column ?df ''time_dt'' = Inr tc" "to_datetime (\<lambda>s. None) tc = Inr ts"
    and w: "warmup (\<lambda>s. None) (\<lambda>s. None) m sc (\<lambda>k. 0) (sort_values (assign ?df ''time_dt'' ts) ts)
              ''average_usage_cpu'' = Inr r"
    and h: "get_column (sort_values (assign ?df ''time_dt'' ts) ts) ''average_usage_cpu''
              = Inr (map Num (hist r))"
    and a: "avg_diff r = (if 24 < nrows ?df then mean (diff_dropna (hist r)) else 0)"
    and A: "raw_prediction r 1 (ft ! 1) (take 1 [10, 10.3, 10.6], fdj, kj) = Inr (raw, fdr, kr)"
    and B: "[10, 10.3, 10.6] ! 1
              = clamp (min_val r) (max_val r)
                  (apply_patterns r fdr raw + real 1 * avg_diff r * 0.3 + std_diff r * 0.7 * 0)"
    by blast
  have wf: "\<forall>(k, c) \<in> set (cols ?df). length c = nrows ?df" by (simp add: daily_history_def)
  have tcol: "get_column ?df ''time_dt'' = Inr (map DateTime ?xs)"
    by (simp add: daily_history_def get_column_def)
  from tc(1) have "tc = map DateTime ?xs" unfolding tcol by simp
  with tc(2) have "Inr ts = (Inr (map DateTime ?xs) :: error + cell list)"
    by (simp only: to_datetime_DateTime)
  then have ts: "ts = map DateTime ?xs" by (simp only: sum.inject)
  have srt: "sorted ?xs" by (rule sorted_times) simp
  have len: "length ?xs = nrows ?df" by (simp add: daily_history_def)
  have same: "sort_values (assign ?df ''time_dt'' ts) ts = ?df"
    unfolding ts by (simp only: assign_same [OF tcol] sort_values_sorted [OF wf srt len])
  have "get_column ?df ''average_usage_cpu'' = Inr (map Num ?ys)"
    by (simp add: daily_history_def get_column_def)
  with h same have "map Num (hist r) = map Num ?ys" by simp
  then have hist: "hist r = ?ys" by (rule map_injective) (simp add: inj_def)
  have n: "24 < nrows ?df" by (simp add: daily_history_def)
  have "mean (diff_dropna ?ys) = 1" by (simp add: mean_def diff_dropna_def)
  with a n hist have avg: "avg_diff r = 1" by simp
  from warmup_fields [OF w] ms have "predict r = constant_model 10" by simp
  from raw_prediction_constant [OF this A] have "raw = 10" .
  with B hist avg run show ?thesis by blast
qed

text \<open>
  The claim of C7 as stated fails. Twenty-five daily records that rise by 1 a day, a model
  that always predicts 10, no noise; the pattern factor is 1 and the clamp is not reached.
  The mean first difference is 1, so the claim has the first iteration add
  \<open>1 \<times> 1 \<times> 0.3\<close>; the forecasts are 10, 10.3 and 10.6: the first iteration adds nothing.
\<close>

theorem C7_counterexample:
  "map_sum id (map_option snd)
     (predict_future_values (\<lambda>s. None) (\<lambda>s. None) (\<lambda>k. 0) (Some (constant_model 10))
        (Some identity_scaler)
        (daily_history [0, 1, 2, 3, 4, 5, 6, 7, 8, 9, 10, 11, 12, 13, 14, 15, 16, 17, 18,
                        19, 20, 21, 22, 23, 24]) 3 ''average_usage_cpu'')
     = Inr (Some [10, 10.3, 10.6])
   \<and> mean (diff_dropna [0, 1, 2, 3, 4, 5, 6, 7, 8, 9, 10, 11, 12, 13, 14, 15, 16, 17, 18,
                         19, 20, 21, 22, 23, 24 :: real]) = 1"
proof -
  from ramp_run obtain out where
    "predict_future_values (\<lambda>s. None) (\<lambda>s. None) (\<lambda>k. 0) (Some (constant_model 10))
       (Some identity_scaler)
       (daily_history [0, 1, 2, 3, 4, 5, 6, 7, 8, 9, 10, 11, 12, 13, 14, 15, 16, 17, 18,
                       19, 20, 21, 22, 23, 24]) 3 ''average_usage_cpu''
     = Inr (Some (out, [10, 10.3, 10.6]))"
    by blast
  then show ?thesis by (simp add: mean_def diff_dropna_def)
qed


text \<open>
  In that run the equations of the theorem on the trend term leave no choice for the factor of the
  trend term of the second iteration: it is 1, the index that \<^verbatim>\<open>enumerate\<close> gives, and not
  the number 2 of the iteration.
\<close>

lemma ramp_trend_coefficient:
  assumes "Some (constant_model 10) = Some m"
    and "get_column (daily_history [0, 1, 2, 3, 4, 5, 6, 7, 8, 9, 10, 11, 12, 13, 14, 15, 16, 17,
                                    18, 19, 20, 21, 22, 23, 24]) ''time_dt'' = Inr tc"
    and "to_datetime (\<lambda>s. None) tc = Inr ts"
    and "warmup (\<lambda>s. None) (\<lambda>s. None) m sc (\<lambda>k. 0)
           (sort_values (assign (daily_history [0, 1, 2, 3, 4, 5, 6, 7, 8, 9, 10, 11, 12, 13, 14,
                                                15, 16, 17, 18, 19, 20, 21, 22, 23, 24])
                           ''time_dt'' ts) ts) ''average_usage_cpu'' = Inr r"
    and "raw_prediction r 1 t (take 1 [10, 10.3, 10.6], fdj, kj) = Inr (raw, fdr, kr)"
    and "[10, 10.3, 10.6] ! 1
           = clamp (min_val r) (max_val r)
               (apply_patterns r fdr raw + real a * avg_diff r * 0.3 + std_diff r * 0.7 * 0)"
  shows "a = 1"
proof -
  let ?ys = "[0, 1, 2, 3, 4, 5, 6, 7, 8, 9, 10, 11, 12, 13, 14, 15, 16, 17, 18,
              19, 20, 21, 22, 23, 24] :: real list"
  let ?df = "daily_history ?ys"
  let ?xs = "map (\<lambda>i. real i * 86400000000000) [0..<length ?ys]"
  note ms = assms(1) and tc = assms(2,3) and w = assms(4) and A = assms(5) and B = assms(6)
  have wf: "\<forall>(k, c) \<in> set (cols ?df). length c = nrows ?df" by (simp add: daily_history_def)
  have tcol: "get_column ?df ''time_dt'' = Inr (map DateTime ?xs)"
    by (simp add: daily_history_def get_column_def)
  from tc(1) have "tc = map DateTime ?xs" unfolding tcol by simp
  with tc(2) have "Inr ts = (Inr (map DateTime ?xs) :: error + cell list)"
    by (simp only: to_datetime_DateTime)
  then have ts: "ts = map DateTime ?xs" by (simp only: sum.inject)
  have srt: "sorted ?xs" by (rule sorted_times) simp
  have len: "length ?xs = nrows ?df" by (simp add: daily_history_def)
  have same: "sort_values (assign ?df ''time_dt'' ts) ts = ?df"
    unfolding ts by (simp only: assign_same [OF tcol] sort_values_sorted [OF wf srt len])
  have l: "24 < length ?ys" "length ?ys < 168" by simp_all
  have m: "mean ?ys \<noteq> 0" by (simp add: mean_def)
  from w [unfolded same] warmup_daily [OF l m, of "\<lambda>s. None" "\<lambda>s. None" m sc "\<lambda>k. 0"]
  have r: "r = \<lparr>parse_dt = \<lambda>s. None, parse_num = \<lambda>s. None, predict = m, scaler_of = sc, noise = \<lambda>k. 0,
                  target_var = ''average_usage_cpu'', hist = ?ys,
                  avg_diff = mean (diff_dropna ?ys), std_diff = sample_std (diff_dropna ?ys),
                  daily_pattern_norm = Some [(0, 1)], weekly_pattern_norm = None\<rparr>"
    by simp
  have d: "mean (diff_dropna ?ys) = 1" by (simp add: mean_def diff_dropna_def)
  from r ms have "predict r = constant_model 10" by simp
  from raw_prediction_constant [OF this A] have raw: "raw = 10" .
  have ap: "apply_patterns r fdr 10 = 10" by (rule apply_patterns_unit) (simp_all add: r)
  have mm: "min_val r = 0" "max_val r = 28.8" by (simp_all add: r min_val_def max_val_def)
  have av: "avg_diff r = 1" by (simp add: r d)
  from B have "10.3 = clamp 0 28.8 (10 + real a * 0.3 :: real)"
    unfolding raw ap mm av by simp
  then show ?thesis by (simp add: clamp_def max_def min_def split: if_splits)
qed


subsection \<open>The forecaster of v2 emits what the regressor returns\<close>

lemma v2_step_constant:
  assumes "v2_step pdt (constant_model c) sc tv F t (ps, d) = Inr (ps', d')"
  shows "ps' = ps @ [c]"
  using assms
  by (auto simp: v2_step_def constant_model_def Let_def split: sum.splits list.splits)

lemma v2_loop_constant:
  "v2_loop pdt (constant_model c) sc tv F ts (ps, d) = Inr (ps', d')
     \<Longrightarrow> ps' = ps @ replicate (length ts) c"
proof (induction ts arbitrary: ps d)
  case Nil
  then show ?case by simp
next
  case (Cons t ts)
  from Cons.prems obtain st where
    s: "v2_step pdt (constant_model c) sc tv F t (ps, d) = Inr st"
    and l: "v2_loop pdt (constant_model c) sc tv F ts st = Inr (ps', d')"
    by (auto split: sum.splits)
  obtain ps1 d1 where st: "st = (ps1, d1)" by (cases st)
  from s st have "ps1 = ps @ [c]" using v2_step_constant by blast
  moreover from l st have "ps' = ps1 @ replicate (length ts) c" using Cons.IH by blast
  ultimately show ?case by (simp add: replicate_app_Cons_same)
qed

lemma v2_run_constant:
  assumes "v2_predict_future_values pdt (Some (constant_model c)) (Some sc) h f tv = Inr (Some out)"
  shows "get_column out tv = Inr (replicate (nrows f) (Num c))"
proof -
  from assms obtain F ts w ps d fts where
    l: "v2_loop pdt (constant_model c) sc tv F ts ([], w) = Inr (ps, d)"
    and n: "length ps = nrows f"
    and out: "out = assign (assign f ''time_dt'' fts) tv (map Num ps)"
    by (auto simp: v2_predict_future_values_def Let_def split: sum.splits if_splits)
  from l have "ps = replicate (length ts) c" using v2_loop_constant by fastforce
  with n have "map Num ps = replicate (nrows f) (Num c)" by (metis length_replicate map_replicate)
  with out show ?thesis by (simp add: get_column_assign)
qed

lemma map_of_map_key:
  "map_of (map (\<lambda>(k, c). (k, f k c)) kvs) n = map_option (f n) (map_of kvs n)"
  by (induction kvs) auto

lemma get_column_take_rows:
  "get_column (take_rows df idx) n = map_sum id (\<lambda>c. map (nth_cell c) idx) (get_column df n)"
  by (simp add: get_column_def take_rows_def map_of_map split: option.splits)

lemma get_column_append_time_row:
  "get_column (append_time_row df time_col t) n
     = map_sum id (\<lambda>c. c @ [if n = time_col then t else NaN]) (get_column df n)"
  by (simp add: get_column_def append_time_row_def map_of_map_key split: option.splits)

lemma get_column_set_cell:
  "get_column (set_cell df i col v) n
     = map_sum id (\<lambda>c. if n = col then c[i := v] else c) (get_column df n)"
  by (simp add: get_column_def set_cell_def map_of_map_key split: option.splits)

lemma get_column_set_cell_other:
  "n \<noteq> col \<Longrightarrow> get_column (set_cell df i col v) n = get_column df n"
  by (cases "get_column df n") (simp_all add: get_column_set_cell)

lemma copy_new_row_keeps:
  "n \<notin> fst ` set kvs \<Longrightarrow>
     get_column (fold (\<lambda>(col, c) d. if col \<in> set (columns d) \<and> col \<noteq> time_col
                         then set_cell d idx col (nth_cell c 0) else d) kvs df) n
       = get_column df n"
proof (induction kvs arbitrary: df)
  case Nil
  then show ?case by simp
next
  case (Cons kv kvs)
  obtain k c where kv: "kv = (k, c)" by (cases kv)
  with Cons.prems have "n \<noteq> k" and "n \<notin> fst ` set kvs" by auto
  then show ?case
    using Cons.IH kv by (simp add: get_column_set_cell_other)
qed

lemma nth_cell_number: "list_all is_number c \<Longrightarrow> is_number (nth_cell c i)"
  by (simp add: nth_cell_def list_all_length)

lemma nth_cell_timestamp: "list_all is_timestamp c \<Longrightarrow> is_timestamp (nth_cell c i)"
  by (simp add: nth_cell_def list_all_length)

lemma floats_number: "list_all is_number c \<Longrightarrow> \<exists>xs. floats c = Inr xs"
proof (induction c)
  case Nil
  then show ?case by (simp add: floats_def)
next
  case (Cons x c)
  then obtain xs where "floats c = Inr xs" by auto
  with Cons.prems show ?case by (cases x) (simp_all add: floats_def)
qed

lemma to_datetime_timestamps: "list_all is_timestamp c \<Longrightarrow> to_datetime pdt c = Inr c"
proof (induction c)
  case Nil
  then show ?case by (simp add: to_datetime_def)
next
  case (Cons x c)
  then have "to_datetime pdt c = Inr c" by simp
  with Cons.prems show ?case by (cases x) (simp_all add: to_datetime_def)
qed

lemma to_datetime_gives_timestamps: "to_datetime pdt c = Inr ts \<Longrightarrow> list_all is_timestamp ts"
proof (induction c arbitrary: ts)
  case Nil
  then show ?case by (simp add: to_datetime_def)
next
  case (Cons x c)
  from Cons.prems obtain y ys where
    y: "to_datetime_cell pdt x = Inr y" and ys: "to_datetime pdt c = Inr ys" and ts: "ts = y # ys"
    by (cases "to_datetime_cell pdt x"; cases "to_datetime pdt c")
       (auto simp: to_datetime_def)
  from y have "is_timestamp y" by (cases x) (auto split: option.splits)
  with ys ts show ?case using Cons.IH by simp
qed

lemma get_column_get_dummies:
  assumes "get_column df n = Inr c" and "n \<noteq> ''day_part''"
  shows "get_column (get_dummies df dp) n = Inr c"
proof -
  define D where "D = map (\<lambda>part. (''day_part_'' @ part, map (one_hot part) dp))
              (filter (\<lambda>part. Str part \<in> set dp)
                 [''afternoon'', ''evening'', ''morning'', ''night''])"
  have a: "map_of (cols (drop_columns df [''day_part''])) n = Some c"
  proof -
    have "get_column (drop_columns df [''day_part'']) n = Inr c"
      using assms by (simp add: get_column_drop)
    then show ?thesis by (simp add: get_column_def split: option.splits)
  qed
  have b: "cols (get_dummies df dp) = cols (drop_columns df [''day_part'']) @ D"
    unfolding D_def by (simp add: get_dummies_def)
  have "map_of (cols (get_dummies df dp)) n = Some c"
    unfolding b map_of_append using a by (rule map_add_find_right)
  then show ?thesis by (simp add: get_column_def)
qed

lemma target_not_dummy:
  "''average_usage_cpu'' \<in> set (columns (get_dummies df dp))
     \<Longrightarrow> ''average_usage_cpu'' \<in> set (columns df)"
  by (auto simp: get_dummies_def columns_def drop_columns_def)

lemma get_column_base_time_features:
  assumes "get_column df ''average_usage_cpu'' = Inr c"
  shows "get_column (base_time_features df ''time_dt'' ts) ''average_usage_cpu'' = Inr c"
  using assms by (simp add: base_time_features_def Let_def get_column_assign)

lemma get_column_cyclic_features:
  assumes "get_column df ''average_usage_cpu'' = Inr c"
  shows "get_column (cyclic_features df ts) ''average_usage_cpu'' = Inr c"
  using assms by (simp add: cyclic_features_def Let_def get_column_assign)

lemma time_features_v2_keep_target:
  assumes tc: "get_column df ''time_dt'' = Inr tc" and ts: "list_all is_timestamp tc"
    and c: "get_column df ''average_usage_cpu'' = Inr c"
  shows "\<exists>df'. create_time_features_v2 pdt df ''time_dt'' = Inr df'
           \<and> get_column df' ''average_usage_cpu'' = Inr c"
proof -
  have in_cols: "''time_dt'' \<in> set (columns df)" using tc by (rule get_column_Inr_columns)
  have conv: "to_datetime pdt tc = Inr tc" using ts by (rule to_datetime_timestamps)
  define dp where "dp = map day_part_cell (map (dt_field hour_of) tc)"
  define out where "out = cyclic_features (get_dummies (base_time_features df ''time_dt'' tc) dp) tc"
  have "get_column (base_time_features df ''time_dt'' tc) ''average_usage_cpu'' = Inr c"
    using c by (rule get_column_base_time_features)
  then have "get_column (get_dummies (base_time_features df ''time_dt'' tc) dp)
               ''average_usage_cpu'' = Inr c"
    by (rule get_column_get_dummies) simp
  then have o: "get_column out ''average_usage_cpu'' = Inr c"
    unfolding out_def by (rule get_column_cyclic_features)
  have "create_time_features_v2 pdt df ''time_dt'' = Inr out"
    unfolding create_time_features_v2_def out_def dp_def
    using in_cols tc conv by (simp add: Let_def)
  with o show ?thesis by blast
qed

lemma new_row_ok:
  assumes "is_timestamp t"
  shows "\<exists>nr. create_time_features_v2 pdt \<lparr>nrows = 1, cols = [(''time_dt'', [t])]\<rparr> ''time_dt'' = Inr nr
           \<and> ''average_usage_cpu'' \<notin> set (columns nr)"
proof -
  let ?row = "\<lparr>nrows = 1, cols = [(''time_dt'', [t])]\<rparr>"
  define dp where "dp = map day_part_cell (map (dt_field hour_of) [t])"
  define b where "b = base_time_features ?row ''time_dt'' [t]"
  define nr where "nr = cyclic_features (get_dummies b dp) [t]"
  have g: "get_column ?row ''time_dt'' = Inr [t]" by (simp add: get_column_def)
  have i: "''time_dt'' \<in> set (columns ?row)" by (simp add: columns_def)
  have conv: "to_datetime pdt [t] = Inr [t]" using assms by (simp add: to_datetime_timestamps)
  have run: "create_time_features_v2 pdt ?row ''time_dt'' = Inr nr"
    unfolding create_time_features_v2_def nr_def b_def dp_def
    using i g conv by (simp add: Let_def)
  have r: "set (columns \<lparr>nrows = k, cols = [(''time_dt'', [t])]\<rparr>) = {''time_dt''}" for k
    by (simp add: columns_def)
  have "''average_usage_cpu'' \<notin> set (columns b)"
    unfolding b_def by (simp add: base_time_features_def Let_def set_columns_assign r)
  then have "''average_usage_cpu'' \<notin> set (columns (get_dummies b dp))"
    using target_not_dummy by blast
  then have "''average_usage_cpu'' \<notin> set (columns nr)"
    unfolding nr_def by (simp add: cyclic_features_def Let_def set_columns_assign)
  with run show ?thesis by blast
qed

lemma list_all_update: "list_all P xs \<Longrightarrow> P x \<Longrightarrow> list_all P (xs[i := x])"
  using set_update_subset_insert [of xs i x] by (auto simp: list_all_iff)

lemma v2_step_ok:
  assumes c: "get_column d ''average_usage_cpu'' = Inr c" and num: "list_all is_number c"
    and t: "is_timestamp t" and tr: "transform sc = Inr"
  shows "\<exists>d' c'. v2_step pdt (constant_model v) sc ''average_usage_cpu'' F t (ps, d)
                    = Inr (ps @ [v], d')
           \<and> get_column d' ''average_usage_cpu'' = Inr c' \<and> list_all is_number c'"
proof -
  let ?tv = "''average_usage_cpu''"
  from new_row_ok [OF t, of pdt] obtain nr where
    nr: "create_time_features_v2 pdt \<lparr>nrows = 1, cols = [(''time_dt'', [t])]\<rparr> ''time_dt'' = Inr nr"
    and nin: "?tv \<notin> set (columns nr)" by blast
  define d1 where "d1 = copy_new_row (append_time_row d ''time_dt'' t) (nrows d) ''time_dt'' nr"
  have a: "get_column (append_time_row d ''time_dt'' t) ?tv = Inr (c @ [NaN])"
    using c by (simp add: get_column_append_time_row)
  have "?tv \<notin> fst ` set (cols nr)" using nin by (simp add: columns_def)
  from copy_new_row_keeps [OF this, of "''time_dt''" "nrows d" "append_time_row d ''time_dt'' t"] a
  have c1: "get_column d1 ?tv = Inr (c @ [NaN])"
    unfolding d1_def copy_new_row_def by simp
  have num1: "list_all is_number (c @ [NaN])" using num by simp
  from floats_number [OF num1] obtain xs where xs: "floats (c @ [NaN]) = Inr xs" by blast
  from create_lag_features_ok [OF c1, of default_lags] obtain d2 where
    d2: "create_lag_features d1 [?tv] default_lags = Inr d2"
    and c2: "get_column d2 ?tv = Inr (c @ [NaN])" by blast
  from create_rolling_features_ok [OF c2 xs, of default_windows] obtain d3 where
    d3: "create_rolling_features d2 [?tv] default_windows = Inr d3"
    and c3: "get_column d3 ?tv = Inr (c @ [NaN])" by blast
  define d' where "d' = set_cell d3 (nrows d) ?tv (Num v)"
  have c': "get_column d' ?tv = Inr ((c @ [NaN])[nrows d := Num v])"
    unfolding d'_def using c3 by (simp add: get_column_set_cell)
  have num': "list_all is_number ((c @ [NaN])[nrows d := Num v])"
    using num1 by (rule list_all_update) simp
  have "v2_step pdt (constant_model v) sc ?tv F t (ps, d) = Inr (ps @ [v], d')"
    unfolding v2_step_def d'_def
    using nr d2 [unfolded d1_def] d3 tr by (simp add: Let_def constant_model_def)
  with c' num' show ?thesis by blast
qed

lemma v2_loop_ok:
  assumes "get_column d ''average_usage_cpu'' = Inr c" and "list_all is_number c"
    and "list_all is_timestamp ts" and "transform sc = Inr"
  shows "\<exists>d'. v2_loop pdt (constant_model v) sc ''average_usage_cpu'' F ts (ps, d)
                 = Inr (ps @ replicate (length ts) v, d')"
  using assms(1,2,3)
proof (induction ts arbitrary: ps d c)
  case Nil
  then show ?case by simp
next
  case (Cons t ts)
  from Cons.prems(3) have t: "is_timestamp t" and ts: "list_all is_timestamp ts" by simp_all
  from v2_step_ok [OF Cons.prems(1,2) t assms(4), of pdt v F ps] obtain d1 c1 where
    s: "v2_step pdt (constant_model v) sc ''average_usage_cpu'' F t (ps, d) = Inr (ps @ [v], d1)"
    and c1: "get_column d1 ''average_usage_cpu'' = Inr c1" "list_all is_number c1" by blast
  from Cons.IH [OF c1 ts, of "ps @ [v]"] obtain d' where
    "v2_loop pdt (constant_model v) sc ''average_usage_cpu'' F ts (ps @ [v], d1)
       = Inr ((ps @ [v]) @ replicate (length ts) v, d')" by blast
  with s show ?case by (simp add: replicate_app_Cons_same)
qed

lemma list_all_nth_cells: "list_all P c \<Longrightarrow> P NaN \<Longrightarrow> list_all P (map (nth_cell c) idx)"
  by (auto simp: list_all_iff nth_cell_def)

lemma drop_duplicates_keeps:
  assumes "drop_duplicates df = Inr d0" and "get_column df n = Inr c" and "list_all P c"
    and "P NaN"
  shows "\<exists>c0. get_column d0 n = Inr c0 \<and> list_all P c0"
proof -
  from assms(1) obtain keep where "d0 = take_rows df keep \<or> d0 = df"
    by (auto simp: drop_duplicates_def Let_def split: if_splits)
  then show ?thesis
  proof
    assume "d0 = take_rows df keep"
    then have "get_column d0 n = Inr (map (nth_cell c) keep)"
      using assms(2) by (simp add: get_column_take_rows)
    with list_all_nth_cells [OF assms(3,4)] show ?thesis by blast
  next
    assume "d0 = df"
    with assms(2,3) show ?thesis by blast
  qed
qed

lemma v2_run_regular:
  assumes tr: "transform sc = Inr"
  shows "v2_predict_future_values pdt (Some (constant_model v)) (Some sc) (regular_history step ys)
           \<lparr>nrows = length fs, cols = [(''time_dt'', map DateTime fs)]\<rparr> ''average_usage_cpu''
         = Inr (Some \<lparr>nrows = length fs,
                      cols = [(''time_dt'', map DateTime fs),
                              (''average_usage_cpu'', replicate (length fs) (Num v))]\<rparr>)"
proof -
  let ?tv = "''average_usage_cpu''"
  let ?h = "regular_history step ys"
  let ?xs = "map (\<lambda>i. real i * step) [0..<length ys]"
  let ?f = "\<lparr>nrows = length fs, cols = [(''time_dt'', map DateTime fs)]\<rparr>"
  have ht: "get_column ?h ''time_dt'' = Inr (map DateTime ?xs)"
    and hy: "get_column ?h ?tv = Inr (map Num ys)"
    by (simp_all add: regular_history_def get_column_def)
  have ft: "get_column ?f ''time_dt'' = Inr (map DateTime fs)" by (simp add: get_column_def)
  have same: "assign ?h ''time_dt'' (map DateTime ?xs) = ?h" using ht by (rule assign_same)
  have tst: "list_all is_timestamp (map DateTime zs)" for zs by (simp add: list_all_iff)
  have nmb: "list_all is_number (map Num zs)" for zs by (simp add: list_all_iff)
  have "\<not> list_ex (\<lambda>(k, c). list_ex is_seq c) (cols ?h)"
    by (auto simp: regular_history_def list_ex_iff)
  then obtain d0 where d0: "drop_duplicates ?h = Inr d0"
    by (simp add: drop_duplicates_def Let_def)
  from drop_duplicates_keeps [OF d0 ht tst] obtain t0 where
    t0: "get_column d0 ''time_dt'' = Inr t0" "list_all is_timestamp t0" by auto
  from drop_duplicates_keeps [OF d0 hy nmb] obtain c0 where
    c0: "get_column d0 ?tv = Inr c0" "list_all is_number c0" by auto
  let ?s = "sort_values d0 t0"
  let ?perm = "argsort (nrows d0) t0"
  have st: "get_column ?s ''time_dt'' = Inr (map (nth_cell t0) ?perm)"
    and sc: "get_column ?s ?tv = Inr (map (nth_cell c0) ?perm)"
    using t0(1) c0(1) by (simp_all add: get_column_sort_values)
  have st': "list_all is_timestamp (map (nth_cell t0) ?perm)"
    using t0(2) by (rule list_all_nth_cells) simp
  have sc': "list_all is_number (map (nth_cell c0) ?perm)"
    using c0(2) by (rule list_all_nth_cells) simp
  from time_features_v2_keep_target [OF st st' sc, of pdt] obtain df1 where
    df1: "create_time_features_v2 pdt ?s ''time_dt'' = Inr df1"
    and c1: "get_column df1 ?tv = Inr (map (nth_cell c0) ?perm)" by blast
  from floats_number [OF sc'] obtain xs where xs: "floats (map (nth_cell c0) ?perm) = Inr xs"
    by blast
  from create_lag_features_ok [OF c1, of default_lags] obtain df2 where
    df2: "create_lag_features df1 [?tv] default_lags = Inr df2"
    and c2: "get_column df2 ?tv = Inr (map (nth_cell c0) ?perm)" by blast
  from create_rolling_features_ok [OF c2 xs, of default_windows] obtain w where
    w: "create_rolling_features df2 [?tv] default_windows = Inr w"
    and cw: "get_column w ?tv = Inr (map (nth_cell c0) ?perm)" by blast
  define F where "F = (case feature_names_in sc of Some F \<Rightarrow> F
     | None \<Rightarrow> filter (\<lambda>col. col \<noteq> ''time_dt'' \<and> col \<noteq> ?tv \<and> \<not> endswith col ''_predicted'')
                 (columns w))"
  from v2_loop_ok [OF cw sc' tst tr, of pdt v F fs "[]"] obtain d' where
    lp: "v2_loop pdt (constant_model v) sc ?tv F (map DateTime fs) ([], w)
           = Inr (replicate (length fs) v, d')" by auto
  have res: "assign (assign ?f ''time_dt'' (map DateTime fs)) ?tv (map Num (replicate (length fs) v))
               = \<lparr>nrows = length fs,
                  cols = [(''time_dt'', map DateTime fs), (?tv, replicate (length fs) (Num v))]\<rparr>"
    by (simp add: assign_def)
  have td: "to_datetime pdt (map DateTime ?xs) = Inr (map DateTime ?xs)"
    and tf: "to_datetime pdt (map DateTime fs) = Inr (map DateTime fs)"
    by (rule to_datetime_DateTime)+
  show ?thesis
    unfolding v2_predict_future_values_def
    using ht ft td tf same d0 t0(1) df1 df2 w lp [unfolded F_def] res
    by (simp add: Let_def del: create_lag_features.simps create_rolling_features.simps)
qed

text \<open>
  A run of the forecaster of v2 that completes: two hourly records with the values 10 and
  20 and a model that always answers 100. The forecast is 100, well above 1.2 times the
  historical maximum: this forecaster emits the answer of the model as it is.
\<close>

lemma v2_forecast_above_ceiling:
  "v2_predict_future_values (\<lambda>s. None) (Some (constant_model 100)) (Some identity_scaler)
     (regular_history 3600000000000 [10, 20])
     \<lparr>nrows = 1, cols = [(''time_dt'', [DateTime 7200000000000])]\<rparr> ''average_usage_cpu''
   = Inr (Some \<lparr>nrows = 1, cols = [(''time_dt'', [DateTime 7200000000000]),
                                   (''average_usage_cpu'', [Num 100])]\<rparr>)"
proof -
  have "transform identity_scaler = Inr" by (simp add: identity_scaler_def)
  from v2_run_regular [OF this, of "\<lambda>s. None" 100 3600000000000 "[10, 20]" "[7200000000000]"]
  show ?thesis by simp
qed
end
